(* ===== verification/Prelude.thy ===== *)
theory Prelude
  imports Main "HOL-Library.AList" "HOL-Library.Sublist" "HOL-Library.Char_ord"
    "HOL-Library.List_Lexorder"
begin

text \<open>
  Shared vocabulary of the development: the part of Python's \<^verbatim>\<open>str\<close> and \<^verbatim>\<open>dict\<close>
  that the honeypot uses, written as executable functions on lists, with the generic lemmas the
  component theories rest on.

  A Python string is a \<^typ>\<open>string\<close> whose characters are code points; the model therefore
  covers text in the range U+0000 to U+00FF (\<^const>\<open>of_char\<close> is \<^verbatim>\<open>ord\<close>).  Within that
  range \<^verbatim>\<open>len\<close>, \<^verbatim>\<open>strip\<close>, \<^verbatim>\<open>splitlines\<close> and the UTF-8 size are exact.
  A Python \<^verbatim>\<open>dict\<close> keeps insertion order, so it is an association list updated with
  \<^const>\<open>AList.update\<close> (an existing key keeps its position, a new one goes to the end) and
  \<^const>\<open>AList.delete\<close>.
\<close>

named_theorems pystr \<open>facts about the Python string functions\<close>
named_theorems splits_vfs \<open>case splits for results and nodes\<close>

subsection \<open>Characters and literals\<close>

abbreviation nl :: char where "nl \<equiv> CHR 0x0A"
abbreviation cr :: char where "cr \<equiv> CHR 0x0D"
abbreviation tab :: char where "tab \<equiv> CHR 0x09"
abbreviation bslash :: char where "bslash \<equiv> CHR 0x5C"
abbreviation squote :: char where "squote \<equiv> CHR 0x27"
abbreviation dquote :: char where "dquote \<equiv> CHR 0x22"
abbreviation slash :: char where "slash \<equiv> CHR ''/''"

definition ord :: "char \<Rightarrow> int" where
  "ord c = of_char c"

subsection \<open>Python string operations\<close>

definition startswith :: "'a list \<Rightarrow> 'a list \<Rightarrow> bool" where
  "startswith s p \<longleftrightarrow> prefix p s"

definition endswith :: "'a list \<Rightarrow> 'a list \<Rightarrow> bool" where
  "endswith s p \<longleftrightarrow> suffix p s"

text \<open>\<^verbatim>\<open>s.split(c)\<close> for a separator of one character: never empty.\<close>

fun split_on :: "'a \<Rightarrow> 'a list \<Rightarrow> 'a list list" where
  "split_on c [] = [[]]"
| "split_on c (x # xs) =
     (if x = c then [] # split_on c xs
      else (case split_on c xs of [] \<Rightarrow> [[x]] | y # ys \<Rightarrow> (x # y) # ys))"

text \<open>\<^verbatim>\<open>sep.join(parts)\<close>.\<close>

fun join :: "'a list \<Rightarrow> 'a list list \<Rightarrow> 'a list" where
  "join sep [] = []"
| "join sep [x] = x"
| "join sep (x # y # ys) = x @ sep @ join sep (y # ys)"

text \<open>\<^verbatim>\<open>lstrip\<close>, \<^verbatim>\<open>rstrip\<close> and \<^verbatim>\<open>strip\<close> of the characters satisfying a predicate.\<close>

definition lstrip :: "('a \<Rightarrow> bool) \<Rightarrow> 'a list \<Rightarrow> 'a list" where
  "lstrip p s = dropWhile p s"

definition rstrip :: "('a \<Rightarrow> bool) \<Rightarrow> 'a list \<Rightarrow> 'a list" where
  "rstrip p s = rev (dropWhile p (rev s))"

definition strip :: "('a \<Rightarrow> bool) \<Rightarrow> 'a list \<Rightarrow> 'a list" where
  "strip p s = rstrip p (lstrip p s)"

text \<open>\<^verbatim>\<open>str.isspace\<close> per character, on the code points below 256.\<close>

definition is_space :: "char \<Rightarrow> bool" where
  "is_space c \<longleftrightarrow> ord c \<in> {9, 10, 11, 12, 13, 28, 29, 30, 31, 32, 133, 160}"

abbreviation strip_ws :: "string \<Rightarrow> string" where
  "strip_ws \<equiv> strip is_space"

text \<open>
  \<^verbatim>\<open>s.rsplit(c, 1)[-1]\<close> and the head of \<^verbatim>\<open>s.rpartition(c)\<close>, for one character.
\<close>

definition rsplit_last :: "'a \<Rightarrow> 'a list \<Rightarrow> 'a list" where
  "rsplit_last c s = last (split_on c s)"

definition rpartition_head :: "'a \<Rightarrow> 'a list \<Rightarrow> 'a list" where
  "rpartition_head c s = join [c] (butlast (split_on c s))"

text \<open>\<^verbatim>\<open>s.replace(old, new)\<close> for a non-empty \<^verbatim>\<open>old\<close>, the only use in the program.\<close>

function replace :: "'a list \<Rightarrow> 'a list \<Rightarrow> 'a list \<Rightarrow> 'a list" where
  "replace old new [] = []"
| "replace old new (x # xs) =
     (if old \<noteq> [] \<and> prefix old (x # xs) then new @ replace old new (drop (length old) (x # xs))
      else x # replace old new xs)"
  by pat_completeness auto

termination
  by (relation "measure (\<lambda>(old, new, s). length s)") auto

text \<open>\<^verbatim>\<open>len(s.encode("utf-8"))\<close> for code points below 256.\<close>

definition utf8_size :: "string \<Rightarrow> int" where
  "utf8_size s = sum_list (map (\<lambda>c. if ord c < 128 then 1 else 2) s)"

text \<open>\<^verbatim>\<open>s.encode("utf-8")\<close>, as a list of bytes.\<close>

definition utf8_encode :: "string \<Rightarrow> string" where
  "utf8_encode s =
     concat (map (\<lambda>c. if ord c < 128 then [c]
       else [char_of (192 + of_char c div (64 :: nat)), char_of (128 + of_char c mod (64 :: nat))]) s)"

text \<open>\<^verbatim>\<open>s.splitlines()\<close>: the line boundaries below U+0100, with \<^verbatim>\<open>\r\n\<close> as one boundary.\<close>

definition is_line_break :: "char \<Rightarrow> bool" where
  "is_line_break c \<longleftrightarrow> ord c \<in> {10, 11, 12, 13, 28, 29, 30, 133}"

fun splitlines_from :: "string \<Rightarrow> string \<Rightarrow> string list" where
  "splitlines_from buf [] = (if buf = [] then [] else [rev buf])"
| "splitlines_from buf (c # s) =
     (if is_line_break c then
        rev buf # (case s of
            d # s' \<Rightarrow> if c = cr \<and> d = nl then splitlines_from [] s' else splitlines_from [] s
          | [] \<Rightarrow> [])
      else splitlines_from (c # buf) s)"

definition splitlines :: "string \<Rightarrow> string list" where
  "splitlines s = splitlines_from [] s"

text \<open>\<^verbatim>\<open>s.split()\<close> on white space.\<close>

fun split_ws_from :: "string \<Rightarrow> string \<Rightarrow> string list" where
  "split_ws_from buf [] = (if buf = [] then [] else [rev buf])"
| "split_ws_from buf (c # s) =
     (if is_space c then (if buf = [] then split_ws_from [] s else rev buf # split_ws_from [] s)
      else split_ws_from (c # buf) s)"

definition split_ws :: "string \<Rightarrow> string list" where
  "split_ws s = split_ws_from [] s"

text \<open>Format specifications \<^verbatim>\<open>>w\<close>, \<^verbatim>\<open><w\<close> and zero padding; \<^verbatim>\<open>str.lower\<close> and \<^verbatim>\<open>str.isalpha\<close> below U+0100.\<close>

definition rjust :: "nat \<Rightarrow> string \<Rightarrow> string" where
  "rjust w s = replicate (w - length s) (CHR '' '') @ s"

definition ljust :: "nat \<Rightarrow> string \<Rightarrow> string" where
  "ljust w s = s @ replicate (w - length s) (CHR '' '')"

definition zfill :: "nat \<Rightarrow> string \<Rightarrow> string" where
  "zfill w s = replicate (w - length s) (CHR ''0'') @ s"

definition lower_char :: "char \<Rightarrow> char" where
  "lower_char c =
     (if (65 \<le> ord c \<and> ord c \<le> 90) \<or> (192 \<le> ord c \<and> ord c \<le> 222 \<and> ord c \<noteq> 215)
      then char_of (of_char c + (32 :: nat)) else c)"

definition lower :: "string \<Rightarrow> string" where
  "lower = map lower_char"

definition is_alpha :: "char \<Rightarrow> bool" where
  "is_alpha c \<longleftrightarrow> (65 \<le> ord c \<and> ord c \<le> 90) \<or> (97 \<le> ord c \<and> ord c \<le> 122) \<or>
     ord c \<in> {170, 181, 186} \<or> (192 \<le> ord c \<and> ord c \<noteq> 215 \<and> ord c \<noteq> 247)"

text \<open>\<^verbatim>\<open>s.partition(c)\<close> and \<^verbatim>\<open>s.rpartition(c)\<close>: head, whether the separator occurs, tail.\<close>

fun partition_on :: "'a \<Rightarrow> 'a list \<Rightarrow> 'a list \<times> bool \<times> 'a list" where
  "partition_on c [] = ([], False, [])"
| "partition_on c (x # xs) =
     (if x = c then ([], True, xs)
      else (let (h, found, t) = partition_on c xs in (x # h, found, t)))"

definition rpartition_on :: "'a \<Rightarrow> 'a list \<Rightarrow> 'a list \<times> bool \<times> 'a list" where
  "rpartition_on c s =
     (if c \<in> set s then (rpartition_head c s, True, rsplit_last c s) else ([], False, s))"

text \<open>\<^verbatim>\<open>str(n)\<close> on integers, and a text block whose every line ends with a newline.\<close>

fun str_nat :: "nat \<Rightarrow> string" where
  "str_nat n = (if n < 10 then [char_of (48 + n)] else str_nat (n div 10) @ [char_of (48 + n mod 10)])"

declare str_nat.simps [simp del]

definition str_int :: "int \<Rightarrow> string" where
  "str_int i = (if i < 0 then ''-'' @ str_nat (nat (- i)) else str_nat (nat i))"

definition unlines :: "string list \<Rightarrow> string" where
  "unlines ls = concat (map (\<lambda>l. l @ [nl]) ls)"

subsection \<open>Lemmas: splitting and joining\<close>

lemma split_on_not_Nil [simp]: "split_on c s \<noteq> []"
  by (induction s) (auto split: list.splits)

lemma join_Cons: "ys \<noteq> [] \<Longrightarrow> join sep (x # ys) = x @ sep @ join sep ys"
  by (cases ys) auto

lemma join_split_on [simp]: "join [c] (split_on c s) = s"
proof (induction s)
  case Nil
  show ?case by simp
next
  case (Cons x xs)
  obtain y ys where "split_on c xs = y # ys" by (cases "split_on c xs") auto
  with Cons show ?case by (cases ys) (auto simp: join_Cons)
qed

lemma split_on_no_sep [simp]: "c \<notin> set s \<Longrightarrow> split_on c s = [s]"
  by (induction s) auto

lemma split_on_append_sep: "c \<notin> set x \<Longrightarrow> split_on c (x @ c # s) = x # split_on c s"
  by (induction x) auto

lemma split_on_join:
  assumes "xs \<noteq> []" and "\<forall>x \<in> set xs. c \<notin> set x"
  shows "split_on c (join [c] xs) = xs"
  using assms
proof (induction xs)
  case (Cons x xs)
  then show ?case by (cases xs) (auto simp: split_on_append_sep)
qed simp

lemma split_on_parts_no_sep: "x \<in> set (split_on c s) \<Longrightarrow> c \<notin> set x"
  by (induction s arbitrary: x) (auto split: list.splits if_splits)

lemma set_join_subset: "set (join sep xs) \<subseteq> set sep \<union> (\<Union>x \<in> set xs. set x)"
  by (induction sep xs rule: join.induct) auto

lemma join_eq_Nil_iff: "join [c] xs = [] \<longleftrightarrow> xs = [] \<or> xs = [[]]"
  by (cases "([c], xs)" rule: join.cases) auto

lemma hd_join: "xs \<noteq> [] \<Longrightarrow> hd xs \<noteq> [] \<Longrightarrow> hd (join [c] xs) = hd (hd xs)"
  by (cases "([c], xs)" rule: join.cases) auto

lemma last_join: "xs \<noteq> [] \<Longrightarrow> last xs \<noteq> [] \<Longrightarrow> last (join [c] xs) = last (last xs)"
proof (induction xs)
  case (Cons x xs)
  then show ?case
    by (cases "xs = []") (auto simp: join_Cons join_eq_Nil_iff)
qed simp

subsection \<open>Lemmas: stripping\<close>

lemma lstrip_id: "s = [] \<or> \<not> p (hd s) \<Longrightarrow> lstrip p s = s"
  by (cases s) (auto simp: lstrip_def)

lemma rstrip_id: "s = [] \<or> \<not> p (last s) \<Longrightarrow> rstrip p s = s"
  by (cases s rule: rev_cases) (auto simp: rstrip_def)

lemma strip_id: "s = [] \<or> (\<not> p (hd s) \<and> \<not> p (last s)) \<Longrightarrow> strip p s = s"
  by (auto simp: strip_def lstrip_id rstrip_id)

lemma strip_ends: "strip p s = [] \<or> (\<not> p (hd (strip p s)) \<and> \<not> p (last (strip p s)))"
proof -
  define t where "t = lstrip p s"
  have t: "t = [] \<or> \<not> p (hd t)"
    unfolding t_def lstrip_def using hd_dropWhile by blast
  obtain u where u: "t = rstrip p t @ u" and "\<forall>x \<in> set u. p x"
    unfolding rstrip_def
    by (metis rev_append rev_rev_ident set_rev set_takeWhileD takeWhile_dropWhile_id)
  have "rstrip p t = [] \<or> \<not> p (last (rstrip p t))"
    unfolding rstrip_def by (metis hd_dropWhile last_rev rev_is_Nil_conv)
  moreover have "rstrip p t = [] \<or> hd (rstrip p t) = hd t"
    using u by (metis hd_append2)
  moreover have "rstrip p t \<noteq> [] \<Longrightarrow> t \<noteq> []"
    using u by auto
  ultimately show ?thesis
    using t by (auto simp: strip_def t_def [symmetric])
qed

lemma strip_idem [simp]: "strip p (strip p s) = strip p s"
  by (rule strip_id) (rule strip_ends)

subsection \<open>Lemmas: sizes and dictionaries\<close>

lemma utf8_size_Nil [simp]: "utf8_size [] = 0"
  by (simp add: utf8_size_def)

lemma utf8_size_append [simp]: "utf8_size (s @ t) = utf8_size s + utf8_size t"
  by (simp add: utf8_size_def)

lemma utf8_size_bounds: "int (length s) \<le> utf8_size s \<and> utf8_size s \<le> 2 * int (length s)"
  by (induction s) (auto simp: utf8_size_def)

lemma utf8_size_nonneg [simp]: "0 \<le> utf8_size s"
  using utf8_size_bounds [of s] by linarith

lemma map_of_update [simp]: "map_of (AList.update k v al) = (map_of al)(k \<mapsto> v)"
  by (rule update_conv')

lemma map_of_delete [simp]: "map_of (AList.delete k al) = (map_of al)(k := None)"
  by (rule delete_conv')

lemma keys_update_present:
  "map_of al k \<noteq> None \<Longrightarrow> map fst (AList.update k v al) = map fst al"
  by (induction al) (auto split: if_splits)

lemma keys_update_absent:
  "map_of al k = None \<Longrightarrow> AList.update k v al = al @ [(k, v)]"
  by (induction al) auto

lemma distinct_keys_update:
  "distinct (map fst al) \<Longrightarrow> distinct (map fst (AList.update k v al))"
  by (rule distinct_update)

lemma distinct_keys_delete:
  "distinct (map fst al) \<Longrightarrow> distinct (map fst (AList.delete k al))"
  by (rule distinct_delete)

lemma sum_list_update:
  fixes f :: "'v \<Rightarrow> 'b :: ab_group_add"
  assumes "map_of al k = Some w" and "distinct (map fst al)"
  shows "sum_list (map (\<lambda>p. f (snd p)) (AList.update k v al)) =
    sum_list (map (\<lambda>p. f (snd p)) al) - f w + f v"
  using assms by (induction al) (auto split: if_splits simp: algebra_simps)

lemma sum_list_delete:
  fixes f :: "'v \<Rightarrow> 'b :: ab_group_add"
  assumes "map_of al k = Some w" and "distinct (map fst al)"
  shows "sum_list (map (\<lambda>p. f (snd p)) (AList.delete k al)) =
    sum_list (map (\<lambda>p. f (snd p)) al) - f w"
  using assms
proof (induction al)
  case (Cons p al)
  show ?case
  proof (cases "fst p = k")
    case True
    with Cons.prems have "k \<notin> fst ` set al" by auto
    then have "AList.delete k al = al" by (rule AList.delete_id)
    with True Cons.prems show ?thesis by (cases p) (auto simp: algebra_simps)
  next
    case False
    with Cons show ?thesis by (cases p) (auto simp: algebra_simps)
  qed
qed simp

end
