(* ===== verification/Vfs_Paths.thy ===== *)
theory Vfs_Paths
  imports Prelude
begin

text \<open>
  Path handling of \<^verbatim>\<open>src/vfs.py\<close>: \<^verbatim>\<open>canonicalize\<close> and \<^verbatim>\<open>parent_path\<close>.
  Every operation of the virtual filesystem first canonicalises its argument; the lemmas show
  that the result is a rooted path of proper names (or the literal \<^verbatim>\<open>-\<close>), so that no
  sequence of \<^verbatim>\<open>..\<close> leaves the tree, and that the splitting done by the operations
  recovers exactly those names.
\<close>

subsection \<open>Definitions\<close>

definition DEFAULT_HOME :: string where
  "DEFAULT_HOME = ''/root''"

text \<open>The loop of \<^verbatim>\<open>canonicalize\<close> over the parts, with its accumulator.\<close>

fun collapse :: "string list \<Rightarrow> string list \<Rightarrow> string list" where
  "collapse parts [] = parts"
| "collapse parts (part # rest) =
     (if part = [] \<or> part = ''.'' then collapse parts rest
      else if part = ''..'' then
        collapse (if parts \<noteq> [] then butlast parts else parts) rest
      else collapse (parts @ [part]) rest)"

definition rooted :: "string \<Rightarrow> string \<Rightarrow> string" where
  "rooted path cwd =
     (if \<not> startswith path ''/'' then
        (let base = (if cwd \<noteq> ''/'' then cwd else []) in base @ ''/'' @ path)
      else path)"

definition canonicalize :: "string \<Rightarrow> string \<Rightarrow> string \<Rightarrow> string" where
  "canonicalize path cwd home =
     (let expand = (path = ''~'' \<or> startswith path ''~/'') in
      if \<not> expand \<and> path = ''-'' then path
      else
        (let path = (if expand then home @ drop 1 path else path);
             path = rooted path cwd
         in ''/'' @ join ''/'' (collapse [] (split_on slash path))))"

definition parent_path :: "string \<Rightarrow> string" where
  "parent_path abs_path =
     (if abs_path = ''/'' then ''/''
      else
        (let parent = rpartition_head slash (rstrip (\<lambda>c. c = slash) abs_path)
         in if parent \<noteq> [] then parent else ''/''))"

text \<open>The parts a canonical path is walked by: \<^verbatim>\<open>abs_path.strip("/").split("/")\<close>.\<close>

definition path_parts :: "string \<Rightarrow> string list" where
  "path_parts abs_path = split_on slash (strip (\<lambda>c. c = slash) abs_path)"

subsection \<open>Vocabulary of the specification\<close>

definition proper :: "string \<Rightarrow> bool" where
  "proper s \<longleftrightarrow> s \<noteq> [] \<and> s \<noteq> ''.'' \<and> s \<noteq> ''..'' \<and> slash \<notin> set s"

definition abs_of :: "string list \<Rightarrow> string" where
  "abs_of ps = ''/'' @ join ''/'' ps"

text \<open>The names a canonical path denotes, the root being the empty list.\<close>

definition names_of :: "string \<Rightarrow> string list" where
  "names_of p = (if p = ''/'' then [] else path_parts p)"

subsection \<open>Collapsing\<close>

lemma proper_simps [simp]:
  "\<not> proper []" "\<not> proper ''.''" "\<not> proper ''..''"
  by (auto simp: proper_def)

lemma collapse_proper:
  assumes "list_all proper acc" and "\<forall>x \<in> set parts. slash \<notin> set x"
  shows "list_all proper (collapse acc parts)"
  using assms
proof (induction acc parts rule: collapse.induct)
  case (2 acc part rest)
  have "list_all proper (butlast acc)"
    using "2.prems"(1) by (auto simp: list_all_iff dest: in_set_butlastD)
  moreover have "part \<noteq> [] \<Longrightarrow> part \<noteq> ''.'' \<Longrightarrow> part \<noteq> ''..'' \<Longrightarrow> proper part"
    using "2.prems"(2) by (simp add: proper_def)
  ultimately show ?case using "2" by auto
qed simp

lemma collapse_id: "list_all proper ps \<Longrightarrow> collapse acc ps = acc @ ps"
  by (induction ps arbitrary: acc) (auto simp: proper_def)

lemma collapse_append: "collapse acc (xs @ ys) = collapse (collapse acc xs) ys"
  by (induction acc xs rule: collapse.induct) auto

lemma collapse_Nil_part [simp]: "collapse acc ([] # ys) = collapse acc ys"
  by simp

lemma split_on_snoc_sep: "split_on c (x @ c # s) = split_on c x @ split_on c s"
proof (induction x)
  case (Cons a x)
  then show ?case by (cases "split_on c x") auto
qed simp

subsection \<open>The shape of canonical paths\<close>

lemma abs_of_Nil [simp]: "abs_of [] = ''/''"
  by (simp add: abs_of_def)

lemma abs_of_ne [simp]: "abs_of ps \<noteq> []" "hd (abs_of ps) = slash" "abs_of ps \<noteq> ''-''"
  "abs_of ps \<noteq> ''~''"
  by (auto simp: abs_of_def)

lemma startswith_abs_of [simp]: "startswith (abs_of ps) ''/''" "\<not> startswith (abs_of ps) ''~/''"
  by (auto simp: abs_of_def startswith_def)

lemma proper_no_slash: "list_all proper ps \<Longrightarrow> \<forall>x \<in> set ps. slash \<notin> set x"
  by (auto simp: list_all_iff proper_def)

lemma split_on_abs_of:
  "list_all proper ps \<Longrightarrow> ps \<noteq> [] \<Longrightarrow> split_on slash (abs_of ps) = [] # ps"
  by (simp add: abs_of_def split_on_join proper_no_slash)

lemma collapse_abs_of: "list_all proper ps \<Longrightarrow> collapse acc (split_on slash (abs_of ps)) = acc @ ps"
  by (cases "ps = []") (simp_all add: split_on_abs_of collapse_id)

lemma abs_of_eq_root [simp]: "list_all proper ps \<Longrightarrow> abs_of ps = ''/'' \<longleftrightarrow> ps = []"
  by (auto simp: abs_of_def join_eq_Nil_iff)

lemma strip_abs_of:
  assumes "list_all proper ps" and "ps \<noteq> []"
  shows "strip (\<lambda>c. c = slash) (abs_of ps) = join ''/'' ps"
    and "rstrip (\<lambda>c. c = slash) (abs_of ps) = abs_of ps"
proof -
  have "proper (hd ps)" "proper (last ps)"
    using assms by (auto simp: list_all_iff)
  then have hd: "hd ps \<noteq> []" "hd (hd ps) \<noteq> slash" and ls: "last ps \<noteq> []" "last (last ps) \<noteq> slash"
    by (metis proper_def hd_in_set last_in_set)+
  have ne: "join ''/'' ps \<noteq> []"
    using assms hd by (auto simp: join_eq_Nil_iff)
  have h: "hd (join ''/'' ps) \<noteq> slash" and l: "last (join ''/'' ps) \<noteq> slash"
    using hd ls assms(2) by (simp_all add: hd_join last_join)
  have "lstrip (\<lambda>c. c = slash) (abs_of ps) = join ''/'' ps"
    using h by (simp add: abs_of_def lstrip_def) (cases "join ''/'' ps"; simp)
  then show "strip (\<lambda>c. c = slash) (abs_of ps) = join ''/'' ps"
    using l by (simp add: strip_def rstrip_id)
  show "rstrip (\<lambda>c. c = slash) (abs_of ps) = abs_of ps"
    using ne l by (intro rstrip_id) (simp add: abs_of_def)
qed

lemma path_parts_abs_of:
  "list_all proper ps \<Longrightarrow> ps \<noteq> [] \<Longrightarrow> path_parts (abs_of ps) = ps"
  by (simp add: path_parts_def strip_abs_of split_on_join proper_no_slash)

lemma names_of_abs_of [simp]: "list_all proper ps \<Longrightarrow> names_of (abs_of ps) = ps"
  by (simp add: names_of_def path_parts_abs_of)

lemma parent_path_abs_of:
  assumes "list_all proper ps" and "ps \<noteq> []"
  shows "parent_path (abs_of ps) = abs_of (butlast ps)"
proof -
  have "rpartition_head slash (abs_of ps) = join ''/'' ([] # butlast ps)"
    using assms by (simp add: rpartition_head_def split_on_abs_of)
  also have "\<dots> = (if butlast ps = [] then [] else abs_of (butlast ps))"
    by (simp add: join_Cons abs_of_def)
  finally show ?thesis
    using assms by (auto simp: parent_path_def strip_abs_of Let_def)
qed

lemma rsplit_last_abs_of:
  "list_all proper ps \<Longrightarrow> ps \<noteq> [] \<Longrightarrow> rsplit_last slash (abs_of ps) = last ps"
  by (simp add: rsplit_last_def split_on_abs_of)

lemma canonicalize_eq:
  assumes "path \<noteq> ''-''"
  shows "canonicalize path cwd home =
    abs_of (collapse [] (split_on slash (rooted
      (if path = ''~'' \<or> startswith path ''~/'' then home @ drop 1 path else path) cwd)))"
  using assms by (auto simp: canonicalize_def abs_of_def Let_def)

lemma canonicalize_dash [simp]: "canonicalize ''-'' cwd home = ''-''"
  by (simp add: canonicalize_def startswith_def)

lemma canonicalize_form:
  assumes "path \<noteq> ''-''"
  obtains ps where "list_all proper ps" and "canonicalize path cwd home = abs_of ps"
proof (rule that)
  show "list_all proper (collapse [] (split_on slash (rooted
      (if path = ''~'' \<or> startswith path ''~/'' then home @ drop 1 path else path) cwd)))"
    by (auto intro!: collapse_proper split_on_parts_no_sep)
qed (rule canonicalize_eq [OF assms])

lemma canonicalize_abs_of [simp]:
  "list_all proper ps \<Longrightarrow> canonicalize (abs_of ps) cwd home = abs_of ps"
  by (simp add: canonicalize_eq rooted_def collapse_abs_of)

lemma dash_lemmas [simp]:
  "names_of ''-'' = [''-'']" "path_parts ''-'' = [''-'']" "parent_path ''-'' = ''/''"
  "rsplit_last slash ''-'' = ''-''"
  by (simp_all add: names_of_def path_parts_def parent_path_def rsplit_last_def
      rpartition_head_def strip_def lstrip_def rstrip_def)

text \<open>
  What the operations rely on, uniformly for the literal \<^verbatim>\<open>-\<close> and for rooted paths.
\<close>

lemma canonicalize_names:
  fixes path cwd home
  defines "p \<equiv> canonicalize path cwd home"
  shows "list_all proper (names_of p)"
    and "p = ''/'' \<longleftrightarrow> names_of p = []"
    and "p \<noteq> ''/'' \<Longrightarrow> path_parts p = names_of p"
    and "p \<noteq> ''/'' \<Longrightarrow> parent_path p = abs_of (butlast (names_of p))"
    and "p \<noteq> ''/'' \<Longrightarrow> rsplit_last slash p = last (names_of p)"
proof -
  have "list_all proper (names_of p) \<and> (p = ''/'' \<longleftrightarrow> names_of p = []) \<and>
    (p \<noteq> ''/'' \<longrightarrow> path_parts p = names_of p \<and> parent_path p = abs_of (butlast (names_of p)) \<and>
      rsplit_last slash p = last (names_of p))"
  proof (cases "path = ''-''")
    case True
    then show ?thesis by (simp add: p_def proper_def)
  next
    case False
    then obtain ps where "list_all proper ps" and "p = abs_of ps"
      unfolding p_def by (rule canonicalize_form)
    then show ?thesis
      by (simp add: path_parts_abs_of parent_path_abs_of rsplit_last_abs_of)
  qed
  then show "list_all proper (names_of p)"
    and "p = ''/'' \<longleftrightarrow> names_of p = []"
    and "p \<noteq> ''/'' \<Longrightarrow> path_parts p = names_of p"
    and "p \<noteq> ''/'' \<Longrightarrow> parent_path p = abs_of (butlast (names_of p))"
    and "p \<noteq> ''/'' \<Longrightarrow> rsplit_last slash p = last (names_of p)"
    by blast+
qed

subsection \<open>Properties\<close>

text \<open>
  C28. Confinement of paths: whatever the attacker types (except the literal \<^verbatim>\<open>-\<close>),
  whatever the working directory and home, \<^verbatim>\<open>canonicalize\<close> returns a slash followed by
  names that are non-empty, contain no slash and are neither \<^verbatim>\<open>.\<close> nor \<^verbatim>\<open>..\<close>; and
  canonicalising again, from any other working directory, changes nothing.
\<close>

theorem canonicalize_confined:
  assumes "path \<noteq> ''-''"
  shows "\<exists>ps. (\<forall>x \<in> set ps. x \<noteq> [] \<and> x \<noteq> ''.'' \<and> x \<noteq> ''..'' \<and> slash \<notin> set x) \<and>
    canonicalize path cwd home = ''/'' @ join ''/'' ps \<and>
    (\<forall>cwd'. canonicalize (canonicalize path cwd home) cwd' home = canonicalize path cwd home)"
proof -
  obtain ps where pr: "list_all proper ps" and eq: "canonicalize path cwd home = abs_of ps"
    using canonicalize_form [OF assms] .
  from pr have "\<forall>x \<in> set ps. x \<noteq> [] \<and> x \<noteq> ''.'' \<and> x \<noteq> ''..'' \<and> slash \<notin> set x"
    by (simp add: list_all_iff proper_def)
  moreover from eq have "canonicalize path cwd home = ''/'' @ join ''/'' ps"
    by (simp only: abs_of_def)
  moreover have "\<forall>cwd'. canonicalize (canonicalize path cwd home) cwd' home = canonicalize path cwd home"
    by (simp add: eq pr)
  ultimately show ?thesis by blast
qed

theorem canonicalize_confined_witness:
  "''../../etc/./passwd'' \<noteq> ''-'' \<and>
   canonicalize ''../../etc/./passwd'' ''/root'' ''/root'' = ''/etc/passwd'' \<and>
   (\<exists>ps. canonicalize ''../../etc/./passwd'' ''/root'' ''/root'' = ''/'' @ join ''/'' ps)"
  using canonicalize_confined [of "''../../etc/./passwd''" "''/root''" "''/root''"]
  by (auto simp: canonicalize_def startswith_def rooted_def)

text \<open>
  Changing directory and then using a relative path is the same as using the joined path:
  for a non-empty \<^verbatim>\<open>p\<close> and a \<^verbatim>\<open>q\<close> that is relative and needs no expansion, the path
  \<^verbatim>\<open>q\<close> seen from the canonical form of \<^verbatim>\<open>p\<close> is \<^verbatim>\<open>p/q\<close> seen from the original
  working directory.
\<close>

theorem canonicalize_cd:
  assumes "p \<noteq> []" and "p \<noteq> ''-''" and "home \<noteq> []" and "\<not> startswith q ''/''" and "q \<noteq> ''~''"
    and "\<not> startswith q ''~/''" and "q \<noteq> ''-''"
  shows "canonicalize q (canonicalize p cwd home) home = canonicalize (p @ ''/'' @ q) cwd home"
proof -
  define p' where "p' = rooted (if p = ''~'' \<or> startswith p ''~/'' then home @ drop 1 p else p) cwd"
  define ps where "ps = collapse [] (split_on slash p')"
  have cp: "canonicalize p cwd home = abs_of ps" and pr: "list_all proper ps"
    using assms(2) by (auto simp: canonicalize_eq ps_def p'_def intro!: collapse_proper
        split_on_parts_no_sep)
  have "split_on slash (rooted q (abs_of ps)) = split_on slash (abs_of ps) @ split_on slash q \<or>
     ps = [] \<and> split_on slash (rooted q (abs_of ps)) = [] # split_on slash q"
    using assms(4) pr by (auto simp: rooted_def split_on_snoc_sep)
  then have lhs: "canonicalize q (abs_of ps) home = abs_of (collapse ps (split_on slash q))"
    using assms(5-7) pr by (auto simp: canonicalize_eq collapse_append collapse_abs_of)
  have pq: "p @ ''/'' @ q \<noteq> ''-''" "p @ ''/'' @ q \<noteq> ''~''"
    by (cases p; auto)+
  have ex: "startswith (p @ ''/'' @ q) ''~/'' \<longleftrightarrow> p = ''~'' \<or> startswith p ''~/''"
    using assms(1) by (cases p; cases "tl p") (auto simp: startswith_def)
  have rt: "x \<noteq> [] \<Longrightarrow> rooted (x @ ''/'' @ q) cwd = rooted x cwd @ ''/'' @ q" for x
    by (cases x) (auto simp: rooted_def startswith_def)
  have dr: "home @ drop 1 (p @ ''/'' @ q) = (home @ drop 1 p) @ ''/'' @ q"
    using assms(1) by (cases p) auto
  have "rooted (if startswith (p @ ''/'' @ q) ''~/'' then home @ drop 1 (p @ ''/'' @ q)
     else p @ ''/'' @ q) cwd = p' @ ''/'' @ q"
    unfolding ex dr p'_def using rt [of "home @ drop 1 p"] rt [of p] assms(1,3)
    by (simp only: if_distrib [of "\<lambda>x. rooted x cwd"] if_distrib [of "\<lambda>x. x @ ''/'' @ q"] append_is_Nil_conv) simp
  then have "canonicalize (p @ ''/'' @ q) cwd home = abs_of (collapse [] (split_on slash (p' @ ''/'' @ q)))"
    using pq by (simp only: canonicalize_eq simp_thms)
  also have "\<dots> = abs_of (collapse ps (split_on slash q))"
    by (simp add: ps_def split_on_snoc_sep collapse_append)
  finally show ?thesis by (simp only: cp lhs)
qed

theorem canonicalize_cd_witness:
  "''~/logs'' \<noteq> [] \<and> \<not> startswith ''../x'' ''/'' \<and>
   canonicalize ''../x'' (canonicalize ''~/logs'' ''/tmp'' ''/root'') ''/root'' =
     canonicalize ''~/logs/../x'' ''/tmp'' ''/root''"
  using canonicalize_cd [of "''~/logs''" "''/root''" "''../x''" "''/tmp''"]
  by (simp add: startswith_def)

end
