(* ===== verification/Vfs_Chmod.thy ===== *)
theory Vfs_Chmod
  imports Prelude
begin

unbundle bit_operations_syntax

text \<open>
  \<^verbatim>\<open>apply_chmod_mode\<close> and \<^verbatim>\<open>_apply_symbolic_clause\<close> of \<^verbatim>\<open>src/vfs.py\<close>: octal and
  symbolic permission specifications.  Python integers are \<^typ>\<open>int\<close>, with \<^verbatim>\<open>&\<close>,
  \<^verbatim>\<open>|\<close> and \<^verbatim>\<open>~\<close> as AND, OR and NOT; a \<^verbatim>\<open>ValueError\<close> is \<^const>\<open>Inl\<close> of its
  argument.  The specification reads a mode as the set of (subject, permission) pairs it grants,
  and the refinement lemma says what one clause does to that set.
\<close>

subsection \<open>Definitions\<close>

definition bit_map :: "(char \<times> char) \<Rightarrow> int option" where
  "bit_map = map_of
    [((CHR ''u'', CHR ''r''), 0x100), ((CHR ''u'', CHR ''w''), 0x80),
     ((CHR ''u'', CHR ''x''), 0x40), ((CHR ''u'', CHR ''s''), 0x800),
     ((CHR ''g'', CHR ''r''), 0x20), ((CHR ''g'', CHR ''w''), 0x10),
     ((CHR ''g'', CHR ''x''), 0x8), ((CHR ''g'', CHR ''s''), 0x400),
     ((CHR ''o'', CHR ''r''), 0x4), ((CHR ''o'', CHR ''w''), 0x2),
     ((CHR ''o'', CHR ''x''), 0x1), ((CHR ''o'', CHR ''t''), 0x200)]"

definition chmod_subjects :: "string \<Rightarrow> string" where
  "chmod_subjects who_chars =
     (if who_chars = [] \<or> CHR ''a'' \<in> set who_chars then ''ugo'' else remdups who_chars)"

definition chmod_key :: "char \<Rightarrow> char \<Rightarrow> char \<times> char" where
  "chmod_key subject perm =
     (if perm = CHR ''t'' then (CHR ''o'', CHR ''t'') else (subject, perm))"

definition chmod_delta :: "string \<Rightarrow> string \<Rightarrow> int" where
  "chmod_delta subjects perms =
     fold (\<lambda>subject delta. fold (\<lambda>perm delta.
        delta OR (case bit_map (chmod_key subject perm) of None \<Rightarrow> 0 | Some b \<Rightarrow> b)) perms delta)
       subjects 0"

definition chmod_who_mask :: "string \<Rightarrow> int" where
  "chmod_who_mask subjects =
     (let m = 0;
          m = (if CHR ''u'' \<in> set subjects then m OR 0x9C0 else m);
          m = (if CHR ''g'' \<in> set subjects then m OR 0x438 else m)
      in if CHR ''o'' \<in> set subjects then m OR 0x207 else m)"

definition apply_symbolic_clause :: "int \<Rightarrow> string \<Rightarrow> string + int" where
  "apply_symbolic_clause current clause =
     (if clause = [] then Inl clause
      else
        (let who_chars = takeWhile (\<lambda>c. c \<in> set ''ugoa'') clause;
             rest = dropWhile (\<lambda>c. c \<in> set ''ugoa'') clause
         in case rest of
              [] \<Rightarrow> Inl clause
            | op # perms \<Rightarrow>
                if op \<notin> set ''+-='' then Inl clause
                else if list_ex (\<lambda>c. c \<notin> set ''rwxst'') perms then Inl clause
                else
                  (let subjects = chmod_subjects who_chars;
                       delta = chmod_delta subjects perms;
                       who_mask = chmod_who_mask subjects
                   in if op = CHR ''+'' then Inr (current OR delta)
                      else if op = CHR ''-'' then Inr (current AND NOT delta)
                      else Inr ((current AND NOT who_mask) OR delta))))"

fun apply_clauses :: "int \<Rightarrow> string list \<Rightarrow> string + int" where
  "apply_clauses result [] = Inr result"
| "apply_clauses result (clause # clauses) =
     (case apply_symbolic_clause result clause of
        Inl e \<Rightarrow> Inl e
      | Inr result \<Rightarrow> apply_clauses result clauses)"

text \<open>\<^verbatim>\<open>int(s, 8)\<close> on a string of octal digits.\<close>

definition int_octal :: "string \<Rightarrow> int" where
  "int_octal s = foldl (\<lambda>acc c. acc * 8 + (ord c - 48)) 0 s"

definition apply_chmod_mode :: "int \<Rightarrow> string \<Rightarrow> string + int" where
  "apply_chmod_mode current spec =
     (let stripped = strip_ws spec in
      if stripped = [] then Inl spec
      else if list_all (\<lambda>c. c \<in> set ''01234567'') stripped then
        (if length stripped > 4 then Inl spec else Inr (int_octal stripped AND 0xFFF))
      else apply_clauses (current AND 0xFFF) (split_on (CHR '','') stripped))"

subsection \<open>Reading a mode as a set of permissions\<close>

fun key_pos :: "char \<times> char \<Rightarrow> nat option" where
  "key_pos (s, p) =
     (if s = CHR ''u'' then
        (if p = CHR ''r'' then Some 8 else if p = CHR ''w'' then Some 7
         else if p = CHR ''x'' then Some 6 else if p = CHR ''s'' then Some 11 else None)
      else if s = CHR ''g'' then
        (if p = CHR ''r'' then Some 5 else if p = CHR ''w'' then Some 4
         else if p = CHR ''x'' then Some 3 else if p = CHR ''s'' then Some 10 else None)
      else if s = CHR ''o'' then
        (if p = CHR ''r'' then Some 2 else if p = CHR ''w'' then Some 1
         else if p = CHR ''x'' then Some 0 else if p = CHR ''t'' then Some 9 else None)
      else None)"

definition granted :: "int \<Rightarrow> (char \<times> char) set" where
  "granted m = {k. \<exists>n. key_pos k = Some n \<and> bit m n}"

definition clause_keys :: "string \<Rightarrow> string \<Rightarrow> (char \<times> char) set" where
  "clause_keys subjects perms =
     {k. key_pos k \<noteq> None \<and> (\<exists>s \<in> set subjects. \<exists>p \<in> set perms. k = chmod_key s p)}"

subsection \<open>Bit-level lemmas\<close>

lemma bit_map_key_pos: "bit_map k = map_option (\<lambda>n. 2 ^ n) (key_pos k)"
  by (cases k) (simp add: bit_map_def)

lemma key_pos_inj: "key_pos k = Some n \<Longrightarrow> key_pos k' = Some n \<Longrightarrow> k = k'"
  by (cases k; cases k') (auto split: if_splits)

lemma key_pos_less: "key_pos k = Some n \<Longrightarrow> n < 12"
  by (cases k) (auto split: if_splits)

lemma bit_fold_OR: "bit (fold (\<lambda>x d. d OR f x) xs a) n \<longleftrightarrow> bit a n \<or> (\<exists>x \<in> set xs. bit (f x) n)"
  for a :: int
  by (induction xs arbitrary: a) (auto simp: bit_or_iff)

lemma bit_fold_fold_OR:
  "bit (fold (\<lambda>y d. fold (\<lambda>x d. d OR f y x) xs d) ys a) n \<longleftrightarrow>
     bit a n \<or> (\<exists>y \<in> set ys. \<exists>x \<in> set xs. bit (f y x) n)"
  for a :: int
  by (induction ys arbitrary: a) (auto simp: bit_fold_OR)

lemma bit_chmod_delta:
  "bit (chmod_delta subjects perms) n \<longleftrightarrow>
     (\<exists>s \<in> set subjects. \<exists>p \<in> set perms. key_pos (chmod_key s p) = Some n)"
proof -
  have "bit (case bit_map k of None \<Rightarrow> 0 | Some b \<Rightarrow> b) n \<longleftrightarrow> key_pos k = Some n" for k
    by (auto simp: bit_map_key_pos bit_exp_iff split: option.splits)
  then show ?thesis
    unfolding chmod_delta_def bit_fold_fold_OR by simp
qed

lemma granted_delta: "granted (chmod_delta subjects perms) = clause_keys subjects perms"
  unfolding granted_def clause_keys_def bit_chmod_delta
  by (metis (no_types, lifting) key_pos_inj not_None_eq)

lemma granted_OR: "granted (a OR b) = granted a \<union> granted b"
  by (auto simp: granted_def bit_or_iff)

lemma granted_AND_NOT: "granted (a AND NOT b) = granted a - granted b"
  by (auto simp: granted_def bit_and_iff bit_not_iff)

lemma granted_who_mask:
  assumes "set subjects \<subseteq> set ''ugo''"
  shows "granted (chmod_who_mask subjects) = {k. fst k \<in> set subjects \<and> key_pos k \<noteq> None}"
proof -
  have "bit (0x9C0 :: int) n \<longleftrightarrow> n \<in> {6, 7, 8, 11}" "bit (0x438 :: int) n \<longleftrightarrow> n \<in> {3, 4, 5, 10}"
    "bit (0x207 :: int) n \<longleftrightarrow> n \<in> {0, 1, 2, 9}" if "n < 12" for n
  proof -
    have "n \<in> {0, 1, 2, 3, 4, 5, 6, 7, 8, 9, 10, 11}"
      using that unfolding insert_iff empty_iff by arith
    then show "bit (0x9C0 :: int) n \<longleftrightarrow> n \<in> {6, 7, 8, 11}" "bit (0x438 :: int) n \<longleftrightarrow> n \<in> {3, 4, 5, 10}"
      "bit (0x207 :: int) n \<longleftrightarrow> n \<in> {0, 1, 2, 9}"
      by (elim insertE emptyE; simp)+
  qed
  note b = this
  have "bit (chmod_who_mask subjects) n \<longleftrightarrow> (CHR ''u'' \<in> set subjects \<and> n \<in> {6, 7, 8, 11}) \<or>
    (CHR ''g'' \<in> set subjects \<and> n \<in> {3, 4, 5, 10}) \<or> (CHR ''o'' \<in> set subjects \<and> n \<in> {0, 1, 2, 9})"
    if "n < 12" for n
    using b [OF that] by (simp add: chmod_who_mask_def Let_def bit_or_iff)
  then show ?thesis
    using assms by (auto simp: granted_def key_pos_less split: if_splits)
qed

lemma chmod_subjects_ugo:
  "set who \<subseteq> set ''ugoa'' \<Longrightarrow> set (chmod_subjects who) \<subseteq> set ''ugo''"
  by (auto simp: chmod_subjects_def)

subsection \<open>Range of the result\<close>

text \<open>A mode within the twelve permission bits.\<close>

definition mode_ok :: "int \<Rightarrow> bool" where
  "mode_ok m \<longleftrightarrow> 0 \<le> m \<and> m \<le> 0xFFF"

lemma mode_ok_iff: "mode_ok m \<longleftrightarrow> take_bit 12 m = m"
  by (auto simp: mode_ok_def take_bit_int_eq_self_iff)

lemma mode_ok_bits: "mode_ok m \<longleftrightarrow> (\<forall>n. bit m n \<longrightarrow> n < 12)"
  by (auto simp: mode_ok_iff bit_eq_iff bit_take_bit_iff)

lemma mode_ok_AND_mask: "mode_ok (m AND 0xFFF)"
proof -
  have "(0xFFF :: int) = mask 12" by (simp add: mask_eq_exp_minus_1)
  then show ?thesis by (simp only: mode_ok_bits bit_and_iff bit_mask_iff) simp
qed

lemma mode_ok_delta: "mode_ok (chmod_delta subjects perms)"
  by (auto simp: mode_ok_bits bit_chmod_delta dest: key_pos_less)

lemma apply_symbolic_clause_mode_ok:
  "mode_ok m \<Longrightarrow> apply_symbolic_clause m clause = Inr m' \<Longrightarrow> mode_ok m'"
  using mode_ok_delta
  by (auto simp: apply_symbolic_clause_def Let_def mode_ok_bits bit_or_iff bit_and_iff
      split: if_splits list.splits)

lemma apply_clauses_mode_ok:
  "mode_ok m \<Longrightarrow> apply_clauses m clauses = Inr m' \<Longrightarrow> mode_ok m'"
  by (induction m clauses rule: apply_clauses.induct)
    (auto split: sum.splits dest: apply_symbolic_clause_mode_ok)

lemma apply_chmod_mode_ok: "apply_chmod_mode m spec = Inr m' \<Longrightarrow> mode_ok m'"
  by (auto simp: apply_chmod_mode_def Let_def mode_ok_AND_mask split: if_splits
      intro: apply_clauses_mode_ok [OF mode_ok_AND_mask])

subsection \<open>Properties\<close>

text \<open>
  Permission bounds: whatever integer a node's mode holds and whatever text the attacker
  gives to \<^verbatim>\<open>chmod\<close>, an accepted specification leaves a mode within the twelve permission
  bits, \<^verbatim>\<open>0\<close> to \<^verbatim>\<open>0o7777\<close>.
\<close>

theorem apply_chmod_mode_bounds:
  assumes "apply_chmod_mode current spec = Inr m"
  shows "0 \<le> m \<and> m \<le> 4095"
  using apply_chmod_mode_ok [OF assms] by (simp add: mode_ok_def)

lemma apply_chmod_mode_example: "apply_chmod_mode 0x1A4 '' u+xs,go-r '' = Inr 0x9C0"
  by code_simp

theorem apply_chmod_mode_bounds_witness:
  "apply_chmod_mode 0x1A4 '' u+xs,go-r '' = Inr 0x9C0 \<and> (0 :: int) \<le> 0x9C0 \<and> (0x9C0 :: int) \<le> 4095"
  using apply_chmod_mode_bounds [OF apply_chmod_mode_example] apply_chmod_mode_example by blast

text \<open>
  C37. One symbolic clause refines the set semantics of permissions: with \<^verbatim>\<open>K\<close> the pairs named
  by the clause, \<^verbatim>\<open>+\<close> adds exactly \<^verbatim>\<open>K\<close>, \<^verbatim>\<open>-\<close> removes exactly \<^verbatim>\<open>K\<close>, and
  \<^verbatim>\<open>=\<close> drops everything the clause's subjects hold and grants \<^verbatim>\<open>K\<close>; and every well-formed
  clause is accepted.
\<close>

theorem chmod_clause_refines:
  assumes "set who \<subseteq> set ''ugoa''" and "op \<in> set ''+-=''" and "set perms \<subseteq> set ''rwxst''"
  defines "S \<equiv> chmod_subjects who" and "K \<equiv> clause_keys (chmod_subjects who) perms"
  shows "\<exists>m'. apply_symbolic_clause m (who @ op # perms) = Inr m' \<and>
    granted m' =
      (if op = CHR ''+'' then granted m \<union> K
       else if op = CHR ''-'' then granted m - K
       else {k \<in> granted m. fst k \<notin> set S} \<union> K)"
proof -
  have op: "op \<notin> set ''ugoa''" using assms(2) by auto
  then have tw: "takeWhile (\<lambda>c. c \<in> set ''ugoa'') (who @ op # perms) = who"
    and dw: "dropWhile (\<lambda>c. c \<in> set ''ugoa'') (who @ op # perms) = op # perms"
    using assms(1) by (auto simp: takeWhile_append dropWhile_append)
  have pe: "\<not> list_ex (\<lambda>c. c \<notin> set ''rwxst'') perms"
    using assms(3) by (auto simp: list_ex_iff)
  have cl: "apply_symbolic_clause m (who @ op # perms) =
    (if op = CHR ''+'' then Inr (m OR chmod_delta S perms)
     else if op = CHR ''-'' then Inr (m AND NOT (chmod_delta S perms))
     else Inr ((m AND NOT (chmod_who_mask S)) OR chmod_delta S perms))"
    unfolding apply_symbolic_clause_def tw dw Let_def using assms(2) pe by (simp add: S_def)
  have gk: "granted (chmod_delta S perms) = K"
    by (simp add: S_def K_def granted_delta)
  have gm: "granted (chmod_who_mask S) = {k. fst k \<in> set S \<and> key_pos k \<noteq> None}"
    using chmod_subjects_ugo [OF assms(1)] by (simp only: S_def granted_who_mask)
  have "granted m - granted (chmod_who_mask S) = {k \<in> granted m. fst k \<notin> set S}"
    unfolding gm by (auto simp: granted_def)
  then show ?thesis
    unfolding cl by (auto simp: granted_OR granted_AND_NOT gk)
qed

theorem chmod_clause_refines_witness:
  "set ''u'' \<subseteq> set ''ugoa'' \<and> CHR ''='' \<in> set ''+-='' \<and> set ''rx'' \<subseteq> set ''rwxst'' \<and>
   (\<exists>m'. apply_symbolic_clause 0x1FF ''u=rx'' = Inr m' \<and>
     granted m' = {k \<in> granted 0x1FF. fst k \<notin> set (chmod_subjects ''u'')} \<union>
       clause_keys (chmod_subjects ''u'') ''rx'')"
  using chmod_clause_refines [of "''u''" "CHR ''=''" "''rx''" "0x1FF"] by simp

text \<open>
  Octal round trip: a mode of the permission range, printed as four octal digits, is read back
  by \<^verbatim>\<open>chmod\<close> as itself, whatever the previous mode.
\<close>

theorem chmod_octal_roundtrip:
  assumes "a < 8" and "b < 8" and "c < 8" and "d < 8"
  defines "s \<equiv> map (\<lambda>n. char_of (48 + n)) [a, b, c, d :: nat]"
  shows "apply_chmod_mode current s = Inr (int (((a * 8 + b) * 8 + c) * 8 + d))"
proof -
  have dig: "char_of (48 + n) \<in> set ''01234567'' \<and> \<not> is_space (char_of (48 + n)) \<and>
    ord (char_of (48 + n)) = 48 + int n" if "n < 8" for n :: nat
  proof -
    have "n \<in> {0, 1, 2, 3, 4, 5, 6, 7}" using that unfolding insert_iff empty_iff by arith
    then show ?thesis by (elim insertE emptyE; simp add: is_space_def ord_def char_of_def bit_0)
  qed
  have st: "strip_ws s = s"
    using dig [OF assms(1)] dig [OF assms(4)] by (intro strip_id) (simp add: s_def)
  have al: "list_all (\<lambda>c. c \<in> set ''01234567'') s"
    using dig assms(1-4) by (simp add: s_def)
  let ?v = "int (((a * 8 + b) * 8 + c) * 8 + d)"
  have v: "int_octal s = ?v"
    using dig assms(1-4) by (simp add: s_def int_octal_def)
  have "0 \<le> ?v \<and> ?v < 2 ^ 12" using assms(1-4) by simp
  then have "take_bit 12 ?v = ?v" by (simp only: take_bit_int_eq_self_iff)
  moreover have "?v AND 0xFFF = take_bit 12 ?v"
    by (simp only: take_bit_eq_mask) (simp add: mask_eq_exp_minus_1)
  ultimately have "int_octal s AND 0xFFF = ?v" by (simp only: v)
  then show ?thesis
    unfolding apply_chmod_mode_def Let_def st using al by (simp add: s_def)
qed

theorem chmod_octal_roundtrip_witness:
  "apply_chmod_mode 0 (map (\<lambda>n. char_of (48 + n)) [4, 7, 5, 5 :: nat]) = Inr 0x9ED"
  using chmod_octal_roundtrip [of 4 7 5 5 0] by simp

end
