(* ===== verification/Vfs_Node.thy ===== *)
theory Vfs_Node
  imports Vfs_Paths Vfs_Chmod
begin

text \<open>
  The node types of \<^verbatim>\<open>src/vfs.py\<close> (\<^verbatim>\<open>INode\<close>, \<^verbatim>\<open>VFSFile\<close>, \<^verbatim>\<open>VFSDirectory\<close>) and
  the tree operations the filesystem methods are made of: walking a list of names, and
  replacing the object at a location, which is what an in-place mutation of a node does to the
  tree.  The tree has no sharing (every node has one parent, \<^verbatim>\<open>clone\<close> deep-copies), so a
  mutation through a reference is an update at a path.  The \<^emph>\<open>view\<close> of a tree is the map
  from name lists to entries that the specifications speak about.
\<close>

subsection \<open>Definitions\<close>

record inode =
  ino_name :: string
  ino_mode :: int
  ino_uid :: int
  ino_gid :: int
  ino_owner :: string
  ino_group :: string
  ino_mtime :: int
  ino_char_device :: bool

text \<open>Instants are microseconds since the epoch; this is 2024-04-10 09:15 UTC.\<close>

definition DEFAULT_MTIME :: int where
  "DEFAULT_MTIME = 1712740500000000"

definition INode :: "string \<Rightarrow> int \<Rightarrow> inode" where
  "INode nm md = \<lparr>ino_name = nm, ino_mode = md, ino_uid = 0, ino_gid = 0, ino_owner = ''root'',
     ino_group = ''root'', ino_mtime = DEFAULT_MTIME, ino_char_device = False\<rparr>"

datatype vnode =
    VFSFile (node_meta: inode) (file_content: string) (file_reported_size: "int option")
      (file_dynamic: bool)
  | VFSDirectory (node_meta: inode) (dir_children: "(string \<times> vnode) list")

fun is_directory :: "vnode \<Rightarrow> bool" where
  "is_directory (VFSFile _ _ _ _) = False"
| "is_directory (VFSDirectory _ _) = True"

fun node_size :: "vnode \<Rightarrow> int" where
  "node_size (VFSFile _ c r _) =
     (case r of
        Some s \<Rightarrow> if c = [] then s else utf8_size c
      | None \<Rightarrow> utf8_size c)"
| "node_size (VFSDirectory _ _) = 4096"

fun nlink :: "vnode \<Rightarrow> nat" where
  "nlink (VFSFile _ _ _ _) = 1"
| "nlink (VFSDirectory _ ch) = 2 + length (filter (\<lambda>p. is_directory (snd p)) ch)"

fun ls_kind :: "vnode \<Rightarrow> string" where
  "ls_kind (VFSFile m _ _ _) = (if ino_char_device m then ''c'' else ''-'')"
| "ls_kind (VFSDirectory _ _) = ''d''"

text \<open>The object at a list of names below a node.\<close>

fun lookup :: "vnode \<Rightarrow> string list \<Rightarrow> vnode option" where
  "lookup n [] = Some n"
| "lookup (VFSFile _ _ _ _) (_ # _) = None"
| "lookup (VFSDirectory _ ch) (p # ps) =
     (case map_of ch p of None \<Rightarrow> None | Some c \<Rightarrow> lookup c ps)"

text \<open>Mutation of the object at a list of names.\<close>

fun update_at :: "string list \<Rightarrow> (vnode \<Rightarrow> vnode) \<Rightarrow> vnode \<Rightarrow> vnode" where
  "update_at [] f n = f n"
| "update_at (p # ps) f (VFSFile m c r d) = VFSFile m c r d"
| "update_at (p # ps) f (VFSDirectory m ch) =
     (case map_of ch p of
        None \<Rightarrow> VFSDirectory m ch
      | Some c \<Rightarrow> VFSDirectory m (AList.update p (update_at ps f c) ch))"

text \<open>\<^verbatim>\<open>directory.children[name] = x\<close> and \<^verbatim>\<open>del directory.children[name]\<close>.\<close>

fun set_child :: "string \<Rightarrow> vnode \<Rightarrow> vnode \<Rightarrow> vnode" where
  "set_child nm x (VFSDirectory m ch) = VFSDirectory m (AList.update nm x ch)"
| "set_child nm x (VFSFile m c r d) = VFSFile m c r d"

fun del_child :: "string \<Rightarrow> vnode \<Rightarrow> vnode" where
  "del_child nm (VFSDirectory m ch) = VFSDirectory m (AList.delete nm ch)"
| "del_child nm (VFSFile m c r d) = VFSFile m c r d"

text \<open>\<^verbatim>\<open>node.mtime = now\<close> and \<^verbatim>\<open>node.mode = mode\<close>.\<close>

fun map_meta :: "(inode \<Rightarrow> inode) \<Rightarrow> vnode \<Rightarrow> vnode" where
  "map_meta f (VFSFile m c r d) = VFSFile (f m) c r d"
| "map_meta f (VFSDirectory m ch) = VFSDirectory (f m) ch"

definition set_mtime :: "int \<Rightarrow> vnode \<Rightarrow> vnode" where
  "set_mtime now = map_meta (\<lambda>m. m\<lparr>ino_mtime := now\<rparr>)"

definition set_mode :: "int \<Rightarrow> vnode \<Rightarrow> vnode" where
  "set_mode md = map_meta (\<lambda>m. m\<lparr>ino_mode := md\<rparr>)"

subsection \<open>Vocabulary of the specification\<close>

datatype entry = EDir int | EFile int string bool bool

fun entry_of :: "vnode \<Rightarrow> entry" where
  "entry_of (VFSFile m c r d) = EFile (ino_mode m) c d (ino_char_device m)"
| "entry_of (VFSDirectory m ch) = EDir (ino_mode m)"

text \<open>The abstract filesystem: a map from name lists to entries.\<close>

definition view :: "vnode \<Rightarrow> string list \<Rightarrow> entry option" where
  "view n ps = map_option entry_of (lookup n ps)"

text \<open>Bytes held by the files written at run time.\<close>

fun dyn_bytes :: "vnode \<Rightarrow> int" where
  "dyn_bytes (VFSFile m c r d) = (if d then utf8_size c else 0)"
| "dyn_bytes (VFSDirectory m ch) = sum_list (map (\<lambda>p. dyn_bytes (snd p)) ch)"

text \<open>
  Well-formed trees: distinct keys, every key a proper name and the \<^verbatim>\<open>name\<close> field of its node.
\<close>

fun wf_node :: "vnode \<Rightarrow> bool" where
  "wf_node (VFSFile m c r d) = True"
| "wf_node (VFSDirectory m ch) =
     (distinct (map fst ch) \<and>
      list_all (\<lambda>p. proper (fst p) \<and> ino_name (node_meta (snd p)) = fst p \<and> wf_node (snd p)) ch)"

subsection \<open>Walking and updating\<close>

lemma is_directoryE:
  assumes "is_directory n"
  obtains m ch where "n = VFSDirectory m ch"
  using assms by (cases n) auto

lemma lookup_append: "lookup n (ps @ qs) = (case lookup n ps of None \<Rightarrow> None | Some c \<Rightarrow> lookup c qs)"
  by (induction n ps rule: lookup.induct) (auto split: option.splits)

lemma lookup_snoc:
  "lookup n (ps @ [p]) = (case lookup n ps of Some (VFSDirectory m ch) \<Rightarrow> map_of ch p | _ \<Rightarrow> None)"
  by (auto simp: lookup_append split: option.splits vnode.splits)

lemma update_at_absent: "lookup n ps = None \<Longrightarrow> update_at ps f n = n"
proof (induction n ps rule: lookup.induct)
  case (3 m ch p ps)
  show ?case
  proof (cases "map_of ch p")
    case (Some c)
    with 3 have "update_at ps f c = c" by simp
    with Some show ?thesis by (simp add: update_triv)
  qed simp
qed simp_all

lemma node_meta_map_meta [simp]: "node_meta (map_meta f n) = f (node_meta n)"
  by (cases n) auto

lemma view_Nil [simp]: "view n [] = Some (entry_of n)"
  by (simp add: view_def)

lemma view_file_Cons [simp]: "view (VFSFile m c r d) (p # ps) = None"
  by (simp add: view_def)

lemma view_dir_Cons [simp]:
  "view (VFSDirectory m ch) (p # ps) =
     (case map_of ch p of None \<Rightarrow> None | Some c \<Rightarrow> view c ps)"
  by (auto simp: view_def split: option.splits)

lemma view_append:
  "view n (ps @ qs) = (case lookup n ps of None \<Rightarrow> None | Some c \<Rightarrow> view c qs)"
  by (auto simp: view_def lookup_append split: option.splits)

lemma view_None_iff: "view n ps = None \<longleftrightarrow> lookup n ps = None"
  by (simp add: view_def)

lemma view_update_at:
  assumes "lookup n ps = Some d"
  shows "view (update_at ps f n) qs =
    (if prefix ps qs then view (f d) (drop (length ps) qs) else view n qs)"
  using assms
proof (induction n ps arbitrary: qs rule: lookup.induct)
  case (3 m ch p ps)
  then obtain c where c: "map_of ch p = Some c" and d: "lookup c ps = Some d"
    by (auto split: option.splits)
  show ?case
  proof (cases qs)
    case Nil
    then show ?thesis by (simp add: c)
  next
    case (Cons q qs')
    then show ?thesis using "3.IH" [OF c d, of qs'] by (auto simp: c)
  qed
qed simp_all

lemma view_set_child:
  "view (set_child nm x (VFSDirectory m ch)) qs =
     (case qs of [] \<Rightarrow> Some (EDir (ino_mode m))
      | q # qs' \<Rightarrow> if q = nm then view x qs' else view (VFSDirectory m ch) qs)"
  by (auto split: list.splits)

lemma view_del_child:
  "view (del_child nm (VFSDirectory m ch)) qs =
     (if \<exists>qs'. qs = nm # qs' then None else view (VFSDirectory m ch) qs)"
  by (cases qs) auto

lemma entry_of_map_meta:
  assumes "\<And>m. ino_mode (f m) = ino_mode m" and "\<And>m. ino_char_device (f m) = ino_char_device m"
  shows "view (map_meta f n) qs = view n qs"
  using assms by (cases n; cases qs) auto

lemma view_set_mtime [simp]: "view (set_mtime now n) qs = view n qs"
  unfolding set_mtime_def by (rule entry_of_map_meta) simp_all

text \<open>Replacing or adding a leaf below a directory is a point update of the view.\<close>

lemma view_set_leaf:
  assumes "lookup n ps = Some (VFSDirectory m ch)"
    and "map_of ch nm = None \<or> (\<exists>m' c' r' d'. map_of ch nm = Some (VFSFile m' c' r' d'))"
    and "\<And>q qs. view x (q # qs) = None"
  shows "view (update_at ps (set_child nm x) n) = (view n)(ps @ [nm] \<mapsto> entry_of x)"
proof
  fix qs
  show "view (update_at ps (set_child nm x) n) qs = ((view n)(ps @ [nm] \<mapsto> entry_of x)) qs"
  proof (cases "prefix ps qs")
    case True
    then obtain rs where qs: "qs = ps @ rs" by (auto simp: prefix_def)
    have "view n qs = view (VFSDirectory m ch) rs"
      using assms(1) by (simp add: qs view_append)
    then show ?thesis
      using assms(2,3) unfolding view_update_at [OF assms(1)] qs view_set_child
      by (cases rs; cases "tl rs") (auto split: option.splits)
  next
    case False
    then have "qs \<noteq> ps @ [nm]" by auto
    with False show ?thesis by (simp add: view_update_at [OF assms(1)])
  qed
qed

lemma view_del:
  assumes "lookup n ps = Some (VFSDirectory m ch)"
  shows "view (update_at ps (del_child nm) n) =
    (\<lambda>qs. if prefix (ps @ [nm]) qs then None else view n qs)"
proof
  fix qs
  show "view (update_at ps (del_child nm) n) qs =
    (if prefix (ps @ [nm]) qs then None else view n qs)"
  proof (cases "prefix ps qs")
    case True
    then obtain rs where qs: "qs = ps @ rs" by (auto simp: prefix_def)
    show ?thesis
      unfolding view_update_at [OF assms] qs view_del_child
      using assms by (cases rs) (auto simp: view_append view_def [of n ps])
  next
    case False
    then have "\<not> prefix (ps @ [nm]) qs" by (auto simp: prefix_def)
    with False show ?thesis by (simp add: view_update_at [OF assms])
  qed
qed

subsection \<open>Well-formedness and accounting\<close>

lemma wf_childD:
  assumes "wf_node (VFSDirectory m ch)" and "map_of ch p = Some c"
  shows "wf_node c" and "proper p" and "ino_name (node_meta c) = p"
  using assms map_of_SomeD [OF assms(2)] by (auto simp: list_all_iff)

lemma wf_lookup: "wf_node n \<Longrightarrow> lookup n ps = Some d \<Longrightarrow> wf_node d"
proof (induction n ps rule: lookup.induct)
  case (3 m ch p ps)
  then show ?case by (cases "map_of ch p") (auto simp del: wf_node.simps dest: wf_childD)
qed simp_all

lemma wf_set_child:
  assumes "wf_node d" and "wf_node x" and "proper nm" and "ino_name (node_meta x) = nm"
  shows "wf_node (set_child nm x d)"
proof (cases d)
  case (VFSDirectory m ch)
  have "p \<in> set (AList.update nm x ch) \<Longrightarrow> p = (nm, x) \<or> p \<in> set ch" for p
    by (induction ch) (auto split: if_splits)
  with VFSDirectory assms show ?thesis
    by (fastforce simp: list_all_iff distinct_keys_update)
qed (use assms in simp)

lemma wf_del_child: "wf_node d \<Longrightarrow> wf_node (del_child nm d)"
  by (cases d) (auto simp: list_all_iff AList.delete_eq distinct_map_filter)

lemma wf_map_meta: "wf_node n \<Longrightarrow> wf_node (map_meta f n)"
  by (cases n) auto

lemma node_meta_set_child [simp]: "node_meta (set_child nm x n) = node_meta n"
  by (cases n) auto

lemma node_meta_del_child [simp]: "node_meta (del_child nm n) = node_meta n"
  by (cases n) auto

lemma wf_update_at:
  assumes "wf_node n" and "lookup n ps = Some d"
    and "wf_node (f d)" and "ino_name (node_meta (f d)) = ino_name (node_meta d)"
  shows "wf_node (update_at ps f n) \<and>
    ino_name (node_meta (update_at ps f n)) = ino_name (node_meta n)"
  using assms
proof (induction n ps rule: lookup.induct)
  case (3 m ch p ps)
  then obtain c where c: "map_of ch p = Some c" and l: "lookup c ps = Some d"
    by (auto split: option.splits)
  note w = wf_childD [OF "3.prems"(1) c]
  have IH: "wf_node (update_at ps f c)" "ino_name (node_meta (update_at ps f c)) = p"
    using "3.IH" [OF c w(1) l "3.prems"(3,4)] w by auto
  show ?case
    using wf_set_child [OF "3.prems"(1) IH(1) w(2) IH(2)] by (simp add: c)
qed simp_all

lemma dyn_bytes_nonneg [simp]: "0 \<le> dyn_bytes n"
  by (induction n rule: dyn_bytes.induct) (auto intro!: sum_list_nonneg)

lemma dyn_bytes_map_meta [simp]: "dyn_bytes (map_meta f n) = dyn_bytes n"
  by (cases n) auto

lemma dyn_bytes_set_child:
  assumes "wf_node (VFSDirectory m ch)"
  shows "dyn_bytes (set_child nm x (VFSDirectory m ch)) = dyn_bytes (VFSDirectory m ch) -
    (case map_of ch nm of None \<Rightarrow> 0 | Some c \<Rightarrow> dyn_bytes c) + dyn_bytes x"
  using assms
  by (auto split: option.splits simp: keys_update_absent sum_list_update [where f = dyn_bytes])

lemma dyn_bytes_del_child:
  assumes "wf_node (VFSDirectory m ch)" and "map_of ch nm = Some c"
  shows "dyn_bytes (del_child nm (VFSDirectory m ch)) = dyn_bytes (VFSDirectory m ch) - dyn_bytes c"
  using assms by (simp add: sum_list_delete [where f = dyn_bytes])

lemma dyn_bytes_update_at:
  assumes "wf_node n" and "lookup n ps = Some d"
  shows "dyn_bytes (update_at ps f n) = dyn_bytes n - dyn_bytes d + dyn_bytes (f d)"
  using assms
proof (induction n ps rule: lookup.induct)
  case (3 m ch p ps)
  then obtain c where c: "map_of ch p = Some c" and l: "lookup c ps = Some d"
    by (auto split: option.splits)
  note IH = "3.IH" [OF c wf_childD(1) [OF "3.prems"(1) c] l]
  show ?case
    using dyn_bytes_set_child [OF "3.prems"(1), of p "update_at ps f c"]
    by (simp add: c IH)
qed simp_all

lemma sum_list_member_le:
  fixes f :: "'a \<Rightarrow> int"
  assumes "\<And>y. 0 \<le> f y" and "x \<in> set xs"
  shows "f x \<le> sum_list (map f xs)"
  using assms(2)
proof (induction xs)
  case (Cons y ys)
  have "0 \<le> sum_list (map f ys)" by (rule sum_list_nonneg) (auto simp: assms(1))
  with Cons assms(1) [of y] show ?case by auto
qed simp

lemma dyn_bytes_lookup_le: "lookup n ps = Some d \<Longrightarrow> dyn_bytes d \<le> dyn_bytes n"
proof (induction n ps rule: lookup.induct)
  case (3 m ch p ps)
  then obtain c where c: "map_of ch p = Some c" and l: "lookup c ps = Some d"
    by (auto split: option.splits)
  have "dyn_bytes c \<le> dyn_bytes (VFSDirectory m ch)"
    using sum_list_member_le [of "\<lambda>p. dyn_bytes (snd p)" "(p, c)" ch] map_of_SomeD [OF c] by simp
  then show ?case using "3.IH" [OF c l] by simp
qed simp_all

end
