(* ===== verification/Vfs.thy ===== *)
theory Vfs
  imports Vfs_Node
begin

text \<open>
  The class \<^verbatim>\<open>VirtualFileSystem\<close> of \<^verbatim>\<open>src/vfs.py\<close>.  The object is the record
  \<^verbatim>\<open>vfs\<close>; a method that can raise and mutate returns a pair of a result
  (\<^const>\<open>Inl\<close> the exception, \<^const>\<open>Inr\<close> the value) and the object afterwards, so that
  a mutation made before a raise would be visible.  The current time, read by the methods with
  \<^verbatim>\<open>datetime.now\<close>, is an argument.

  \<^verbatim>\<open>_release_dynamic_bytes\<close> calls itself once per directory level, so that a removal of a deep tree
  exceeds the recursion limit of the interpreter.  The frames left below the method are an argument
  of \<^verbatim>\<open>remove\<close>, and \<^verbatim>\<open>VFSRecursionError\<close> is the exception.  The field
  \<^verbatim>\<open>removal_overflowed\<close> is a history variable: it records that some removal ended this way, no
  operation reads it, and only the properties of the byte counter do.
\<close>

subsection \<open>Definitions\<close>

datatype vfs_error =
    FileNotFoundError string
  | NotADirectoryError string
  | IsADirectoryError string
  | FileExistsError string
  | VFSFileTooLargeError
  | VFSNoSpaceError
  | OSError string
  | ValueError string
  | VFSRecursionError

record vfs =
  vfs_root :: vnode
  vfs_home :: string
  dynamic_bytes_used :: int
  max_file_size_bytes :: int
  max_total_vfs_bytes :: int
  max_read_chunk_bytes :: int
  removal_overflowed :: bool

type_synonym 'a outcome = "(vfs_error + 'a) \<times> vfs"

definition DEV_NULL :: string where "DEV_NULL = ''/dev/null''"
definition DEV_ZERO :: string where "DEV_ZERO = ''/dev/zero''"
definition DEV_URANDOM :: string where "DEV_URANDOM = ''/dev/urandom''"
definition MAX_FILE_SIZE_BYTES :: int where "MAX_FILE_SIZE_BYTES = 10 * 1024 * 1024"
definition MAX_TOTAL_VFS_BYTES :: int where "MAX_TOTAL_VFS_BYTES = 50 * 1024 * 1024"
definition MAX_READ_CHUNK_BYTES :: int where "MAX_READ_CHUNK_BYTES = 1024 * 1024"
definition INFINITE_DEVICES :: "string list" where "INFINITE_DEVICES = [DEV_ZERO, DEV_URANDOM]"

definition VirtualFileSystem :: "vnode \<Rightarrow> string \<Rightarrow> vfs" where
  "VirtualFileSystem root home =
     \<lparr>vfs_root = root, vfs_home = home, dynamic_bytes_used = 0,
      max_file_size_bytes = MAX_FILE_SIZE_BYTES, max_total_vfs_bytes = MAX_TOTAL_VFS_BYTES,
      max_read_chunk_bytes = MAX_READ_CHUNK_BYTES, removal_overflowed = False\<rparr>"

text \<open>
  \<^verbatim>\<open>clone\<close>: a new object over the deep copy of the root, with the counters copied field by
  field.  A deep copy of a tree is the tree itself as a value.
\<close>

definition clone :: "vfs \<Rightarrow> vfs" where
  "clone v =
     (let cloned = VirtualFileSystem (vfs_root v) (vfs_home v);
          cloned = cloned\<lparr>dynamic_bytes_used := dynamic_bytes_used v\<rparr>;
          cloned = cloned\<lparr>max_file_size_bytes := max_file_size_bytes v\<rparr>;
          cloned = cloned\<lparr>max_total_vfs_bytes := max_total_vfs_bytes v\<rparr>;
          cloned = cloned\<lparr>max_read_chunk_bytes := max_read_chunk_bytes v\<rparr>
      in cloned\<lparr>removal_overflowed := removal_overflowed v\<rparr>)"

text \<open>The loop of \<^verbatim>\<open>resolve\<close>; \<^verbatim>\<open>seen\<close> is \<^verbatim>\<open>parts[:index]\<close>.\<close>

fun resolve_loop :: "string \<Rightarrow> string list \<Rightarrow> string list \<Rightarrow> vnode \<Rightarrow> vfs_error + vnode" where
  "resolve_loop abs_path seen [] node = Inr node"
| "resolve_loop abs_path seen (part # rest) (VFSFile _ _ _ _) =
     Inl (NotADirectoryError (''/'' @ join ''/'' seen))"
| "resolve_loop abs_path seen (part # rest) (VFSDirectory _ ch) =
     (case map_of ch part of
        None \<Rightarrow> Inl (FileNotFoundError abs_path)
      | Some child \<Rightarrow> resolve_loop abs_path (seen @ [part]) rest child)"

definition resolve :: "vfs \<Rightarrow> string \<Rightarrow> string \<Rightarrow> vfs_error + vnode" where
  "resolve v path cwd =
     (let abs_path = canonicalize path cwd (vfs_home v) in
      if abs_path = ''/'' then Inr (vfs_root v)
      else resolve_loop abs_path [] (path_parts abs_path) (vfs_root v))"

text \<open>Where in the tree the object returned by \<^verbatim>\<open>resolve\<close> sits.\<close>

definition location :: "vfs \<Rightarrow> string \<Rightarrow> string \<Rightarrow> string list" where
  "location v path cwd = names_of (canonicalize path cwd (vfs_home v))"

definition mutate :: "vfs \<Rightarrow> string list \<Rightarrow> (vnode \<Rightarrow> vnode) \<Rightarrow> vfs" where
  "mutate v ps f = v\<lparr>vfs_root := update_at ps f (vfs_root v)\<rparr>"

definition read_char_device :: "vfs \<Rightarrow> string \<Rightarrow> string" where
  "read_char_device v abs_path =
     (if abs_path = DEV_NULL then []
      else if abs_path \<notin> set INFINITE_DEVICES then []
      else
        (let size = max (max_read_chunk_bytes v) 0 in
         if size = 0 then []
         else if abs_path = DEV_ZERO then replicate (nat size) (CHR 0x00)
         else replicate (nat size) (CHR ''U'')))"

definition read_file :: "vfs \<Rightarrow> string \<Rightarrow> string \<Rightarrow> vfs_error + string" where
  "read_file v path cwd =
     (let abs_path = canonicalize path cwd (vfs_home v) in
      case resolve v path cwd of
        Inl e \<Rightarrow> Inl e
      | Inr (VFSDirectory _ _) \<Rightarrow> Inl (IsADirectoryError abs_path)
      | Inr (VFSFile m c _ _) \<Rightarrow>
          if ino_char_device m then Inr (read_char_device v abs_path) else Inr c)"

definition list_dir :: "vfs \<Rightarrow> string \<Rightarrow> string \<Rightarrow> vfs_error + string list" where
  "list_dir v path cwd =
     (case resolve v path cwd of
        Inl e \<Rightarrow> Inl e
      | Inr (VFSFile _ _ _ _) \<Rightarrow> Inl (NotADirectoryError (canonicalize path cwd (vfs_home v)))
      | Inr (VFSDirectory _ ch) \<Rightarrow> Inr (sort (map fst ch)))"

definition is_dir :: "vfs \<Rightarrow> string \<Rightarrow> string \<Rightarrow> bool" where
  "is_dir v path cwd = (case resolve v path cwd of Inl _ \<Rightarrow> False | Inr n \<Rightarrow> is_directory n)"

definition exists :: "vfs \<Rightarrow> string \<Rightarrow> string \<Rightarrow> bool" where
  "exists v path cwd = (case resolve v path cwd of Inl _ \<Rightarrow> False | Inr _ \<Rightarrow> True)"

definition get_node :: "vfs \<Rightarrow> string \<Rightarrow> string \<Rightarrow> vfs_error + vnode" where
  "get_node v path cwd = resolve v path cwd"

definition new_file :: "string \<Rightarrow> string \<Rightarrow> int \<Rightarrow> bool \<Rightarrow> vnode" where
  "new_file nm text now dyn = VFSFile ((INode nm 0x1A4)\<lparr>ino_mtime := now\<rparr>) text None dyn"

definition new_dir :: "string \<Rightarrow> int \<Rightarrow> int \<Rightarrow> vnode" where
  "new_dir nm md now = VFSDirectory ((INode nm md)\<lparr>ino_mtime := now\<rparr>) []"

definition touch :: "string \<Rightarrow> string \<Rightarrow> int \<Rightarrow> vfs \<Rightarrow> unit outcome" where
  "touch path cwd now v =
     (let abs_path = canonicalize path cwd (vfs_home v) in
      if abs_path = ''/'' then (Inr (), mutate v [] (set_mtime now))
      else
        (let parent = parent_path abs_path in
         case resolve v parent ''/'' of
           Inl e \<Rightarrow> (Inl e, v)
         | Inr (VFSFile _ _ _ _) \<Rightarrow> (Inl (NotADirectoryError parent), v)
         | Inr (VFSDirectory _ ch) \<Rightarrow>
             (let nm = rsplit_last slash abs_path; dir = location v parent ''/'' in
              case map_of ch nm of
                None \<Rightarrow> (Inr (), mutate v dir (set_child nm (new_file nm [] now False)))
              | Some existing \<Rightarrow> (Inr (), mutate v dir (set_child nm (set_mtime now existing))))))"

definition touch_file :: "string \<Rightarrow> string \<Rightarrow> int \<Rightarrow> vfs \<Rightarrow> unit outcome" where
  "touch_file path cwd now v = touch path cwd now v"

definition account_write :: "vnode option \<Rightarrow> string \<Rightarrow> vfs \<Rightarrow> unit outcome" where
  "account_write existing new_content v =
     (let new_bytes = utf8_size new_content in
      if new_bytes > max_file_size_bytes v then (Inl VFSFileTooLargeError, v)
      else
        (let old_counted =
               (case existing of
                  Some (VFSFile _ c _ dyn) \<Rightarrow> if dyn then utf8_size c else 0
                | _ \<Rightarrow> 0);
             projected = dynamic_bytes_used v - old_counted + new_bytes
         in if projected > max_total_vfs_bytes v then (Inl VFSNoSpaceError, v)
            else (Inr (), v\<lparr>dynamic_bytes_used := projected\<rparr>)))"

definition write_file :: "string \<Rightarrow> string \<Rightarrow> string \<Rightarrow> bool \<Rightarrow> int \<Rightarrow> vfs \<Rightarrow> unit outcome" where
  "write_file path text cwd append_mode now v =
     (let abs_path = canonicalize path cwd (vfs_home v) in
      if abs_path = DEV_NULL then (Inr (), v)
      else if abs_path = ''/'' then (Inl (IsADirectoryError ''/''), v)
      else
        (let parent = parent_path abs_path in
         case resolve v parent ''/'' of
           Inl e \<Rightarrow> (Inl e, v)
         | Inr (VFSFile _ _ _ _) \<Rightarrow> (Inl (NotADirectoryError parent), v)
         | Inr (VFSDirectory _ ch) \<Rightarrow>
             (let nm = rsplit_last slash abs_path; dir = location v parent ''/'' in
              case map_of ch nm of
                Some (VFSDirectory _ _) \<Rightarrow> (Inl (IsADirectoryError abs_path), v)
              | Some (VFSFile m c r dyn) \<Rightarrow>
                  if ino_char_device m then (Inr (), v)
                  else
                    (let new_content = (if append_mode then c @ text else text) in
                     case account_write (Some (VFSFile m c r dyn)) new_content v of
                       (Inl e, v') \<Rightarrow> (Inl e, v')
                     | (Inr _, v') \<Rightarrow>
                         (Inr (), mutate v' dir (set_child nm
                            (VFSFile (m\<lparr>ino_mtime := now\<rparr>) new_content None True))))
              | None \<Rightarrow>
                  (case account_write None text v of
                     (Inl e, v') \<Rightarrow> (Inl e, v')
                   | (Inr _, v') \<Rightarrow>
                       (Inr (), mutate v' dir (set_child nm (new_file nm text now True)))))))"

text \<open>
  \<^verbatim>\<open>_release_dynamic_bytes\<close> with the frames left below its call: the result says whether it
  returned, and the counter is what the files visited until then left of it.  A run-time file needs
  a frame for \<^verbatim>\<open>_utf8_size\<close>, a directory one for each child; the loop ends at the first call
  that raises.
\<close>

fun release_loop :: "(vnode \<Rightarrow> int \<Rightarrow> bool \<times> int) \<Rightarrow> vnode list \<Rightarrow> int \<Rightarrow> bool \<times> int" where
  "release_loop call [] used = (True, used)"
| "release_loop call (child # children) used =
     (case call child used of
        (False, used') \<Rightarrow> (False, used')
      | (True, used') \<Rightarrow> release_loop call children used')"

primrec release_dynamic_bytes :: "nat \<Rightarrow> vnode \<Rightarrow> int \<Rightarrow> bool \<times> int" where
  "release_dynamic_bytes 0 node used =
     (case node of
        VFSFile _ _ _ dyn \<Rightarrow> (\<not> dyn, used)
      | VFSDirectory _ ch \<Rightarrow> (ch = [], used))"
| "release_dynamic_bytes (Suc frames) node used =
     (case node of
        VFSFile _ c _ dyn \<Rightarrow>
          (True, if dyn then (let used = used - utf8_size c in if used < 0 then 0 else used) else used)
      | VFSDirectory _ ch \<Rightarrow> release_loop (release_dynamic_bytes frames) (map snd ch) used)"

text \<open>The loop of \<^verbatim>\<open>mkdir -p\<close>, in place: the node afterwards is returned on every exit.\<close>

fun mkdir_loop ::
    "string \<Rightarrow> int \<Rightarrow> int \<Rightarrow> string list \<Rightarrow> string list \<Rightarrow> vnode \<Rightarrow> vfs_error option \<times> vnode" where
  "mkdir_loop abs_path md now seen [] (VFSDirectory m ch) = (None, VFSDirectory m ch)"
| "mkdir_loop abs_path md now seen [] (VFSFile m c r d) =
     (Some (FileExistsError abs_path), VFSFile m c r d)"
| "mkdir_loop abs_path md now seen (part # rest) (VFSFile m c r d) =
     (Some (NotADirectoryError (''/'' @ join ''/'' seen)), VFSFile m c r d)"
| "mkdir_loop abs_path md now seen (part # rest) (VFSDirectory m ch) =
     (let child = (case map_of ch part of None \<Rightarrow> new_dir part md now | Some child \<Rightarrow> child);
          (err, child') = mkdir_loop abs_path md now (seen @ [part]) rest child
      in (err, VFSDirectory m (AList.update part child' ch)))"

definition mkdir :: "string \<Rightarrow> string \<Rightarrow> bool \<Rightarrow> int \<Rightarrow> int \<Rightarrow> vfs \<Rightarrow> bool outcome" where
  "mkdir path cwd parents md now v =
     (let abs_path = canonicalize path cwd (vfs_home v) in
      if abs_path = ''/'' then
        (if parents then (Inr True, v) else (Inl (FileExistsError ''/''), v))
      else if parents then
        (let (err, root') = mkdir_loop abs_path md now [] (path_parts abs_path) (vfs_root v);
             v' = v\<lparr>vfs_root := root'\<rparr>
         in case err of Some e \<Rightarrow> (Inl e, v') | None \<Rightarrow> (Inr True, v'))
      else
        (let parent = parent_path abs_path in
         case resolve v parent ''/'' of
           Inl (FileNotFoundError _) \<Rightarrow> (Inl (FileNotFoundError parent), v)
         | Inl e \<Rightarrow> (Inl e, v)
         | Inr (VFSFile _ _ _ _) \<Rightarrow> (Inl (NotADirectoryError parent), v)
         | Inr (VFSDirectory _ ch) \<Rightarrow>
             (let nm = rsplit_last slash abs_path in
              if map_of ch nm \<noteq> None then (Inl (FileExistsError abs_path), v)
              else (Inr True,
                mutate v (location v parent ''/'') (set_child nm (new_dir nm md now))))))"

text \<open>
  \<^verbatim>\<open>stack\<close> is the number of frames left below the call of \<^verbatim>\<open>_release_dynamic_bytes\<close> but one:
  that call and one below it always fit, because \<^verbatim>\<open>resolve\<close> and, inside it,
  \<^verbatim>\<open>canonicalize\<close> went as deep before.
\<close>

definition remove :: "nat \<Rightarrow> string \<Rightarrow> string \<Rightarrow> bool \<Rightarrow> bool \<Rightarrow> vfs \<Rightarrow> bool outcome" where
  "remove stack path cwd recursive force v =
     (let abs_path = canonicalize path cwd (vfs_home v) in
      if abs_path = ''/'' then (Inl (OSError ''Directory not empty''), v)
      else
        (let parent = parent_path abs_path in
         case resolve v parent ''/'' of
           Inl (FileNotFoundError p) \<Rightarrow>
             if force then (Inr True, v) else (Inl (FileNotFoundError p), v)
         | Inl e \<Rightarrow> (Inl e, v)
         | Inr (VFSFile _ _ _ _) \<Rightarrow> (Inl (NotADirectoryError parent), v)
         | Inr (VFSDirectory _ ch) \<Rightarrow>
             (let nm = rsplit_last slash abs_path in
              case map_of ch nm of
                None \<Rightarrow> if force then (Inr True, v) else (Inl (FileNotFoundError abs_path), v)
              | Some node \<Rightarrow>
                  if is_directory node \<and> \<not> recursive then (Inl (IsADirectoryError abs_path), v)
                  else
                    (case release_dynamic_bytes (Suc stack) node (dynamic_bytes_used v) of
                       (False, used) \<Rightarrow>
                         (Inl VFSRecursionError,
                          v\<lparr>dynamic_bytes_used := used, removal_overflowed := True\<rparr>)
                     | (True, used) \<Rightarrow>
                         (Inr True, mutate (v\<lparr>dynamic_bytes_used := used\<rparr>)
                            (location v parent ''/'') (del_child nm))))))"

text \<open>\<^verbatim>\<open>rmdir\<close> releases an empty directory only, for which any number of frames is enough.\<close>

definition rmdir :: "string \<Rightarrow> string \<Rightarrow> vfs \<Rightarrow> unit outcome" where
  "rmdir path cwd v =
     (let abs_path = canonicalize path cwd (vfs_home v) in
      if abs_path = ''/'' then (Inl (OSError ''Directory not empty''), v)
      else
        (let parent = parent_path abs_path in
         case resolve v parent ''/'' of
           Inl e \<Rightarrow> (Inl e, v)
         | Inr (VFSFile _ _ _ _) \<Rightarrow> (Inl (NotADirectoryError parent), v)
         | Inr (VFSDirectory _ ch) \<Rightarrow>
             (let nm = rsplit_last slash abs_path in
              case map_of ch nm of
                None \<Rightarrow> (Inl (FileNotFoundError abs_path), v)
              | Some (VFSFile _ _ _ _) \<Rightarrow> (Inl (NotADirectoryError abs_path), v)
              | Some (VFSDirectory m ch') \<Rightarrow>
                  if ch' \<noteq> [] then (Inl (OSError ''Directory not empty''), v)
                  else
                    (let used = snd (release_dynamic_bytes 0 (VFSDirectory m ch') (dynamic_bytes_used v))
                     in (Inr (), mutate (v\<lparr>dynamic_bytes_used := used\<rparr>)
                           (location v parent ''/'') (del_child nm))))))"

definition chmod :: "string \<Rightarrow> string \<Rightarrow> string \<Rightarrow> vfs \<Rightarrow> unit outcome" where
  "chmod path mode_spec cwd v =
     (case resolve v path cwd of
        Inl e \<Rightarrow> (Inl e, v)
      | Inr node \<Rightarrow>
          (case apply_chmod_mode (ino_mode (node_meta node)) mode_spec of
             Inl e \<Rightarrow> (Inl (ValueError e), v)
           | Inr md \<Rightarrow> (Inr (), mutate v (location v path cwd) (set_mode md))))"

end
