(* ===== verification/Vfs_Correct.thy ===== *)
theory Vfs_Correct
  imports Vfs
begin

text \<open>
  Correctness of the filesystem methods of \<^verbatim>\<open>Vfs\<close>: each method is described by what it
  does to the view of the tree (a refinement of a map from name lists to entries), the exceptions
  leave the object untouched, and the byte accounting is exact in every reachable state, so that
  the quotas \<^verbatim>\<open>max_file_size_bytes\<close> and \<^verbatim>\<open>max_total_vfs_bytes\<close> hold.
\<close>

subsection \<open>Resolving\<close>

lemma resolve_loop_Inr: "resolve_loop a seen ps n = Inr d \<longleftrightarrow> lookup n ps = Some d"
  by (induction a seen ps n rule: resolve_loop.induct) (auto split: option.splits)

lemma resolve_loop_Inl:
  "resolve_loop a seen ps n = Inl e \<Longrightarrow>
    lookup n ps = None \<and> (e = FileNotFoundError a \<or> (\<exists>p. e = NotADirectoryError p))"
  by (induction a seen ps n rule: resolve_loop.induct) (auto split: option.splits)

lemma resolve_Inr: "resolve v path cwd = Inr d \<longleftrightarrow> lookup (vfs_root v) (location v path cwd) = Some d"
  using canonicalize_names(2,3) [of path cwd "vfs_home v"]
  by (auto simp: resolve_def location_def Let_def resolve_loop_Inr)

lemma resolve_Inl:
  "resolve v path cwd = Inl e \<Longrightarrow>
    lookup (vfs_root v) (location v path cwd) = None \<and>
    (e = FileNotFoundError (canonicalize path cwd (vfs_home v)) \<or> (\<exists>p. e = NotADirectoryError p))"
  using canonicalize_names(2,3) [of path cwd "vfs_home v"]
  by (auto simp: resolve_def location_def Let_def dest: resolve_loop_Inl split: if_splits)

lemma location_proper: "list_all proper (location v path cwd)"
  unfolding location_def by (rule canonicalize_names)

lemma location_root: "canonicalize path cwd (vfs_home v) = ''/'' \<longleftrightarrow> location v path cwd = []"
  unfolding location_def by (rule canonicalize_names)

lemma location_parent:
  assumes "location v path cwd \<noteq> []"
  shows "location v (parent_path (canonicalize path cwd (vfs_home v))) ''/'' =
      butlast (location v path cwd)"
    and "rsplit_last slash (canonicalize path cwd (vfs_home v)) = last (location v path cwd)"
proof -
  let ?p = "canonicalize path cwd (vfs_home v)"
  have ne: "?p \<noteq> ''/''" using assms by (simp add: location_root)
  have pr: "list_all proper (butlast (names_of ?p))"
    using canonicalize_names(1) [of path cwd "vfs_home v"]
    by (auto simp: list_all_iff dest: in_set_butlastD)
  show "location v (parent_path ?p) ''/'' = butlast (location v path cwd)"
    unfolding location_def canonicalize_names(4) [OF ne] using pr by simp
  show "rsplit_last slash ?p = last (location v path cwd)"
    unfolding location_def by (rule canonicalize_names(5) [OF ne])
qed

lemma location_cases:
  obtains (root) "location v path cwd = []" "canonicalize path cwd (vfs_home v) = ''/''"
  | (below) ps nm where "location v path cwd = ps @ [nm]" "canonicalize path cwd (vfs_home v) \<noteq> ''/''"
      "location v (parent_path (canonicalize path cwd (vfs_home v))) ''/'' = ps"
      "rsplit_last slash (canonicalize path cwd (vfs_home v)) = nm" "proper nm"
proof (cases "location v path cwd" rule: rev_cases)
  case Nil
  then show ?thesis using root by (simp add: location_root)
next
  case (snoc ps nm)
  then have "proper nm" using location_proper [of v path cwd] by simp
  then show ?thesis
    using below [OF snoc] snoc location_parent [of v path cwd] by (simp add: location_root)
qed

subsection \<open>Inversion: what a successful call did\<close>

text \<open>
  The situation every mutating method ends in: the parent directory of the addressed entry.
\<close>

definition at_parent :: "vfs \<Rightarrow> string \<Rightarrow> string \<Rightarrow> string list \<Rightarrow> string \<Rightarrow> inode \<Rightarrow>
    (string \<times> vnode) list \<Rightarrow> bool" where
  "at_parent v path cwd ps nm m ch \<longleftrightarrow> location v path cwd = ps @ [nm] \<and> proper nm \<and>
     lookup (vfs_root v) ps = Some (VFSDirectory m ch)"

lemma at_parent_lookup:
  "at_parent v path cwd ps nm m ch \<Longrightarrow> lookup (vfs_root v) (location v path cwd) = map_of ch nm"
  by (simp add: at_parent_def lookup_snoc)

lemma touch_Inr:
  assumes "touch path cwd now v = (Inr u, v')"
  obtains (self) "location v path cwd = []" "v' = mutate v [] (set_mtime now)"
  | (new) ps nm m ch where "at_parent v path cwd ps nm m ch" "map_of ch nm = None"
      "v' = mutate v ps (set_child nm (new_file nm [] now False))"
  | (old) ps nm m ch x where "at_parent v path cwd ps nm m ch" "map_of ch nm = Some x"
      "v' = mutate v ps (set_child nm (set_mtime now x))"
proof (cases rule: location_cases [of v path cwd])
  case root
  with assms self show ?thesis by (simp add: touch_def)
next
  case (below ps nm)
  with assms show ?thesis
    by (auto simp: touch_def Let_def resolve_Inr at_parent_def
        split: sum.splits vnode.splits option.splits intro: new old)
qed

lemma account_write_Inr:
  assumes "account_write ex t v = (Inr u, v')"
  shows "utf8_size t \<le> max_file_size_bytes v"
    and "v' = v\<lparr>dynamic_bytes_used := dynamic_bytes_used v' \<rparr>"
    and "dynamic_bytes_used v' = dynamic_bytes_used v -
      (case ex of Some n \<Rightarrow> if is_directory n then 0 else dyn_bytes n | None \<Rightarrow> 0) + utf8_size t"
    and "dynamic_bytes_used v' \<le> max_total_vfs_bytes v"
  using assms by (auto simp: account_write_def Let_def split: if_splits option.splits vnode.splits)

lemma account_write_Inl: "account_write ex t v = (Inl e, v') \<Longrightarrow>
    v' = v \<and> (e = VFSFileTooLargeError \<or> e = VFSNoSpaceError)"
  by (auto simp: account_write_def Let_def split: if_splits)

lemma write_file_Inr:
  assumes "write_file path t cwd app now v = (Inr u, v')"
  obtains (null) "canonicalize path cwd (vfs_home v) = DEV_NULL" "v' = v"
  | (device) ps nm m ch m' c r d where "at_parent v path cwd ps nm m ch"
      "map_of ch nm = Some (VFSFile m' c r d)" "ino_char_device m'" "v' = v"
  | (new) ps nm m ch w where "at_parent v path cwd ps nm m ch" "map_of ch nm = None"
      "account_write None t v = (Inr (), w)"
      "v' = mutate w ps (set_child nm (new_file nm t now True))"
  | (old) ps nm m ch m' c r d w where "at_parent v path cwd ps nm m ch"
      "map_of ch nm = Some (VFSFile m' c r d)" "\<not> ino_char_device m'"
      "account_write (Some (VFSFile m' c r d)) (if app then c @ t else t) v = (Inr (), w)"
      "v' = mutate w ps (set_child nm
         (VFSFile (m'\<lparr>ino_mtime := now\<rparr>) (if app then c @ t else t) None True))"
proof (cases rule: location_cases [of v path cwd])
  case root
  with assms null show ?thesis by (simp add: write_file_def Let_def DEV_NULL_def)
next
  case (below ps nm)
  show ?thesis
  proof (cases "canonicalize path cwd (vfs_home v) = DEV_NULL")
    case True
    moreover from this assms have "v' = v" by (simp add: write_file_def)
    ultimately show ?thesis by (rule null)
  next
    case False
    note eq = write_file_def Let_def False below
    obtain m ch where r: "resolve v (parent_path (canonicalize path cwd (vfs_home v))) ''/'' =
        Inr (VFSDirectory m ch)"
    proof (cases "resolve v (parent_path (canonicalize path cwd (vfs_home v))) ''/''")
      case (Inr n)
      with assms that show ?thesis by (cases n) (simp_all add: eq)
    qed (use assms in \<open>simp add: eq\<close>)
    then have ap: "at_parent v path cwd ps nm m ch"
      using below by (simp add: at_parent_def resolve_Inr)
    show ?thesis
    proof (cases "map_of ch nm")
      case None
      with assms new [OF ap None] show ?thesis
        by (cases "account_write None t v"; cases "fst (account_write None t v)") (simp_all add: eq r)
    next
      case (Some x)
      with assms obtain m' c r' d where x: "x = VFSFile m' c r' d" by (cases x) (simp_all add: eq r)
      let ?a = "account_write (Some x) (if app then c @ t else t) v"
      show ?thesis
      proof (cases "ino_char_device m'")
        case True
        with assms device [OF ap Some [unfolded x] True] show ?thesis by (simp add: eq r Some x)
      next
        case dev: False
        with assms old [OF ap Some [unfolded x] dev] show ?thesis
          by (cases ?a; cases "fst ?a") (simp_all add: eq r Some x)
      qed
    qed
  qed
qed

lemma mkdir_Inr:
  assumes "mkdir path cwd parents md now v = (Inr u, v')"
  obtains (self) "location v path cwd = []" "parents" "v' = v"
  | (loop) n' where "location v path cwd \<noteq> []" "parents"
      "mkdir_loop (canonicalize path cwd (vfs_home v)) md now [] (location v path cwd) (vfs_root v)
        = (None, n')" "v' = v\<lparr>vfs_root := n'\<rparr>"
  | (new) ps nm m ch where "\<not> parents" "at_parent v path cwd ps nm m ch" "map_of ch nm = None"
      "v' = mutate v ps (set_child nm (new_dir nm md now))"
proof (cases rule: location_cases [of v path cwd])
  case root
  with assms self show ?thesis by (auto simp: mkdir_def split: if_splits)
next
  case (below ps nm)
  have pp: "path_parts (canonicalize path cwd (vfs_home v)) = location v path cwd"
    unfolding location_def by (rule canonicalize_names(3)) (use below in simp)
  show ?thesis
  proof (cases parents)
    case True
    with assms below pp show ?thesis
      by (auto simp: mkdir_def Let_def split: prod.splits option.splits intro: loop)
  next
    case False
    with assms below show ?thesis
      by (auto simp: mkdir_def Let_def resolve_Inr at_parent_def
          split: sum.splits vnode.splits vfs_error.splits if_splits intro: new)
  qed
qed

lemma remove_Inr:
  assumes "remove stack path cwd rc force v = (Inr u, v')"
  obtains (absent) "force" "lookup (vfs_root v) (location v path cwd) = None" "v' = v"
  | (del) ps nm m ch x used where "at_parent v path cwd ps nm m ch" "map_of ch nm = Some x"
      "is_directory x \<longrightarrow> rc"
      "release_dynamic_bytes (Suc stack) x (dynamic_bytes_used v) = (True, used)"
      "v' = mutate (v\<lparr>dynamic_bytes_used := used\<rparr>) ps (del_child nm)"
proof (cases rule: location_cases [of v path cwd])
  case root
  with assms show ?thesis by (simp add: remove_def)
next
  case (below ps nm)
  with assms show ?thesis
    by (auto simp: remove_def Let_def resolve_Inr at_parent_def lookup_append
        dest!: resolve_Inl
        split: sum.splits vnode.splits option.splits vfs_error.splits if_splits prod.splits bool.splits
        intro: absent del simp del: release_dynamic_bytes.simps)
qed

lemma rmdir_Inr:
  assumes "rmdir path cwd v = (Inr u, v')"
  obtains ps nm m ch m' where "at_parent v path cwd ps nm m ch"
      "map_of ch nm = Some (VFSDirectory m' [])"
      "v' = mutate v ps (del_child nm)"
proof (cases rule: location_cases [of v path cwd])
  case root
  with assms show ?thesis by (simp add: rmdir_def)
next
  case (below ps nm)
  with assms show ?thesis
    by (auto simp: rmdir_def Let_def resolve_Inr at_parent_def
        split: sum.splits vnode.splits option.splits if_splits intro: that)
qed

lemma chmod_Inr:
  assumes "chmod path spec cwd v = (Inr u, v')"
  obtains n md where "lookup (vfs_root v) (location v path cwd) = Some n"
    "apply_chmod_mode (ino_mode (node_meta n)) spec = Inr md"
    "v' = mutate v (location v path cwd) (set_mode md)"
  using assms by (auto simp: chmod_def resolve_Inr split: sum.splits)

subsection \<open>Exceptions leave the object untouched\<close>

lemma mkdir_loop_empty_dir: "fst (mkdir_loop a md now seen ps (VFSDirectory m [])) = None"
  by (induction ps arbitrary: seen m) (simp_all add: new_dir_def split_beta)

lemma mkdir_loop_Some: "mkdir_loop a md now seen ps n = (Some e, n') \<Longrightarrow> n' = n"
proof (induction a md now seen ps n arbitrary: n' rule: mkdir_loop.induct)
  case (4 a md now seen part rest m ch)
  show ?case
  proof (cases "map_of ch part")
    case None
    with "4.prems" show ?thesis
      using mkdir_loop_empty_dir [of a md now "seen @ [part]" rest]
      by (auto simp: new_dir_def split: prod.splits) (metis fst_conv option.distinct(1))
  next
    case (Some c)
    with 4 show ?thesis by (auto split: prod.splits intro: update_triv)
  qed
qed auto

lemma mkdir_loop_no_recursion: "mkdir_loop a md now seen ps n \<noteq> (Some VFSRecursionError, n')"
  by (induction a md now seen ps n arbitrary: n' rule: mkdir_loop.induct) (auto split: prod.splits)

lemma mkdir_Inl: "mkdir path cwd parents md now v = (Inl e, v') \<Longrightarrow> v' = v"
  by (auto simp: mkdir_def Let_def dest!: mkdir_loop_Some
      split: if_splits prod.splits option.splits sum.splits vnode.splits vfs_error.splits)

lemma write_file_Inl: "write_file path t cwd app now v = (Inl e, v') \<Longrightarrow> v' = v"
  by (auto simp: write_file_def Let_def dest!: account_write_Inl
      split: if_splits prod.splits option.splits sum.splits vnode.splits)

lemma touch_Inl: "touch path cwd now v = (Inl e, v') \<Longrightarrow> v' = v"
  by (auto simp: touch_def Let_def split: if_splits option.splits sum.splits vnode.splits)

text \<open>
  A removal that raises leaves the object untouched as well, unless it exceeds the recursion limit:
  then the tree is still as it was, and the counter is what the interrupted release left of it.
\<close>

lemma resolve_loop_not_recursion: "resolve_loop a seen ps n \<noteq> Inl VFSRecursionError"
  by (induction a seen ps n rule: resolve_loop.induct) (auto split: option.splits)

lemma resolve_not_recursion: "resolve v path cwd \<noteq> Inl VFSRecursionError"
  by (simp add: resolve_def Let_def resolve_loop_not_recursion)

lemma remove_Inl:
  assumes "remove stack path cwd rc force v = (Inl e, v')"
  obtains (kept) "e \<noteq> VFSRecursionError" "v' = v"
  | (overflow) n used where "e = VFSRecursionError"
      "lookup (vfs_root v) (location v path cwd) = Some n" "is_directory n \<longrightarrow> rc"
      "release_dynamic_bytes (Suc stack) n (dynamic_bytes_used v) = (False, used)"
      "v' = v\<lparr>dynamic_bytes_used := used, removal_overflowed := True\<rparr>"
proof (cases rule: location_cases [of v path cwd])
  case root
  with assms kept show ?thesis by (auto simp: remove_def)
next
  case (below ps nm)
  note nr = resolve_not_recursion [of v "parent_path (canonicalize path cwd (vfs_home v))" "''/''"]
  show ?thesis
  proof (cases "resolve v (parent_path (canonicalize path cwd (vfs_home v))) ''/''")
    case (Inl e')
    with assms below nr kept show ?thesis
      by (auto simp: remove_def Let_def split: vfs_error.splits if_splits)
  next
    case (Inr d)
    then have l: "lookup (vfs_root v) ps = Some d" using below by (simp add: resolve_Inr)
    show ?thesis
    proof (cases d)
      case (VFSFile m c r dyn)
      with assms below Inr kept show ?thesis by (auto simp: remove_def Let_def)
    next
      case (VFSDirectory m ch)
      have eq: "remove stack path cwd rc force v = (case map_of ch nm of
          None \<Rightarrow> if force then (Inr True, v)
            else (Inl (FileNotFoundError (canonicalize path cwd (vfs_home v))), v)
        | Some node \<Rightarrow>
            if is_directory node \<and> \<not> rc then (Inl (IsADirectoryError (canonicalize path cwd (vfs_home v))), v)
            else (case release_dynamic_bytes (Suc stack) node (dynamic_bytes_used v) of
                (False, used) \<Rightarrow>
                  (Inl VFSRecursionError, v\<lparr>dynamic_bytes_used := used, removal_overflowed := True\<rparr>)
              | (True, used) \<Rightarrow> (Inr True, mutate (v\<lparr>dynamic_bytes_used := used\<rparr>)
                  (location v (parent_path (canonicalize path cwd (vfs_home v))) ''/'') (del_child nm))))"
        using below(2,4) Inr VFSDirectory by (simp add: remove_def Let_def del: release_dynamic_bytes.simps)
      have n: "lookup (vfs_root v) (location v path cwd) = map_of ch nm"
        using l VFSDirectory below(1) by (simp add: lookup_snoc)
      from assms show ?thesis
        unfolding eq by (auto intro: kept overflow simp: n simp del: release_dynamic_bytes.simps
            split: option.splits if_splits prod.splits bool.splits)
    qed
  qed
qed

lemma rmdir_Inl: "rmdir path cwd v = (Inl e, v') \<Longrightarrow> v' = v"
  by (auto simp: rmdir_def Let_def split: if_splits option.splits sum.splits vnode.splits)

lemma chmod_Inl: "chmod path spec cwd v = (Inl e, v') \<Longrightarrow> v' = v"
  by (auto simp: chmod_def split: sum.splits)

lemma vfs_no_recursion:
  "touch path cwd now v = (Inl e, v') \<Longrightarrow> e \<noteq> VFSRecursionError"
  "write_file path t cwd app now v = (Inl e, v') \<Longrightarrow> e \<noteq> VFSRecursionError"
  "mkdir path cwd parents md now v = (Inl e, v') \<Longrightarrow> e \<noteq> VFSRecursionError"
  "rmdir path cwd v = (Inl e, v') \<Longrightarrow> e \<noteq> VFSRecursionError"
  "chmod path spec cwd v = (Inl e, v') \<Longrightarrow> e \<noteq> VFSRecursionError"
  using resolve_not_recursion [of v]
  by (auto simp: touch_def write_file_def account_write_def mkdir_def rmdir_def chmod_def Let_def
      mkdir_loop_no_recursion
      split: if_splits option.splits sum.splits vnode.splits prod.splits vfs_error.splits)

lemmas vfs_Inl = touch_Inl write_file_Inl mkdir_Inl rmdir_Inl chmod_Inl

subsection \<open>The invariant\<close>

definition small_files :: "int \<Rightarrow> vnode \<Rightarrow> bool" where
  "small_files k n \<longleftrightarrow>
     (\<forall>ps md c dev. view n ps = Some (EFile md c True dev) \<longrightarrow> utf8_size c \<le> k)"

text \<open>
  The counter never exceeds the bytes of the tree nor the limit; it is the number of these bytes as
  long as no removal has exceeded the recursion limit.
\<close>

definition counter_ok :: "vfs \<Rightarrow> bool" where
  "counter_ok v \<longleftrightarrow> 0 \<le> max_total_vfs_bytes v \<and> dynamic_bytes_used v \<le> max_total_vfs_bytes v \<and>
     dynamic_bytes_used v \<le> dyn_bytes (vfs_root v) \<and>
     (\<not> removal_overflowed v \<longrightarrow> dynamic_bytes_used v = dyn_bytes (vfs_root v))"

definition vfs_inv :: "vfs \<Rightarrow> bool" where
  "vfs_inv v \<longleftrightarrow> is_directory (vfs_root v) \<and> wf_node (vfs_root v) \<and>
     counter_ok v \<and> small_files (max_file_size_bytes v) (vfs_root v)"

lemma small_files_cong: "view n' = view n \<Longrightarrow> small_files k n' = small_files k n"
  by (simp add: small_files_def)

lemma small_files_upd:
  assumes "small_files k n" and "view n' = (view n)(ps \<mapsto> e)"
    and "\<And>md c dev. e = EFile md c True dev \<Longrightarrow> utf8_size c \<le> k"
  shows "small_files k n'"
  using assms by (auto simp: small_files_def)

lemma is_directory_update_at:
  "is_directory n \<Longrightarrow> (\<And>d. is_directory d \<Longrightarrow> is_directory (f d)) \<Longrightarrow> is_directory (update_at ps f n)"
  by (cases ps; cases n) (auto split: option.splits)

lemma is_directory_set_child [simp]: "is_directory (set_child nm x d) = is_directory d"
  by (cases d) auto

lemma is_directory_del_child [simp]: "is_directory (del_child nm d) = is_directory d"
  by (cases d) auto

lemma is_directory_map_meta [simp]: "is_directory (map_meta f d) = is_directory d"
  by (cases d) auto

lemma vfs_mutate_simps [simp]:
  "vfs_root (mutate v ps f) = update_at ps f (vfs_root v)"
  "vfs_home (mutate v ps f) = vfs_home v"
  "dynamic_bytes_used (mutate v ps f) = dynamic_bytes_used v"
  "max_file_size_bytes (mutate v ps f) = max_file_size_bytes v"
  "max_total_vfs_bytes (mutate v ps f) = max_total_vfs_bytes v"
  "max_read_chunk_bytes (mutate v ps f) = max_read_chunk_bytes v"
  "removal_overflowed (mutate v ps f) = removal_overflowed v"
  by (simp_all add: mutate_def)

text \<open>Setting a child below a directory of a well-formed tree.\<close>

lemma set_child_tree:
  assumes "wf_node n" and "is_directory n" and "lookup n ps = Some (VFSDirectory m ch)"
    and "proper nm" and "wf_node x" and "ino_name (node_meta x) = nm"
  shows "wf_node (update_at ps (set_child nm x) n)"
    and "is_directory (update_at ps (set_child nm x) n)"
    and "dyn_bytes (update_at ps (set_child nm x) n) = dyn_bytes n -
      (case map_of ch nm of None \<Rightarrow> 0 | Some c \<Rightarrow> dyn_bytes c) + dyn_bytes x"
proof -
  have d: "wf_node (VFSDirectory m ch)" using assms(1,3) by (rule wf_lookup)
  show "wf_node (update_at ps (set_child nm x) n)"
    using wf_update_at [OF assms(1,3)] wf_set_child [OF d assms(5,4,6)] by simp
  show "is_directory (update_at ps (set_child nm x) n)"
    using assms(2) by (rule is_directory_update_at) simp
  show "dyn_bytes (update_at ps (set_child nm x) n) = dyn_bytes n -
      (case map_of ch nm of None \<Rightarrow> 0 | Some c \<Rightarrow> dyn_bytes c) + dyn_bytes x"
    unfolding dyn_bytes_update_at [OF assms(1,3)] dyn_bytes_set_child [OF d] by simp
qed

lemma new_node_simps [simp]:
  "wf_node (new_file nm t now d)" "wf_node (new_dir nm md now)"
  "ino_name (node_meta (new_file nm t now d)) = nm" "ino_name (node_meta (new_dir nm md now)) = nm"
  "dyn_bytes (new_file nm t now d) = (if d then utf8_size t else 0)"
  "dyn_bytes (new_dir nm md now) = 0"
  "entry_of (new_file nm t now d) = EFile 0x1A4 t d False" "entry_of (new_dir nm md now) = EDir md"
  "view (new_file nm t now d) (q # qs) = None" "view (new_dir nm md now) (q # qs) = None"
  "is_directory (new_dir nm md now)" "\<not> is_directory (new_file nm t now d)"
  by (simp_all add: new_file_def new_dir_def INode_def)

subsection \<open>Releasing the bytes of a subtree\<close>

text \<open>The frames \<^verbatim>\<open>_release_dynamic_bytes\<close> needs below its call, and that it raises exactly without them.\<close>

fun frames_needed :: "vnode \<Rightarrow> nat" where
  "frames_needed (VFSFile _ _ _ dyn) = (if dyn then 1 else 0)"
| "frames_needed (VFSDirectory _ ch) = fold (\<lambda>p k. max k (Suc (frames_needed (snd p)))) ch 0"

lemma fold_max_le: "fold (\<lambda>x k. max k (f x)) xs k \<le> n \<longleftrightarrow> k \<le> n \<and> (\<forall>x\<in>set xs. f x \<le> (n :: nat))"
  by (induction xs arbitrary: k) auto

lemma frames_needed_dir:
  "frames_needed (VFSDirectory m ch) \<le> n \<longleftrightarrow> (\<forall>x\<in>set (map snd ch). Suc (frames_needed x) \<le> n)"
  by (auto simp: fold_max_le)

lemma release_loop_returns:
  "(\<And>x used. x \<in> set xs \<Longrightarrow> fst (call x used) \<longleftrightarrow> P x) \<Longrightarrow>
    fst (release_loop call xs used) \<longleftrightarrow> (\<forall>x\<in>set xs. P x)"
proof (induction xs arbitrary: used)
  case (Cons x xs)
  obtain b u where c: "call x used = (b, u)" by fastforce
  with Cons.prems [of x used] have "b \<longleftrightarrow> P x" by simp
  with Cons c show ?case by (cases b) simp_all
qed simp

lemma release_returns: "fst (release_dynamic_bytes n x used) \<longleftrightarrow> frames_needed x \<le> n"
proof (induction n arbitrary: x used)
  case 0
  show ?case
  proof (cases x)
    case (VFSDirectory m ch)
    then show ?thesis
      using frames_needed_dir [of m ch 0] by (cases ch) (auto simp del: frames_needed.simps)
  qed simp
next
  case (Suc n)
  show ?case
  proof (cases x)
    case (VFSDirectory m ch)
    then show ?thesis
      using release_loop_returns [of "map snd ch" "release_dynamic_bytes n" "\<lambda>x. frames_needed x \<le> n" used]
        Suc frames_needed_dir [of m ch "Suc n"] by (simp del: frames_needed.simps)
  qed simp
qed

text \<open>
  What the release leaves of the counter: never more than before, at least what subtracting all the
  bytes would leave, and exactly that when it returns.
\<close>

definition releases :: "(vnode \<Rightarrow> int \<Rightarrow> bool \<times> int) \<Rightarrow> vnode \<Rightarrow> bool" where
  "releases call x \<longleftrightarrow> (\<forall>used. snd (call x used) \<le> max 0 used \<and> used - dyn_bytes x \<le> snd (call x used) \<and>
     (fst (call x used) \<longrightarrow> snd (call x used) \<le> max 0 (used - dyn_bytes x) \<or> dyn_bytes x = 0 \<and> snd (call x used) = used))"

lemma release_loop_bounds:
  fixes call :: "vnode \<Rightarrow> int \<Rightarrow> bool \<times> int"
  assumes "\<And>x. x \<in> set xs \<Longrightarrow> releases call x"
  defines "tb \<equiv> sum_list (map dyn_bytes xs)"
  shows "snd (release_loop call xs used) \<le> max 0 used \<and> used - tb \<le> snd (release_loop call xs used) \<and>
    (fst (release_loop call xs used) \<longrightarrow> snd (release_loop call xs used) \<le> max 0 (used - tb) \<or>
       tb = 0 \<and> snd (release_loop call xs used) = used)"
  unfolding tb_def using assms(1)
proof (induction xs arbitrary: used)
  case (Cons x xs)
  obtain b u where c: "call x used = (b, u)" by fastforce
  have "releases call x" using Cons.prems by simp
  then have "snd (b, u) \<le> max 0 used \<and> used - dyn_bytes x \<le> snd (b, u) \<and>
      (fst (b, u) \<longrightarrow> snd (b, u) \<le> max 0 (used - dyn_bytes x) \<or> dyn_bytes x = 0 \<and> snd (b, u) = used)"
    unfolding releases_def c [symmetric] by blast
  then have x: "u \<le> max 0 used" "used - dyn_bytes x \<le> u"
    "b \<longrightarrow> u \<le> max 0 (used - dyn_bytes x) \<or> dyn_bytes x = 0 \<and> u = used"
    by simp_all
  have t: "0 \<le> sum_list (map dyn_bytes xs)" by (rule sum_list_nonneg) auto
  show ?case
  proof (cases b)
    case True
    then show ?thesis using Cons.IH [of u] Cons.prems x t dyn_bytes_nonneg [of x] c by auto
  next
    case False
    then show ?thesis using x t c by auto
  qed
qed simp

lemma releases_release: "releases (release_dynamic_bytes n) x"
proof (induction n arbitrary: x)
  case 0
  then show ?case by (cases x) (auto simp: releases_def intro!: sum_list_nonneg)
next
  case (Suc n)
  show ?case
  proof (cases x)
    case (VFSFile m c r d)
    show ?thesis unfolding releases_def
    proof
      fix used
      show "snd (release_dynamic_bytes (Suc n) x used) \<le> max 0 used \<and>
          used - dyn_bytes x \<le> snd (release_dynamic_bytes (Suc n) x used) \<and>
          (fst (release_dynamic_bytes (Suc n) x used) \<longrightarrow>
            snd (release_dynamic_bytes (Suc n) x used) \<le> max 0 (used - dyn_bytes x) \<or>
            dyn_bytes x = 0 \<and> snd (release_dynamic_bytes (Suc n) x used) = used)"
        by (cases d; cases "used < utf8_size c") (simp_all add: VFSFile le_max_iff_disj)
    qed
  next
    case (VFSDirectory m ch)
    have "sum_list (map dyn_bytes (map snd ch)) = dyn_bytes x" by (simp add: VFSDirectory comp_def)
    with release_loop_bounds [of "map snd ch" "release_dynamic_bytes n"] Suc show ?thesis
      unfolding releases_def by (simp add: VFSDirectory del: dyn_bytes.simps)
  qed
qed

lemma release_bounds:
  assumes "release_dynamic_bytes n x used = (b, used')"
  shows "0 \<le> k \<Longrightarrow> used \<le> k \<Longrightarrow> used' \<le> k" and "used - dyn_bytes x \<le> used'"
    and "b \<Longrightarrow> dyn_bytes x \<le> tb \<Longrightarrow> used \<le> tb \<Longrightarrow> used' \<le> tb - dyn_bytes x"
    and "b \<Longrightarrow> dyn_bytes x \<le> used \<Longrightarrow> used' = used - dyn_bytes x"
proof -
  have "snd (b, used') \<le> max 0 used \<and> used - dyn_bytes x \<le> snd (b, used') \<and>
      (fst (b, used') \<longrightarrow> snd (b, used') \<le> max 0 (used - dyn_bytes x) \<or> dyn_bytes x = 0 \<and> snd (b, used') = used)"
    using releases_release [of n x] unfolding releases_def assms [symmetric] by blast
  then show "0 \<le> k \<Longrightarrow> used \<le> k \<Longrightarrow> used' \<le> k" "used - dyn_bytes x \<le> used'"
    "b \<Longrightarrow> dyn_bytes x \<le> tb \<Longrightarrow> used \<le> tb \<Longrightarrow> used' \<le> tb - dyn_bytes x"
    "b \<Longrightarrow> dyn_bytes x \<le> used \<Longrightarrow> used' = used - dyn_bytes x"
    by auto
qed

subsection \<open>Effect of each method on the view\<close>

lemma view_set_same:
  assumes "lookup n ps = Some (VFSDirectory m ch)" and "map_of ch nm = Some x"
    and "\<And>qs. view x' qs = view x qs"
  shows "view (update_at ps (set_child nm x') n) = view n"
proof
  fix qs
  show "view (update_at ps (set_child nm x') n) qs = view n qs"
  proof (cases "prefix ps qs")
    case True
    then obtain rs where qs: "qs = ps @ rs" by (auto simp: prefix_def)
    show ?thesis
      unfolding view_update_at [OF assms(1)] qs view_set_child
      using assms by (cases rs) (auto simp: view_append view_def [of n ps])
  qed (simp add: view_update_at [OF assms(1)])
qed

fun entry_set_mode :: "int \<Rightarrow> entry \<Rightarrow> entry" where
  "entry_set_mode md (EDir _) = EDir md"
| "entry_set_mode md (EFile _ c d dev) = EFile md c d dev"

lemma view_set_mode_at:
  assumes "lookup n ps = Some x"
  shows "view (update_at ps (set_mode md) n) = (view n)(ps \<mapsto> entry_set_mode md (entry_of x))"
proof
  fix qs
  have x: "view (set_mode md x) rs = (if rs = [] then Some (entry_set_mode md (entry_of x)) else view x rs)"
    for rs by (cases x; cases rs) (auto simp: set_mode_def)
  show "view (update_at ps (set_mode md) n) qs =
    ((view n)(ps \<mapsto> entry_set_mode md (entry_of x))) qs"
    using assms unfolding view_update_at [OF assms] x by (auto simp: prefix_def view_append)
qed

lemma mkdir_loop_view:
  "mkdir_loop a md now seen ps n = (None, n') \<Longrightarrow>
    view n' qs = (if prefix qs ps \<and> view n qs = None then Some (EDir md) else view n qs)"
proof (induction a md now seen ps n arbitrary: n' qs rule: mkdir_loop.induct)
  case (4 a md now seen part rest m ch)
  define child where "child = (case map_of ch part of None \<Rightarrow> new_dir part md now | Some child \<Rightarrow> child)"
  obtain c' where c': "mkdir_loop a md now (seen @ [part]) rest child = (None, c')"
    and n': "n' = VFSDirectory m (AList.update part c' ch)"
    using "4.prems" by (auto simp: child_def split: prod.splits)
  show ?case
  proof (cases qs)
    case Nil
    then show ?thesis by (simp add: n')
  next
    case (Cons q qs')
    have "view c' qs' = (if prefix qs' rest \<and> view child qs' = None then Some (EDir md)
        else view child qs')"
      by (rule "4.IH" [OF child_def c'])
    then show ?thesis
      by (cases "map_of ch part"; cases qs') (auto simp: Cons n' child_def)
  qed
qed auto

lemma mkdir_loop_tree:
  assumes "mkdir_loop a md now seen ps n = (None, n')" and "list_all proper ps" and "wf_node n"
  shows "wf_node n' \<and> ino_name (node_meta n') = ino_name (node_meta n) \<and>
    is_directory n' \<and> is_directory n \<and> dyn_bytes n' = dyn_bytes n"
  using assms
proof (induction a md now seen ps n arbitrary: n' rule: mkdir_loop.induct)
  case (4 a md now seen part rest m ch)
  define child where "child = (case map_of ch part of None \<Rightarrow> new_dir part md now | Some child \<Rightarrow> child)"
  obtain c' where c': "mkdir_loop a md now (seen @ [part]) rest child = (None, c')"
    and n': "n' = set_child part c' (VFSDirectory m ch)"
    using "4.prems" by (auto simp: child_def split: prod.splits)
  have ch: "wf_node child" "ino_name (node_meta child) = part"
    "dyn_bytes child = (case map_of ch part of None \<Rightarrow> 0 | Some c \<Rightarrow> dyn_bytes c)"
    using wf_childD [OF "4.prems"(3)] by (auto simp: child_def split: option.splits)
  have IH: "wf_node c' \<and> ino_name (node_meta c') = part \<and> dyn_bytes c' = dyn_bytes child"
    using "4.IH" [OF child_def c'] "4.prems"(2) ch by simp
  show ?case
    using wf_set_child [OF "4.prems"(3)] dyn_bytes_set_child [OF "4.prems"(3), of part c'] IH ch
      "4.prems"(2) by (auto simp: n' simp del: wf_node.simps dyn_bytes.simps set_child.simps)
qed auto

subsection \<open>Preservation of the invariant\<close>

lemma inv_set_leaf:
  assumes "vfs_inv v" and "at_parent v path cwd ps nm m ch"
    and "map_of ch nm = None \<or> (\<exists>m' c' r' d'. map_of ch nm = Some (VFSFile m' c' r' d'))"
    and "\<And>q qs. view x (q # qs) = None" and "wf_node x" and "ino_name (node_meta x) = nm"
    and "\<And>md c dev. entry_of x = EFile md c True dev \<Longrightarrow> utf8_size c \<le> max_file_size_bytes v"
    and "used = dynamic_bytes_used v -
      (case map_of ch nm of None \<Rightarrow> 0 | Some c \<Rightarrow> dyn_bytes c) + dyn_bytes x"
    and "used \<le> max_total_vfs_bytes v"
  shows "vfs_inv (mutate (v\<lparr>dynamic_bytes_used := used\<rparr>) ps (set_child nm x))"
proof -
  have l: "lookup (vfs_root v) ps = Some (VFSDirectory m ch)" and nm: "proper nm"
    using assms(2) by (auto simp: at_parent_def)
  have r: "wf_node (vfs_root v)" "is_directory (vfs_root v)"
    using assms(1) by (auto simp: vfs_inv_def)
  have "small_files (max_file_size_bytes v) (update_at ps (set_child nm x) (vfs_root v))"
    using assms(1,7) view_set_leaf [OF l assms(3,4)]
    by (auto simp: vfs_inv_def intro: small_files_upd)
  then show ?thesis
    using set_child_tree [OF r l nm assms(5,6)] assms(1,8,9) by (simp add: vfs_inv_def counter_ok_def)
qed

lemma used_idem: "v\<lparr>dynamic_bytes_used := dynamic_bytes_used v\<rparr> = v"
  by simp

lemma touch_inv:
  assumes "vfs_inv v" and "touch path cwd now v = (Inr u, v')"
  shows "vfs_inv v'"
  using assms(2)
proof (cases rule: touch_Inr)
  case self
  with assms(1) show ?thesis
    by (simp add: vfs_inv_def counter_ok_def set_mtime_def wf_map_meta small_files_def
        view_set_mtime [unfolded set_mtime_def])
next
  case (new ps nm m ch)
  with inv_set_leaf [OF assms(1) new(1), of "new_file nm [] now False" "dynamic_bytes_used v"] assms(1)
  show ?thesis by (simp add: vfs_inv_def counter_ok_def)
next
  case (old ps nm m ch x)
  have l: "lookup (vfs_root v) ps = Some (VFSDirectory m ch)" and nm: "proper nm"
    using old(1) by (auto simp: at_parent_def)
  have r: "wf_node (vfs_root v)" "is_directory (vfs_root v)"
    using assms(1) by (auto simp: vfs_inv_def)
  note w = wf_childD [OF wf_lookup [OF r(1) l] old(2)]
  have x: "wf_node (set_mtime now x)" "ino_name (node_meta (set_mtime now x)) = nm"
    using w by (auto simp: set_mtime_def wf_map_meta)
  have "view (update_at ps (set_child nm (set_mtime now x)) (vfs_root v)) = view (vfs_root v)"
    by (rule view_set_same [OF l old(2)]) simp
  from small_files_cong [OF this, of "max_file_size_bytes v"]
  have "small_files (max_file_size_bytes v) (update_at ps (set_child nm (set_mtime now x)) (vfs_root v))"
    using assms(1) by (simp add: vfs_inv_def)
  moreover have "dyn_bytes (set_mtime now x) = dyn_bytes x" by (simp add: set_mtime_def)
  ultimately show ?thesis
    using assms(1) set_child_tree [OF r l nm x] by (simp add: old(2,3) vfs_inv_def counter_ok_def)
qed

lemma write_file_inv:
  assumes "vfs_inv v" and "write_file path t cwd app now v = (Inr u, v')"
  shows "vfs_inv v'"
  using assms(2)
proof (cases rule: write_file_Inr)
  case (new ps nm m ch w)
  note a = account_write_Inr [OF new(3)]
  have "vfs_inv (mutate (v\<lparr>dynamic_bytes_used := dynamic_bytes_used w\<rparr>) ps
      (set_child nm (new_file nm t now True)))"
    by (rule inv_set_leaf [OF assms(1) new(1)]) (use a new(2) in simp_all)
  then show ?thesis using a(2) new(4) by simp
next
  case (old ps nm m ch m' c r d w)
  note a = account_write_Inr [OF old(4)]
  have l: "lookup (vfs_root v) ps = Some (VFSDirectory m ch)"
    using old(1) by (simp add: at_parent_def)
  have nm: "ino_name m' = nm"
    using wf_childD(3) [OF wf_lookup [OF _ l] old(2)] assms(1) by (simp add: vfs_inv_def)
  have "vfs_inv (mutate (v\<lparr>dynamic_bytes_used := dynamic_bytes_used w\<rparr>) ps (set_child nm
      (VFSFile (m'\<lparr>ino_mtime := now\<rparr>) (if app then c @ t else t) None True)))"
    by (rule inv_set_leaf [OF assms(1) old(1)]) (use a old(2) nm in simp_all)
  then show ?thesis using a(2) old(5) by simp
qed (use assms in simp_all)

lemma mkdir_inv:
  assumes "vfs_inv v" and "mkdir path cwd parents md now v = (Inr u, v')"
  shows "vfs_inv v'"
  using assms(2)
proof (cases rule: mkdir_Inr)
  case (loop n')
  have "wf_node (vfs_root v)" using assms(1) by (simp add: vfs_inv_def)
  note t = mkdir_loop_tree [OF loop(3) location_proper this]
  have "small_files k (vfs_root v) \<Longrightarrow> small_files k n'" for k
    unfolding small_files_def using mkdir_loop_view [OF loop(3)] by auto
  with t assms(1) show ?thesis by (simp add: loop(4) vfs_inv_def counter_ok_def)
next
  case (new ps nm m ch)
  with inv_set_leaf [OF assms(1) new(2), of "new_dir nm md now" "dynamic_bytes_used v"] assms(1)
  show ?thesis by (simp add: vfs_inv_def counter_ok_def)
qed (use assms in simp_all)

lemma del_inv:
  assumes "vfs_inv v" and "at_parent v path cwd ps nm m ch" and "map_of ch nm = Some x"
    and "release_dynamic_bytes n x (dynamic_bytes_used v) = (True, used)"
  shows "vfs_inv (mutate (v\<lparr>dynamic_bytes_used := used\<rparr>) ps (del_child nm))"
proof -
  have l: "lookup (vfs_root v) ps = Some (VFSDirectory m ch)"
    using assms(2) by (simp add: at_parent_def)
  have r: "wf_node (vfs_root v)" "is_directory (vfs_root v)"
    using assms(1) by (auto simp: vfs_inv_def)
  have d: "wf_node (VFSDirectory m ch)" using r(1) l by (rule wf_lookup)
  have "lookup (vfs_root v) (ps @ [nm]) = Some x" using l assms(3) by (simp add: lookup_snoc)
  then have le: "dyn_bytes x \<le> dyn_bytes (vfs_root v)" by (rule dyn_bytes_lookup_le)
  note rel = release_bounds [OF assms(4)]
  have bytes: "dyn_bytes (update_at ps (del_child nm) (vfs_root v)) = dyn_bytes (vfs_root v) - dyn_bytes x"
    unfolding dyn_bytes_update_at [OF r(1) l] dyn_bytes_del_child [OF d assms(3)] by simp
  have "wf_node (update_at ps (del_child nm) (vfs_root v))"
    using wf_update_at [OF r(1) l] wf_del_child [OF d] by simp
  moreover have "is_directory (update_at ps (del_child nm) (vfs_root v))"
    using r(2) by (rule is_directory_update_at) simp
  moreover have "small_files k (vfs_root v) \<Longrightarrow> small_files k (update_at ps (del_child nm) (vfs_root v))" for k
    unfolding small_files_def view_del [OF l] by auto
  moreover have "counter_ok (mutate (v\<lparr>dynamic_bytes_used := used\<rparr>) ps (del_child nm))"
    using assms(1) rel(1) [of "max_total_vfs_bytes v"] rel(4) rel(3) [OF TrueI le] le bytes by (simp add: vfs_inv_def counter_ok_def)
  ultimately show ?thesis using assms(1) by (simp add: vfs_inv_def)
qed

lemma remove_inv:
  assumes "vfs_inv v" and "remove stack path cwd rc force v = (res, v')"
  shows "vfs_inv v'"
proof (cases res)
  case (Inr u)
  show ?thesis using assms(2) [unfolded Inr]
  proof (cases rule: remove_Inr)
    case (del ps nm m ch x used)
    then show ?thesis using del_inv [OF assms(1) del(1,2,4)] by simp
  qed (use assms in simp_all)
next
  case (Inl e)
  show ?thesis using assms(2) [unfolded Inl]
  proof (cases rule: remove_Inl)
    case (overflow n used)
    with release_bounds(1) [OF overflow(4), of "max_total_vfs_bytes v"]
      release_bounds(1) [OF overflow(4), of "dyn_bytes (vfs_root v)"] assms(1) show ?thesis
      by (simp add: vfs_inv_def counter_ok_def del: release_dynamic_bytes.simps)
  qed (use assms in simp_all)
qed

lemma rmdir_inv:
  assumes "vfs_inv v" and "rmdir path cwd v = (Inr u, v')"
  shows "vfs_inv v'"
  using assms(2)
proof (cases rule: rmdir_Inr)
  case (1 ps nm m ch m')
  then show ?thesis using del_inv [OF assms(1) 1(1,2), of 0 "dynamic_bytes_used v"] by simp
qed

lemma chmod_inv:
  assumes "vfs_inv v" and "chmod path spec cwd v = (Inr u, v')"
  shows "vfs_inv v'"
  using assms(2)
proof (cases rule: chmod_Inr)
  case (1 n md)
  have r: "wf_node (vfs_root v)" "is_directory (vfs_root v)"
    using assms(1) by (auto simp: vfs_inv_def)
  have "wf_node (update_at (location v path cwd) (set_mode md) (vfs_root v))"
    using wf_update_at [OF r(1) 1(1), of "set_mode md"] wf_lookup [OF r(1) 1(1)]
    by (simp add: set_mode_def wf_map_meta)
  moreover have "is_directory (update_at (location v path cwd) (set_mode md) (vfs_root v))"
    using r(2) by (rule is_directory_update_at) (simp add: set_mode_def)
  moreover have "dyn_bytes (update_at (location v path cwd) (set_mode md) (vfs_root v)) = dyn_bytes (vfs_root v)"
    unfolding dyn_bytes_update_at [OF r(1) 1(1)] by (simp add: set_mode_def)
  moreover have "small_files k (update_at (location v path cwd) (set_mode md) (vfs_root v))"
    if "small_files k (vfs_root v)" for k
    using that view_set_mode_at [OF 1(1)]
  proof (rule small_files_upd)
    fix md' c dev assume "entry_set_mode md (entry_of n) = EFile md' c True dev"
    then obtain md0 where "view (vfs_root v) (location v path cwd) = Some (EFile md0 c True dev)"
      by (cases n) (auto simp: view_def 1(1))
    with that show "utf8_size c \<le> k" by (auto simp: small_files_def)
  qed
  ultimately show ?thesis using assms(1) by (simp add: vfs_inv_def counter_ok_def 1(3))
qed

end
