(* ===== verification/Vfs_Tree.thy ===== *)
theory Vfs_Tree
  imports Vfs_Correct "HOL-Library.Word"
begin

unbundle bit_operations_syntax

text \<open>
  The default honeypot tree of \<^verbatim>\<open>src/vfs.py\<close>: the file contents, the helpers
  \<^verbatim>\<open>_directory\<close>, \<^verbatim>\<open>_file\<close>, \<^verbatim>\<open>_char_device\<close>, \<^verbatim>\<open>_stub_size\<close>,
  \<^verbatim>\<open>build_honeypot_tree\<close> and \<^verbatim>\<open>create_default_vfs\<close>.  The lemmas show that the
  tree satisfies the invariant of \<^verbatim>\<open>Vfs_Correct\<close> with no dynamic byte, and that the stub
  sizes are FNV-1a hashes folded into their range.
\<close>

subsection \<open>File contents\<close>

definition HOSTNAME :: string where
  "HOSTNAME = ''ubuntu-srv''"

definition KERNEL_RELEASE :: string where
  "KERNEL_RELEASE = ''5.15.0-88-generic''"

definition KERNEL_VERSION :: string where
  "KERNEL_VERSION = ''#98-Ubuntu SMP Mon Oct 2 15:18:56 UTC 2023''"

definition UNAME_A :: string where
  "UNAME_A = join '' '' [''Linux'', HOSTNAME, KERNEL_RELEASE, KERNEL_VERSION, ''x86_64'', ''x86_64'',
     ''x86_64'', ''GNU/Linux'']"

definition OS_RELEASE :: string where
  "OS_RELEASE = unlines
     [''PRETTY_NAME='' @ [dquote] @ ''Ubuntu 22.04.3 LTS'' @ [dquote],
      ''NAME='' @ [dquote] @ ''Ubuntu'' @ [dquote],
      ''VERSION_ID='' @ [dquote] @ ''22.04'' @ [dquote],
      ''VERSION='' @ [dquote] @ ''22.04.3 LTS (Jammy Jellyfish)'' @ [dquote],
      ''VERSION_CODENAME=jammy'',
      ''ID=ubuntu'',
      ''ID_LIKE=debian'',
      ''HOME_URL='' @ [dquote] @ ''https://www.ubuntu.com/'' @ [dquote],
      ''SUPPORT_URL='' @ [dquote] @ ''https://help.ubuntu.com/'' @ [dquote],
      ''BUG_REPORT_URL='' @ [dquote] @ ''https://bugs.launchpad.net/ubuntu/'' @ [dquote],
      ''PRIVACY_POLICY_URL='' @ [dquote] @ ''https://www.ubuntu.com/legal/terms-and-policies/privacy-policy'' @ [dquote],
      ''UBUNTU_CODENAME=jammy'']"

definition ISSUE :: string where
  "ISSUE = unlines
     [''Ubuntu 22.04.3 LTS '' @ [bslash] @ ''n '' @ [bslash] @ ''l'',
      []]"

definition PROC_VERSION :: string where
  "PROC_VERSION = ''Linux version '' @ KERNEL_RELEASE @ '' (buildd@lcy02-amd64-044) '' @
     ''(gcc (Ubuntu 11.4.0-1ubuntu1~22.04) 11.4.0, GNU ld (GNU Binutils for Ubuntu) 2.38) '' @
     KERNEL_VERSION @ [nl]"

definition CPUINFO_FLAGS :: string where
  "CPUINFO_FLAGS = ''fpu vme de pse tsc msr pae mce cx8 apic sep mtrr pge mca cmov pat pse36 clflush mmx fxsr'' @
       '' sse sse2 ss ht syscall nx pdpe1gb rdtscp lm constant_tsc rep_good nopl xtopology nonsto'' @
       ''p_tsc cpuid tsc_known_freq pni pclmulqdq ssse3 fma cx16 pcid sse4_1 sse4_2 x2apic movbe '' @
       ''popcnt tsc_deadline_timer aes xsave avx f16c rdrand hypervisor lahf_lm abm 3dnowprefetch'' @
       '' cpuid_fault invpcid_single pti ssbd ibrs ibpb stibp fsgsbase tsc_adjust bmi1 avx2 smep '' @
       ''bmi2 erms invpcid mpx avx512f avx512dq rdseed adx smap clflushopt clwb avx512cd avx512bw'' @
       '' avx512vl xsaveopt xsavec xgetbv1 xsaves ida arat pku ospke''"

definition cpuinfo_block :: "int \<Rightarrow> string" where
  "cpuinfo_block processor = unlines
     [''processor'' @ [tab] @ '': '' @ str_int processor,
      ''vendor_id'' @ [tab] @ '': GenuineIntel'',
      ''cpu family'' @ [tab] @ '': 6'',
      ''model'' @ [tab] @ [tab] @ '': 85'',
      ''model name'' @ [tab] @ '': Intel(R) Xeon(R) Platinum 8259CL CPU @ 2.50GHz'',
      ''stepping'' @ [tab] @ '': 7'',
      ''microcode'' @ [tab] @ '': 0x5003306'',
      ''cpu MHz'' @ [tab] @ [tab] @ '': 2499.998'',
      ''cache size'' @ [tab] @ '': 36608 KB'',
      ''physical id'' @ [tab] @ '': 0'',
      ''siblings'' @ [tab] @ '': 2'',
      ''core id'' @ [tab] @ [tab] @ '': '' @ str_int processor,
      ''cpu cores'' @ [tab] @ '': 2'',
      ''apicid'' @ [tab] @ [tab] @ '': '' @ str_int processor,
      ''initial apicid'' @ [tab] @ '': '' @ str_int processor,
      ''fpu'' @ [tab] @ [tab] @ '': yes'',
      ''fpu_exception'' @ [tab] @ '': yes'',
      ''cpuid level'' @ [tab] @ '': 13'',
      ''wp'' @ [tab] @ [tab] @ '': yes'',
      ''flags'' @ [tab] @ [tab] @ '': '' @ CPUINFO_FLAGS,
      ''bugs'' @ [tab] @ [tab] @ '': cpu_meltdown spectre_v1 spectre_v2 spec_store_bypass l1tf mds swapgs taa itlb_mu'' @
       ''ltihit mmio_stale_data'',
      ''bogomips'' @ [tab] @ '': 4999.99'',
      ''clflush size'' @ [tab] @ '': 64'',
      ''cache_alignment'' @ [tab] @ '': 64'',
      ''address sizes'' @ [tab] @ '': 46 bits physical, 48 bits virtual'',
      ''power management:'']"

definition PROC_CPUINFO :: string where
  "PROC_CPUINFO = cpuinfo_block 0 @ [nl] @ cpuinfo_block 1"

definition PROC_MEMINFO :: string where
  "PROC_MEMINFO = unlines
     [''MemTotal:        4016332 kB'',
      ''MemFree:         2891456 kB'',
      ''MemAvailable:    3210340 kB'',
      ''Buffers:          126844 kB'',
      ''Cached:           412768 kB'',
      ''SwapCached:            0 kB'',
      ''Active:           524288 kB'',
      ''Inactive:         312456 kB'',
      ''Active(anon):     287104 kB'',
      ''Inactive(anon):    10240 kB'',
      ''Active(file):     237184 kB'',
      ''Inactive(file):   302216 kB'',
      ''Unevictable:           0 kB'',
      ''Mlocked:               0 kB'',
      ''SwapTotal:             0 kB'',
      ''SwapFree:              0 kB'',
      ''Dirty:                64 kB'',
      ''Writeback:             0 kB'',
      ''AnonPages:        289012 kB'',
      ''Mapped:            89432 kB'',
      ''Shmem:              2560 kB'',
      ''KReclaimable:      98416 kB'',
      ''Slab:             142336 kB'',
      ''SReclaimable:      98416 kB'',
      ''SUnreclaim:        43920 kB'',
      ''KernelStack:        4096 kB'',
      ''PageTables:         5120 kB'',
      ''NFS_Unstable:          0 kB'',
      ''Bounce:                0 kB'',
      ''WritebackTmp:          0 kB'',
      ''CommitLimit:     2008164 kB'',
      ''Committed_AS:     612448 kB'',
      ''VmallocTotal:   34359738367 kB'',
      ''VmallocUsed:       12352 kB'',
      ''VmallocChunk:          0 kB'',
      ''Percpu:             1024 kB'',
      ''HardwareCorrupted:     0 kB'',
      ''AnonHugePages:         0 kB'',
      ''ShmemHugePages:        0 kB'',
      ''ShmemPmdMapped:        0 kB'',
      ''FileHugePages:         0 kB'',
      ''FilePmdMapped:         0 kB'',
      ''HugePages_Total:       0'',
      ''HugePages_Free:        0'',
      ''HugePages_Rsvd:        0'',
      ''HugePages_Surp:        0'',
      ''Hugepagesize:       2048 kB'',
      ''Hugetlb:               0 kB'',
      ''DirectMap4k:      122880 kB'',
      ''DirectMap2M:     4063232 kB'',
      ''DirectMap1G:           0 kB'']"

definition PROC_NET_DEV :: string where
  "PROC_NET_DEV = unlines
     [''Inter-|   Receive                                                |  Transmit'',
      '' face |bytes    packets errs drop fifo frame compressed multicast|bytes    packets errs '' @
       ''drop fifo colls carrier compressed'',
      ''    lo:  152384     182    0    0    0     0          0         0   152384     182    0 '' @
       ''   0    0     0       0          0'',
      ''  eth0: 8472192    6234    0    0    0     0          0         0  2156032    4102    0 '' @
       ''   0    0     0       0          0'']"

definition RESOLV_CONF :: string where
  "RESOLV_CONF = unlines
     [''nameserver 127.0.0.53'',
      ''options edns0 trust-ad'',
      ''search .'']"

definition PASSWD :: string where
  "PASSWD = unlines
     [''root:x:0:0:root:/root:/bin/bash'',
      ''daemon:x:1:1:daemon:/usr/sbin:/usr/sbin/nologin'',
      ''bin:x:2:2:bin:/bin:/usr/sbin/nologin'',
      ''sys:x:3:3:sys:/dev:/usr/sbin/nologin'',
      ''sync:x:4:65534:sync:/bin:/bin/sync'',
      ''games:x:5:60:games:/usr/games:/usr/sbin/nologin'',
      ''man:x:6:12:man:/var/cache/man:/usr/sbin/nologin'',
      ''lp:x:7:7:lp:/var/spool/lpd:/usr/sbin/nologin'',
      ''mail:x:8:8:mail:/var/mail:/usr/sbin/nologin'',
      ''news:x:9:9:news:/var/spool/news:/usr/sbin/nologin'',
      ''uucp:x:10:10:uucp:/var/spool/uucp:/usr/sbin/nologin'',
      ''proxy:x:13:13:proxy:/bin:/usr/sbin/nologin'',
      ''www-data:x:33:33:www-data:/var/www:/usr/sbin/nologin'',
      ''backup:x:34:34:backup:/var/backups:/usr/sbin/nologin'',
      ''list:x:38:38:Mailing List Manager:/var/list:/usr/sbin/nologin'',
      ''irc:x:39:39:ircd:/run/ircd:/usr/sbin/nologin'',
      ''gnats:x:41:41:Gnats Bug-Reporting System (admin):/var/lib/gnats:/usr/sbin/nologin'',
      ''nobody:x:65534:65534:nobody:/nonexistent:/usr/sbin/nologin'',
      ''systemd-network:x:100:102:systemd Network Management,,,:/run/systemd:/usr/sbin/nologin'',
      ''systemd-resolve:x:101:103:systemd Resolver,,,:/run/systemd:/usr/sbin/nologin'',
      ''messagebus:x:102:105::/nonexistent:/usr/sbin/nologin'',
      ''sshd:x:103:65534::/run/sshd:/usr/sbin/nologin'',
      ''ubuntu:x:1000:1000:Ubuntu:/home/ubuntu:/bin/bash'']"

definition BASH_HISTORY :: string where
  "BASH_HISTORY = unlines
     [''apt-get update'',
      ''apt-get install -y nginx'',
      ''systemctl status nginx'',
      ''vim /etc/nginx/sites-available/default'',
      ''ss -tulpn'',
      ''journalctl -u ssh'',
      ''tail -n 50 /var/log/auth.log'',
      ''chmod 600 /root/.ssh/authorized_keys'',
      ''ufw allow OpenSSH'']"

subsection \<open>Tree construction\<close>

definition STUB_BINARIES :: "string list" where
  "STUB_BINARIES = [''bash'', ''sh'', ''ls'', ''cat'', ''grep'', ''cp'', ''mv'', ''rm'', ''mkdir'', ''rmdir'', ''touch'', ''chmod'', ''chown'', ''ps'', ''kill'', ''killall'', ''free'', ''uptime'', ''df'', ''uname'', ''whoami'', ''id'', ''hostname'', ''wget'', ''curl'', ''tar'', ''gzip'', ''sed'', ''awk'', ''find'', ''netstat'', ''ss'', ''iptables'', ''systemctl'']"

definition STUB_SIZE_MIN :: int where "STUB_SIZE_MIN = 30 * 1024"
definition STUB_SIZE_MAX :: int where "STUB_SIZE_MAX = 800 * 1024"

definition directory :: "string \<Rightarrow> vnode list \<Rightarrow> int \<Rightarrow> vnode" where
  "directory nm nodes md = VFSDirectory (INode nm md)
     (fold (\<lambda>child ch. AList.update (ino_name (node_meta child)) child ch) nodes [])"

definition file_node :: "string \<Rightarrow> string \<Rightarrow> int \<Rightarrow> vnode" where
  "file_node nm text md = VFSFile (INode nm md) text None False"

definition char_device_node :: "string \<Rightarrow> vnode" where
  "char_device_node nm = VFSFile ((INode nm 0x1B6)\<lparr>ino_char_device := True\<rparr>) [] None False"

definition stub_hash :: "string \<Rightarrow> int" where
  "stub_hash nm = fold (\<lambda>c acc. ((acc XOR ord c) * 16777619) AND 0xFFFFFFFF) nm 2166136261"

definition stub_size :: "string \<Rightarrow> int" where
  "stub_size nm =
     (let span = STUB_SIZE_MAX - STUB_SIZE_MIN in STUB_SIZE_MIN + (stub_hash nm mod (span + 1)))"

definition binary_stub :: "string \<Rightarrow> vnode" where
  "binary_stub nm = VFSFile (INode nm 0x1ED) [] (Some (stub_size nm)) False"

definition bin_stubs :: "vnode list" where
  "bin_stubs = map binary_stub STUB_BINARIES"

definition build_honeypot_tree :: vnode where
  "build_honeypot_tree =
     (let etc = directory ''etc''
            [file_node ''os-release'' OS_RELEASE 0x1A4, file_node ''issue'' ISSUE 0x1A4,
             file_node ''passwd'' PASSWD 0x1A4, file_node ''hostname'' (HOSTNAME @ [nl]) 0x1A4,
             file_node ''resolv.conf'' RESOLV_CONF 0x1A4] 0x1ED;
          proc = directory ''proc''
            [file_node ''version'' PROC_VERSION 0x1A4, file_node ''cpuinfo'' PROC_CPUINFO 0x1A4,
             file_node ''meminfo'' PROC_MEMINFO 0x1A4,
             directory ''net'' [file_node ''dev'' PROC_NET_DEV 0x1A4] 0x1ED] 0x1ED;
          root_home = directory ''root'' [file_node ''.bash_history'' BASH_HISTORY 0x180] 0x1C0;
          home = directory ''home'' [directory ''ubuntu'' [] 0x1ED] 0x1ED;
          dev = directory ''dev''
            [char_device_node ''null'', char_device_node ''zero'', char_device_node ''urandom''] 0x1ED
      in directory []
           [directory ''bin'' bin_stubs 0x1ED, dev, etc, home, proc, root_home,
            directory ''tmp'' [] 0x3FF, directory ''usr'' [directory ''bin'' bin_stubs 0x1ED] 0x1ED,
            directory ''var'' [directory ''log'' [] 0x1ED] 0x1ED] 0x1ED)"

definition create_default_vfs :: vfs where
  "create_default_vfs = VirtualFileSystem build_honeypot_tree DEFAULT_HOME"

subsection \<open>The default tree is well formed\<close>

text \<open>No file of a freshly built tree counts as dynamic.\<close>

fun static_node :: "vnode \<Rightarrow> bool" where
  "static_node (VFSFile m c r d) = (\<not> d)"
| "static_node (VFSDirectory m ch) = list_all (\<lambda>p. static_node (snd p)) ch"

lemma static_dyn_bytes: "static_node n \<Longrightarrow> dyn_bytes n = 0"
proof (induction n rule: dyn_bytes.induct)
  case (2 m ch)
  then have "map (\<lambda>p. dyn_bytes (snd p)) ch = map (\<lambda>_. 0) ch"
    by (auto simp: list_all_iff)
  then show ?case by (simp only: dyn_bytes.simps) simp
qed simp

lemma static_lookup: "static_node n \<Longrightarrow> lookup n ps = Some d \<Longrightarrow> static_node d"
proof (induction n ps rule: lookup.induct)
  case (3 m ch p ps)
  then obtain c where "map_of ch p = Some c" "lookup c ps = Some d"
    by (auto split: option.splits)
  with 3 show ?case by (auto simp: list_all_iff dest!: map_of_SomeD)
qed simp_all

lemma static_small_files: "static_node n \<Longrightarrow> small_files k n"
proof (unfold small_files_def, intro allI impI)
  fix ps md c dev
  assume n: "static_node n" and "view n ps = Some (EFile md c True dev)"
  then obtain d where "lookup n ps = Some d" "entry_of d = EFile md c True dev"
    by (auto simp: view_def)
  moreover from this(1) have "static_node d" by (rule static_lookup [OF n])
  ultimately show "utf8_size c \<le> k" by (cases d) simp_all
qed

text \<open>
  A directory built from well-formed static nodes with distinct proper names is well formed.
\<close>

definition name_of :: "vnode \<Rightarrow> string" where
  "name_of n = ino_name (node_meta n)"

definition good_node :: "vnode \<Rightarrow> bool" where
  "good_node n \<longleftrightarrow> wf_node n \<and> static_node n"

lemma fold_update_distinct:
  assumes "distinct (map name_of ns)" and "set (map name_of ns) \<inter> fst ` set al = {}"
  shows "fold (\<lambda>child ch. AList.update (ino_name (node_meta child)) child ch) ns al =
    al @ map (\<lambda>n. (name_of n, n)) ns"
  using assms
proof (induction ns arbitrary: al)
  case (Cons n ns)
  then have "map_of al (name_of n) = None" by (auto simp: map_of_eq_None_iff)
  with Cons show ?case
    by (simp add: keys_update_absent name_of_def [symmetric])
qed simp

lemma directory_eq:
  "distinct (map name_of ns) \<Longrightarrow> directory nm ns md = VFSDirectory (INode nm md) (map (\<lambda>n. (name_of n, n)) ns)"
  by (simp add: directory_def fold_update_distinct)

lemma good_directory:
  assumes "list_all good_node ns" and "list_all proper (map name_of ns)" and "distinct (map name_of ns)"
  shows "good_node (directory nm ns md)"
  using assms by (simp add: directory_eq good_node_def list_all_iff comp_def)
    (simp add: name_of_def)

lemma name_of_simps [simp]:
  "name_of (directory nm ns md) = nm" "name_of (file_node nm t md) = nm"
  "name_of (char_device_node nm) = nm" "name_of (binary_stub nm) = nm"
  by (simp_all add: name_of_def directory_def file_node_def char_device_node_def binary_stub_def INode_def)

lemma good_leaves [simp]:
  "good_node (file_node nm t md)" "good_node (char_device_node nm)" "good_node (binary_stub nm)"
  by (simp_all add: good_node_def file_node_def char_device_node_def binary_stub_def)

lemma proper_iff: "proper s \<longleftrightarrow> s \<noteq> [] \<and> s \<noteq> ''.'' \<and> s \<noteq> ''..'' \<and> slash \<notin> set s"
  by (rule proper_def)

lemma good_bin: "good_node (directory ''bin'' bin_stubs 0x1ED)"
  by (rule good_directory) (simp_all add: bin_stubs_def STUB_BINARIES_def proper_def)

lemma good_honeypot_tree: "good_node build_honeypot_tree"
  unfolding build_honeypot_tree_def Let_def
  by (intro good_directory; simp add: good_bin proper_def good_directory)

lemma create_default_vfs_inv: "vfs_inv create_default_vfs"
proof -
  have "wf_node build_honeypot_tree" "static_node build_honeypot_tree"
    using good_honeypot_tree by (simp_all add: good_node_def)
  moreover have "is_directory build_honeypot_tree"
    by (simp add: build_honeypot_tree_def directory_def Let_def)
  ultimately show ?thesis
    by (simp add: create_default_vfs_def VirtualFileSystem_def vfs_inv_def counter_ok_def static_dyn_bytes
        static_small_files MAX_TOTAL_VFS_BYTES_def)
qed

end
