(* ===== verification/Interfaces.thy ===== *)
theory Interfaces
  imports Prelude
begin

text \<open>
  Contracts shared by the components, as locales.  \<^verbatim>\<open>invariant_steps\<close> is a machine whose
  every step keeps an invariant, \<^verbatim>\<open>invariant_relation\<close> the same for a labelled step relation;
  \<^verbatim>\<open>atomic_store\<close> is a store whose operations keep the invariant and, when they raise an
  exception that is atomic, leave the store untouched.  Each is interpreted on the definitions
  of the model in the theory of the component that provides it.
\<close>

subsection \<open>Machines with an invariant\<close>

locale invariant_steps =
  fixes inv :: "'s \<Rightarrow> bool"
    and step :: "'op \<Rightarrow> 's \<Rightarrow> 's"
  assumes step_inv: "inv s \<Longrightarrow> inv (step op s)"
begin

lemma run_inv: "inv s \<Longrightarrow> inv (fold step ops s)"
  by (induction ops arbitrary: s) (auto intro: step_inv)

end

subsection \<open>Step relations with an invariant\<close>

text \<open>The runs of a labelled step relation, with the labels of their steps.\<close>

inductive steps :: "('s \<Rightarrow> 'a \<Rightarrow> 's \<Rightarrow> bool) \<Rightarrow> 's \<Rightarrow> 'a list \<Rightarrow> 's \<Rightarrow> bool" for step where
  none: "steps step s [] s"
| snoc: "steps step s as s' \<Longrightarrow> step s' a s'' \<Longrightarrow> steps step s (as @ [a]) s''"

lemma steps_single: "step s a s' \<Longrightarrow> steps step s [a] s'"
  using snoc [OF none] by fastforce

lemma steps_append: "steps step s' bs s'' \<Longrightarrow> steps step s as s' \<Longrightarrow> steps step s (as @ bs) s''"
  by (induction rule: steps.induct) (auto intro: steps.intros simp flip: append_assoc)

text \<open>An invariant of the steps whose labels are admitted.\<close>

locale invariant_relation =
  fixes inv :: "'s \<Rightarrow> bool"
    and admitted :: "'a \<Rightarrow> bool"
    and step :: "'s \<Rightarrow> 'a \<Rightarrow> 's \<Rightarrow> bool"
  assumes step_keeps: "step s a s' \<Longrightarrow> admitted a \<Longrightarrow> inv s \<Longrightarrow> inv s'"
begin

lemma steps_keep: "steps step s as s' \<Longrightarrow> list_all admitted as \<Longrightarrow> inv s \<Longrightarrow> inv s'"
  by (induction rule: steps.induct) (auto intro: step_keeps)

end

subsection \<open>Stores whose failures are atomic\<close>

text \<open>
  The operations of a run that matter for the store: those that return normally, and those whose
  exception is one of the \<^verbatim>\<open>partial\<close> ones, raised half-way.
\<close>

fun succeeding :: "('e \<Rightarrow> bool) \<Rightarrow> ('op \<Rightarrow> 's \<Rightarrow> ('e + 'r) \<times> 's) \<Rightarrow> 'op list \<Rightarrow> 's \<Rightarrow> 'op list" where
  "succeeding partial run [] s = []"
| "succeeding partial run (op # ops) s =
     (case run op s of
        (Inl e, s') \<Rightarrow>
          if partial e then op # succeeding partial run ops s' else succeeding partial run ops s'
      | (Inr _, s') \<Rightarrow> op # succeeding partial run ops s')"

locale atomic_store =
  fixes inv :: "'s \<Rightarrow> bool"
    and partial :: "'e \<Rightarrow> bool"
    and run :: "'op \<Rightarrow> 's \<Rightarrow> ('e + 'r) \<times> 's"
  assumes op_inv: "inv s \<Longrightarrow> run op s = (r, s') \<Longrightarrow> inv s'"
    and raise_frame: "run op s = (Inl e, s') \<Longrightarrow> \<not> partial e \<Longrightarrow> s' = s"
begin

lemma after_inv: "inv s \<Longrightarrow> inv (snd (run op s))"
  by (cases "run op s") (auto dest: op_inv)

lemma erase_failures:
  "fold (\<lambda>op s. snd (run op s)) (succeeding partial run ops s) s = fold (\<lambda>op s. snd (run op s)) ops s"
proof (induction ops arbitrary: s)
  case (Cons op ops)
  then show ?case
    by (cases "run op s"; cases "fst (run op s)") (auto dest: raise_frame)
qed simp

end

sublocale atomic_store \<subseteq> invariant_steps inv "\<lambda>op s. snd (run op s)"
  by unfold_locales (rule after_inv)

end
