(* ===== verification/Vfs_Properties.thy ===== *)
theory Vfs_Properties
  imports Vfs_Tree Interfaces
begin

unbundle bit_operations_syntax

text \<open>
  The properties of the virtual filesystem as a component: the calls as a datatype, the states
  reachable from the default tree, the quota and atomicity properties through the locale
  \<^verbatim>\<open>atomic_store\<close>, and what each call does to the view of the tree.
\<close>

subsection \<open>Calls and reachable states\<close>

datatype vfs_op =
    Touch string string int
  | WriteFile string string string bool int
  | Mkdir string string bool int int
  | Remove nat string string bool bool
  | Rmdir string string
  | Chmod string string string

fun vfs_run :: "vfs_op \<Rightarrow> vfs \<Rightarrow> unit outcome" where
  "vfs_run (Touch path cwd now) v = touch path cwd now v"
| "vfs_run (WriteFile path text cwd app now) v = write_file path text cwd app now v"
| "vfs_run (Mkdir path cwd parents md now) v =
     map_prod (map_sum id (\<lambda>_. ())) id (mkdir path cwd parents md now v)"
| "vfs_run (Remove stack path cwd rc force) v =
     map_prod (map_sum id (\<lambda>_. ())) id (remove stack path cwd rc force v)"
| "vfs_run (Rmdir path cwd) v = rmdir path cwd v"
| "vfs_run (Chmod path spec cwd) v = chmod path spec cwd v"

inductive vfs_reachable :: "vfs \<Rightarrow> vfs \<Rightarrow> bool" for v0 where
  start: "vfs_reachable v0 v0"
| call: "vfs_reachable v0 v \<Longrightarrow> vfs_run op v = (res, v') \<Longrightarrow> vfs_reachable v0 v'"

lemma map_result_eq:
  "map_prod (map_sum id (\<lambda>_. ())) id p = (Inr u, v) \<longleftrightarrow> (\<exists>r. p = (Inr r, v))"
  "map_prod (map_sum id (\<lambda>_. ())) id p = (Inl e, v) \<longleftrightarrow> p = (Inl e, v)"
  by (cases p; cases "fst p"; auto)+

text \<open>The one exception that may leave a trace, and the trace it leaves.\<close>

definition overflow_error :: "vfs_error \<Rightarrow> bool" where
  "overflow_error e \<longleftrightarrow> e = VFSRecursionError"

lemma vfs_run_Inl:
  assumes "vfs_run op v = (Inl e, v')"
  obtains (kept) "\<not> overflow_error e" "v' = v"
  | (overflow) stack path cwd rc force n used where "overflow_error e" "op = Remove stack path cwd rc force"
      "lookup (vfs_root v) (location v path cwd) = Some n"
      "release_dynamic_bytes (Suc stack) n (dynamic_bytes_used v) = (False, used)"
      "v' = v\<lparr>dynamic_bytes_used := used, removal_overflowed := True\<rparr>"
proof (cases op)
  case (Remove stack path cwd rc force)
  with assms have "remove stack path cwd rc force v = (Inl e, v')" by (simp add: map_result_eq)
  then show ?thesis
    by (cases rule: remove_Inl) (use kept overflow Remove in \<open>auto simp: overflow_error_def\<close>)
qed (use assms kept in \<open>auto simp: map_result_eq overflow_error_def dest: vfs_Inl vfs_no_recursion\<close>)

lemma vfs_run_inv:
  assumes "vfs_inv v" and "vfs_run op v = (res, v')"
  shows "vfs_inv v'"
proof (cases op)
  case (Remove stack path cwd rc force)
  with assms(2) have "remove stack path cwd rc force v = (fst (remove stack path cwd rc force v), v')"
    by (cases "remove stack path cwd rc force v") simp
  with assms(1) show ?thesis by (rule remove_inv)
qed (use assms in \<open>cases res; auto simp: map_result_eq dest: vfs_Inl intro: touch_inv write_file_inv
  mkdir_inv rmdir_inv chmod_inv\<close>)+

interpretation vfs_store: atomic_store vfs_inv overflow_error vfs_run
  by unfold_locales (blast intro: vfs_run_inv, blast elim: vfs_run_Inl)

text \<open>No call changes the home directory or the limits.\<close>

definition config :: "vfs \<Rightarrow> string \<times> int \<times> int \<times> int" where
  "config v = (vfs_home v, max_file_size_bytes v, max_total_vfs_bytes v, max_read_chunk_bytes v)"

lemma config_simps [simp]:
  "config (mutate v ps f) = config v" "config (v\<lparr>dynamic_bytes_used := b\<rparr>) = config v"
  "config (v\<lparr>vfs_root := n\<rparr>) = config v" "config (v\<lparr>removal_overflowed := o'\<rparr>) = config v"
  by (simp_all add: config_def)

lemma config_account_write: "account_write ex t v = (res, v') \<Longrightarrow> config v' = config v"
  by (auto simp: account_write_def Let_def split: if_splits)

lemma config_write_file: "write_file path t cwd app now v = (Inr u, v') \<Longrightarrow> config v' = config v"
  by (erule write_file_Inr) (auto dest: config_account_write)

lemma config_touch: "touch path cwd now v = (Inr u, v') \<Longrightarrow> config v' = config v"
  by (erule touch_Inr) auto

lemma config_mkdir: "mkdir path cwd parents md now v = (Inr u, v') \<Longrightarrow> config v' = config v"
  by (erule mkdir_Inr) auto

lemma config_remove: "remove stack path cwd rc force v = (Inr u, v') \<Longrightarrow> config v' = config v"
  by (erule remove_Inr) auto

lemma config_rmdir: "rmdir path cwd v = (Inr u, v') \<Longrightarrow> config v' = config v"
  by (erule rmdir_Inr) auto

lemma config_chmod: "chmod path spec cwd v = (Inr u, v') \<Longrightarrow> config v' = config v"
  by (erule chmod_Inr) auto

lemma config_run: "vfs_run op v = (res, v') \<Longrightarrow> config v' = config v"
proof (cases res)
  case (Inl e)
  then show "vfs_run op v = (res, v') \<Longrightarrow> config v' = config v"
    by (auto elim: vfs_run_Inl)
next
  case (Inr u)
  then show "vfs_run op v = (res, v') \<Longrightarrow> config v' = config v"
    by (cases op) (auto simp: map_result_eq dest: config_touch config_write_file config_mkdir
        config_remove config_rmdir config_chmod)
qed

lemma reachable_inv: "vfs_reachable v0 v \<Longrightarrow> vfs_inv v0 \<Longrightarrow> vfs_inv v \<and> config v = config v0"
proof (induction rule: vfs_reachable.induct)
  case (call v op res v')
  have "vfs_inv v'" using vfs_store.after_inv [of v op] call by simp
  with call show ?case by (simp add: config_run)
qed simp

subsection \<open>Quotas and atomicity\<close>

text \<open>
  Quota safety: whatever sequence of filesystem calls an attacker causes on the default tree,
  no run-time file exceeds 10 MiB, and the byte counter never exceeds 50 MiB nor the bytes actually
  held by run-time files.  As long as no removal exceeded the recursion limit, the counter is the
  number of these bytes, so that they stay within 50 MiB.
\<close>

theorem vfs_quota:
  assumes "vfs_reachable create_default_vfs v"
  shows "dynamic_bytes_used v \<le> dyn_bytes (vfs_root v) \<and> dynamic_bytes_used v \<le> 50 * 1024 * 1024 \<and>
    (\<not> removal_overflowed v \<longrightarrow>
       dynamic_bytes_used v = dyn_bytes (vfs_root v) \<and> dyn_bytes (vfs_root v) \<le> 50 * 1024 * 1024) \<and>
    (\<forall>ps md c dev. view (vfs_root v) ps = Some (EFile md c True dev) \<longrightarrow>
       utf8_size c \<le> 10 * 1024 * 1024)"
proof -
  have "vfs_inv v" "config v = config create_default_vfs"
    using reachable_inv [OF assms create_default_vfs_inv] by auto
  moreover from this(2) have "max_total_vfs_bytes v = 50 * 1024 * 1024"
      "max_file_size_bytes v = 10 * 1024 * 1024"
    by (simp_all add: config_def create_default_vfs_def VirtualFileSystem_def
        MAX_TOTAL_VFS_BYTES_def MAX_FILE_SIZE_BYTES_def)
  ultimately show ?thesis unfolding vfs_inv_def counter_ok_def small_files_def by metis
qed

theorem vfs_quota_witness:
  "vfs_reachable create_default_vfs (snd (write_file ''x'' ''hi'' ''/tmp'' False 0 create_default_vfs)) \<and>
   dynamic_bytes_used (snd (write_file ''x'' ''hi'' ''/tmp'' False 0 create_default_vfs))
     \<le> 50 * 1024 * 1024"
proof -
  have "vfs_reachable create_default_vfs
      (snd (write_file ''x'' ''hi'' ''/tmp'' False 0 create_default_vfs))"
    by (rule vfs_reachable.call [OF vfs_reachable.start, where op = "WriteFile ''x'' ''hi'' ''/tmp'' False 0"
          and res = "fst (write_file ''x'' ''hi'' ''/tmp'' False 0 create_default_vfs)"]) simp
  with vfs_quota [OF this] show ?thesis by simp
qed

text \<open>
  C33. Failure atomicity: a filesystem call that raises leaves the whole object as it was, with one
  exception.  A removal raises \<^verbatim>\<open>RecursionError\<close> exactly when the addressed subtree needs more
  frames than are left; then the tree and the configuration are still as they were, and only the
  byte counter is changed, to a value between the old one and the old one less the bytes of the
  subtree.  So a session in which some calls raised ends in the same filesystem as the same session
  with those calls left out, the removals that exceeded the recursion limit apart.
\<close>

theorem vfs_failures_erasable:
  "(vfs_run op v = (Inl e, v') \<longrightarrow> e \<noteq> VFSRecursionError \<longrightarrow> v' = v) \<and>
   (vfs_run op v = (Inl VFSRecursionError, v') \<longrightarrow>
      (\<exists>stack path cwd rc force n used. op = Remove stack path cwd rc force \<and>
         lookup (vfs_root v) (location v path cwd) = Some n \<and> Suc stack < frames_needed n \<and>
         v' = v\<lparr>dynamic_bytes_used := used, removal_overflowed := True\<rparr> \<and>
         dynamic_bytes_used v - dyn_bytes n \<le> used \<and> used \<le> max 0 (dynamic_bytes_used v))) \<and>
   fold (\<lambda>op v. snd (vfs_run op v)) ops v =
     fold (\<lambda>op v. snd (vfs_run op v)) (succeeding (\<lambda>e. e = VFSRecursionError) vfs_run ops v) v"
proof (intro conjI impI)
  assume "vfs_run op v = (Inl e, v')" and "e \<noteq> VFSRecursionError"
  then show "v' = v" by (cases rule: vfs_run_Inl) (simp_all add: overflow_error_def)
next
  assume "vfs_run op v = (Inl VFSRecursionError, v')"
  then show "\<exists>stack path cwd rc force n used. op = Remove stack path cwd rc force \<and>
      lookup (vfs_root v) (location v path cwd) = Some n \<and> Suc stack < frames_needed n \<and>
      v' = v\<lparr>dynamic_bytes_used := used, removal_overflowed := True\<rparr> \<and>
      dynamic_bytes_used v - dyn_bytes n \<le> used \<and> used \<le> max 0 (dynamic_bytes_used v)"
  proof (cases rule: vfs_run_Inl)
    case (overflow stack path cwd rc force n used)
    have "Suc stack < frames_needed n"
      using release_returns [of "Suc stack" n "dynamic_bytes_used v"] overflow(4) by simp
    moreover have "used \<le> max 0 (dynamic_bytes_used v)" by (rule release_bounds(1) [OF overflow(4)]) simp_all
    ultimately show ?thesis using overflow(2,3,5) release_bounds(2) [OF overflow(4)] by blast
  qed (simp add: overflow_error_def)
qed (use vfs_store.erase_failures [unfolded overflow_error_def [abs_def]] in metis)

text \<open>A small filesystem for the concrete runs of the witnesses.\<close>

definition tiny_vfs :: vfs where
  "tiny_vfs = VirtualFileSystem (directory [] [directory ''tmp'' [file_node ''a'' ''one'' 0x1A4] 0x1FF] 0x1ED)
     DEFAULT_HOME"

theorem vfs_failures_erasable_witness:
  "vfs_run (Rmdir ''/tmp'' ''/'') tiny_vfs = (Inl (OSError ''Directory not empty''), tiny_vfs) \<and>
   fold (\<lambda>op v. snd (vfs_run op v)) [Rmdir ''/tmp'' ''/'', Touch ''b'' ''/tmp'' 7] tiny_vfs =
     fold (\<lambda>op v. snd (vfs_run op v)) [Touch ''b'' ''/tmp'' 7] tiny_vfs"
proof -
  have f: "vfs_run (Rmdir ''/tmp'' ''/'') tiny_vfs = (Inl (OSError ''Directory not empty''), tiny_vfs)"
    by code_simp
  have "succeeding (\<lambda>e. e = VFSRecursionError) vfs_run
      [Rmdir ''/tmp'' ''/'', Touch ''b'' ''/tmp'' 7] tiny_vfs = [Touch ''b'' ''/tmp'' 7]"
    by code_simp
  with f vfs_failures_erasable [of "Rmdir ''/tmp'' ''/''" tiny_vfs "OSError ''Directory not empty''"
      tiny_vfs "[Rmdir ''/tmp'' ''/'', Touch ''b'' ''/tmp'' 7]"]
  show ?thesis by simp
qed

text \<open>
  The quota is not safe from such removals: with two frames left and a total limit of four bytes,
  writing three bytes, removing the directory above in vain and writing three more succeeds, and
  the tree then holds six bytes while the counter says three.
\<close>

definition cramped_vfs :: vfs where
  "cramped_vfs = (VirtualFileSystem (directory [] [directory ''tmp'' [] 0x1FF] 0x1ED) DEFAULT_HOME)
     \<lparr>max_total_vfs_bytes := 4\<rparr>"

lemma quota_bypass:
  "let ops = [WriteFile ''a'' ''one'' ''/tmp'' False 0, Mkdir ''d/e/g'' ''/tmp'' True 0x1FF 0,
         Remove 1 ''/tmp'' ''/'' True False, WriteFile ''b'' ''two'' ''/tmp'' False 0];
       v = fold (\<lambda>op v. snd (vfs_run op v)) ops cramped_vfs
   in max_total_vfs_bytes v = 4 \<and> dyn_bytes (vfs_root v) = 6 \<and> dynamic_bytes_used v = 3"
  by code_simp

subsection \<open>What the calls do\<close>

text \<open>What reading an entry of the view yields.\<close>

definition reads :: "vfs \<Rightarrow> string \<Rightarrow> entry option \<Rightarrow> string option" where
  "reads v abs_path e =
     (case e of
        Some (EFile _ c _ dev) \<Rightarrow> Some (if dev then read_char_device v abs_path else c)
      | _ \<Rightarrow> None)"

lemma read_file_view:
  "read_file v path cwd = Inr s \<longleftrightarrow>
    reads v (canonicalize path cwd (vfs_home v)) (view (vfs_root v) (location v path cwd)) = Some s"
proof (cases "resolve v path cwd")
  case (Inl e)
  then show ?thesis using resolve_Inl [OF Inl] by (auto simp: read_file_def view_def reads_def)
next
  case (Inr n)
  then have "lookup (vfs_root v) (location v path cwd) = Some n" by (simp add: resolve_Inr)
  with Inr show ?thesis by (cases n) (auto simp: read_file_def view_def reads_def Let_def)
qed

definition old_content :: "vfs \<Rightarrow> string list \<Rightarrow> string" where
  "old_content v ps = (case view (vfs_root v) ps of Some (EFile _ c _ _) \<Rightarrow> c | _ \<Rightarrow> [])"

text \<open>The path addresses neither \<^verbatim>\<open>/dev/null\<close> nor a character device.\<close>

definition plain_target :: "vfs \<Rightarrow> string \<Rightarrow> string \<Rightarrow> bool" where
  "plain_target v path cwd \<longleftrightarrow> canonicalize path cwd (vfs_home v) \<noteq> DEV_NULL \<and>
     (case view (vfs_root v) (location v path cwd) of Some (EFile _ _ _ dev) \<Rightarrow> \<not> dev | _ \<Rightarrow> True)"

lemma view_at_parent:
  "at_parent v path cwd ps nm m ch \<Longrightarrow> view (vfs_root v) (location v path cwd) = map_option entry_of (map_of ch nm)"
  by (simp add: view_def at_parent_lookup)

lemma vfs_root_used_eq: "w = v\<lparr>dynamic_bytes_used := b\<rparr> \<Longrightarrow> vfs_root w = vfs_root v"
  by simp

lemma write_file_view:
  assumes "write_file path t cwd app now v = (Inr u, v')" and "plain_target v path cwd"
  shows "\<exists>md. view (vfs_root v') = (view (vfs_root v))(location v path cwd \<mapsto>
    EFile md (if app then old_content v (location v path cwd) @ t else t) True False)"
  using assms(1)
proof (cases rule: write_file_Inr)
  case null
  with assms(2) show ?thesis by (simp add: plain_target_def)
next
  case (device ps nm m ch m' c r d)
  with assms(2) show ?thesis by (simp add: plain_target_def view_at_parent)
next
  case (new ps nm m ch w)
  have l: "lookup (vfs_root v) ps = Some (VFSDirectory m ch)" "location v path cwd = ps @ [nm]"
    using new(1) by (auto simp: at_parent_def)
  have w: "vfs_root w = vfs_root v" using account_write_Inr(2) [OF new(3)] by (rule vfs_root_used_eq)
  have o: "old_content v (ps @ [nm]) = []"
    using view_at_parent [OF new(1)] new(2) by (simp add: old_content_def l)
  show ?thesis
    using view_set_leaf [OF l(1), of nm "new_file nm t now True"] new(2)
    by (intro exI [of _ "0x1A4"]) (simp add: new(4) w l(2) o)
next
  case (old ps nm m ch m' c r d w)
  have l: "lookup (vfs_root v) ps = Some (VFSDirectory m ch)" "location v path cwd = ps @ [nm]"
    using old(1) by (auto simp: at_parent_def)
  have w: "vfs_root w = vfs_root v" using account_write_Inr(2) [OF old(4)] by (rule vfs_root_used_eq)
  have o: "old_content v (ps @ [nm]) = c"
    using view_at_parent [OF old(1)] old(2) by (simp add: old_content_def l)
  show ?thesis
    using view_set_leaf [OF l(1), of nm "VFSFile (m'\<lparr>ino_mtime := now\<rparr>) (if app then c @ t else t) None True"]
      old(2,3) by (auto simp: old(5) w l(2) o)
qed

text \<open>What a successful write does to the readings.\<close>

lemma write_file_reads:
  assumes "write_file path t cwd app now v = (Inr u, v')" and "plain_target v path cwd"
  shows "\<exists>md. (\<forall>p c s. read_file v' p c = Inr s \<longleftrightarrow>
    reads v (canonicalize p c (vfs_home v)) (((view (vfs_root v))(location v path cwd \<mapsto>
      EFile md (if app then old_content v (location v path cwd) @ t else t) True False))
        (location v p c)) = Some s)"
proof -
  have "config v' = config v" using assms(1) by (rule config_write_file)
  then have h: "vfs_home v' = vfs_home v" and r: "max_read_chunk_bytes v' = max_read_chunk_bytes v"
    by (simp_all add: config_def)
  then have loc: "location v' p c = location v p c" for p c by (simp add: location_def)
  have "reads v' = reads v"
    by (simp add: reads_def read_char_device_def r fun_eq_iff split: option.split entry.split)
  note dev = this
  from write_file_view [OF assms] show ?thesis
    by (elim exE) (intro exI allI, simp add: read_file_view loc h dev)
qed

text \<open>
  C16. Read after write: after a successful write to a path that is not a device, reading that
  path from any working directory that addresses the same entry returns the written text (after
  the previous content when appending), and every other file that could be read before still
  reads the same.
\<close>

theorem write_read_roundtrip:
  assumes "write_file path t cwd app now v = (Inr (), v')" and "plain_target v path cwd"
  shows "read_file v' path cwd =
      Inr (if app then old_content v (location v path cwd) @ t else t) \<and>
    (\<forall>path' cwd' s. location v path' cwd' \<noteq> location v path cwd \<longrightarrow>
       read_file v path' cwd' = Inr s \<longrightarrow> read_file v' path' cwd' = Inr s)"
  using write_file_reads [OF assms] by (auto simp: read_file_view) (simp_all add: reads_def)

theorem write_read_roundtrip_witness:
  "write_file ''a'' ''two'' ''/tmp'' True 5 tiny_vfs = (Inr (), snd (write_file ''a'' ''two'' ''/tmp'' True 5 tiny_vfs)) \<and>
   plain_target tiny_vfs ''a'' ''/tmp'' \<and>
   read_file (snd (write_file ''a'' ''two'' ''/tmp'' True 5 tiny_vfs)) ''a'' ''/tmp'' = Inr ''onetwo''"
proof -
  have w: "write_file ''a'' ''two'' ''/tmp'' True 5 tiny_vfs =
      (Inr (), snd (write_file ''a'' ''two'' ''/tmp'' True 5 tiny_vfs))"
    by code_simp
  have p: "plain_target tiny_vfs ''a'' ''/tmp''" by code_simp
  have "old_content tiny_vfs (location tiny_vfs ''a'' ''/tmp'') = ''one''" by code_simp
  with write_read_roundtrip [OF w p] w p show ?thesis by simp
qed

text \<open>
  C34. When a write is refused: for a path whose parent is a directory and which addresses no
  device and no directory, the write fails with \<^verbatim>\<open>File too large\<close> exactly if the new content
  exceeds the per-file limit, with \<^verbatim>\<open>No space left\<close> exactly if the counter of run-time bytes
  would exceed the total limit, and succeeds otherwise; the counter is the number of run-time bytes
  of the tree, unless a removal has exceeded the recursion limit, when it may only be too low.
\<close>

theorem write_file_decision:
  fixes t :: string and app :: bool
  assumes "vfs_inv v" and "at_parent v path cwd ps nm m ch" and "plain_target v path cwd"
    and "\<forall>md. view (vfs_root v) (location v path cwd) \<noteq> Some (EDir md)"
  defines "new \<equiv> (if app then old_content v (location v path cwd) @ t else t)"
    and "old \<equiv> (case lookup (vfs_root v) (location v path cwd) of Some n \<Rightarrow> dyn_bytes n | None \<Rightarrow> 0)"
  shows "fst (write_file path t cwd app now v) =
    (if utf8_size new > max_file_size_bytes v then Inl VFSFileTooLargeError
     else if dynamic_bytes_used v - old + utf8_size new > max_total_vfs_bytes v
       then Inl VFSNoSpaceError
     else Inr ()) \<and>
    dynamic_bytes_used v \<le> dyn_bytes (vfs_root v) \<and>
    (\<not> removal_overflowed v \<longrightarrow> dynamic_bytes_used v = dyn_bytes (vfs_root v))"
proof -
  have l: "lookup (vfs_root v) ps = Some (VFSDirectory m ch)" "location v path cwd = ps @ [nm]"
    using assms(2) by (auto simp: at_parent_def)
  have lk: "lookup (vfs_root v) (location v path cwd) = map_of ch nm"
    using at_parent_lookup [OF assms(2)] .
  have ne: "location v path cwd \<noteq> []" by (simp add: l)
  have res: "resolve v (parent_path (canonicalize path cwd (vfs_home v))) ''/'' = Inr (VFSDirectory m ch)"
    using location_parent(1) [OF ne] l by (simp add: resolve_Inr)
  have rt: "canonicalize path cwd (vfs_home v) \<noteq> ''/''" using ne by (simp add: location_root)
  have nm: "rsplit_last slash (canonicalize path cwd (vfs_home v)) = nm"
    using location_parent(2) [OF ne] l by simp
  have nn: "canonicalize path cwd (vfs_home v) \<noteq> DEV_NULL" using assms(3) by (simp add: plain_target_def)
  have used: "dynamic_bytes_used v \<le> dyn_bytes (vfs_root v)"
    "\<not> removal_overflowed v \<longrightarrow> dynamic_bytes_used v = dyn_bytes (vfs_root v)"
    using assms(1) by (simp_all add: vfs_inv_def counter_ok_def)
  note eq = write_file_def Let_def res rt nm nn account_write_def
  note va = view_at_parent [OF assms(2)]
  show ?thesis
  proof (cases "map_of ch nm")
    case None
    with va have "new = t" "old = 0" by (simp_all add: new_def old_def old_content_def lk)
    with None used show ?thesis by (simp add: eq)
  next
    case (Some x)
    with assms(4) va obtain m' c r d where x: "x = VFSFile m' c r d" by (cases x) auto
    have "\<not> ino_char_device m'" using assms(3) va Some x by (simp add: plain_target_def)
    moreover have "new = (if app then c @ t else t)" "old = (if d then utf8_size c else 0)"
      using va Some x by (simp_all add: new_def old_def old_content_def lk)
    ultimately show ?thesis using Some x used by (simp add: eq)
  qed
qed

lemma tiny_inv: "vfs_inv tiny_vfs"
proof -
  have "good_node (directory [] [directory ''tmp'' [file_node ''a'' ''one'' 0x1A4] 0x1FF] 0x1ED)"
    by (intro good_directory) (simp_all add: proper_def good_directory)
  then show ?thesis
    by (simp add: tiny_vfs_def VirtualFileSystem_def vfs_inv_def counter_ok_def good_node_def static_dyn_bytes
        static_small_files MAX_TOTAL_VFS_BYTES_def) (simp add: directory_def)
qed

theorem write_file_decision_witness:
  "vfs_inv tiny_vfs \<and> fst (write_file ''b'' ''two'' ''/tmp'' False 5 tiny_vfs) = Inr ()"
proof -
  let ?d = "lookup (vfs_root tiny_vfs) [''tmp'']"
  have loc: "location tiny_vfs ''b'' ''/tmp'' = [''tmp''] @ [''b'']" by code_simp
  obtain m ch where d: "?d = Some (VFSDirectory m ch)"
    by (cases ?d; cases "the ?d") (auto simp: tiny_vfs_def VirtualFileSystem_def directory_def
        file_node_def INode_def)
  have ap: "at_parent tiny_vfs ''b'' ''/tmp'' [''tmp''] ''b'' m ch"
    by (simp add: at_parent_def loc d proper_def)
  have pl: "plain_target tiny_vfs ''b'' ''/tmp''" by code_simp
  have vw: "view (vfs_root tiny_vfs) (location tiny_vfs ''b'' ''/tmp'') = None" by code_simp
  have lk: "lookup (vfs_root tiny_vfs) (location tiny_vfs ''b'' ''/tmp'') = None"
    using vw by (simp add: view_None_iff)
  have sz: "dynamic_bytes_used tiny_vfs = 0" "max_file_size_bytes tiny_vfs = 10485760"
    "max_total_vfs_bytes tiny_vfs = 52428800" "utf8_size ''two'' = 3"
    by code_simp+
  show ?thesis
    using tiny_inv write_file_decision [OF tiny_inv ap pl, where t = "''two''" and app = False and now = 5] vw lk sz
    by simp
qed

text \<open>
  Creating directories: \<^verbatim>\<open>mkdir\<close> without \<^verbatim>\<open>-p\<close> adds exactly the one directory at a place
  that was free; \<^verbatim>\<open>mkdir -p\<close> adds exactly the missing prefixes of the path, keeps everything else,
  and is refused only because a file stands in the way.
\<close>

theorem mkdir_view:
  assumes "mkdir path cwd parents md now v = (res, v')"
  defines "loc \<equiv> location v path cwd"
  shows "view (vfs_root v') =
    (case res of
       Inl _ \<Rightarrow> view (vfs_root v)
     | Inr _ \<Rightarrow> (\<lambda>qs. if (if parents then prefix qs loc else qs = loc) \<and> view (vfs_root v) qs = None
           then Some (EDir md) else view (vfs_root v) qs))"
proof (cases res)
  case (Inl e)
  with assms(1) show ?thesis by (auto dest: mkdir_Inl)
next
  case (Inr u)
  show ?thesis
    using assms(1) [unfolded Inr]
  proof (cases rule: mkdir_Inr)
    case self
    then show ?thesis by (auto simp: Inr loc_def fun_eq_iff)
  next
    case (loop n')
    then show ?thesis using mkdir_loop_view [OF loop(3)] by (auto simp: Inr loc_def fun_eq_iff)
  next
    case (new ps nm m ch)
    have l: "lookup (vfs_root v) ps = Some (VFSDirectory m ch)" "location v path cwd = ps @ [nm]"
      using new(2) by (auto simp: at_parent_def)
    have "view (vfs_root v) (ps @ [nm]) = None"
      using view_at_parent [OF new(2)] new(3) by (simp add: l)
    with new show ?thesis
      using view_set_leaf [OF l(1), of nm "new_dir nm md now"]
      by (auto simp: Inr loc_def l(2) fun_eq_iff)
  qed
qed

theorem mkdir_view_witness:
  "view (vfs_root (snd (mkdir ''b/c'' ''/tmp'' True 0x1ED 5 tiny_vfs))) [''tmp'', ''b''] = Some (EDir 0x1ED)"
proof -
  have m: "mkdir ''b/c'' ''/tmp'' True 0x1ED 5 tiny_vfs =
    (Inr True, snd (mkdir ''b/c'' ''/tmp'' True 0x1ED 5 tiny_vfs))"
    by code_simp
  have "location tiny_vfs ''b/c'' ''/tmp'' = [''tmp'', ''b'', ''c'']"
    "view (vfs_root tiny_vfs) [''tmp'', ''b''] = None"
    by code_simp+
  with mkdir_view [OF m] show ?thesis by simp
qed

text \<open>
  C35. Removal: a successful \<^verbatim>\<open>rm\<close> or \<^verbatim>\<open>rmdir\<close> removes exactly the addressed entry and what is
  below it; a directory is only removed by \<^verbatim>\<open>rm\<close> with the recursive flag, and by \<^verbatim>\<open>rmdir\<close> only
  when it is empty; with \<^verbatim>\<open>force\<close> a missing entry is not an error and changes nothing.
\<close>

theorem removal_view:
  assumes "if dir then rmdir path cwd v = (Inr (), v') else remove stack path cwd rc force v = (Inr r, v')"
  defines "loc \<equiv> location v path cwd"
  shows "view (vfs_root v') = (\<lambda>qs. if prefix loc qs then None else view (vfs_root v) qs) \<and>
    (\<not> dir \<longrightarrow> view (vfs_root v) loc = None \<longrightarrow> force \<and> v' = v) \<and>
    (\<not> dir \<longrightarrow> (\<exists>md. view (vfs_root v) loc = Some (EDir md)) \<longrightarrow> rc) \<and>
    (dir \<longrightarrow> (\<exists>md. view (vfs_root v) loc = Some (EDir md)) \<and> (\<forall>q qs. view (vfs_root v) (loc @ q # qs) = None))"
proof -
  have absent: "view (vfs_root v) = (\<lambda>qs. if prefix loc qs then None else view (vfs_root v) qs)"
    if "view (vfs_root v) loc = None"
  proof -
    have "view (vfs_root v) (loc @ rs) = None" for rs
      using that by (simp add: view_append view_None_iff)
    then show ?thesis by (auto simp: prefix_def fun_eq_iff)
  qed
  show ?thesis
  proof (cases dir)
    case True
    with assms(1) have "rmdir path cwd v = (Inr (), v')" by simp
    then show ?thesis
    proof (cases rule: rmdir_Inr)
      case (1 ps nm m ch m')
      then have l: "lookup (vfs_root v) ps = Some (VFSDirectory m ch)" "loc = ps @ [nm]"
        by (auto simp: at_parent_def loc_def)
      have "lookup (vfs_root v) loc = Some (VFSDirectory m' [])"
        using at_parent_lookup [OF 1(1)] 1(2) by (simp add: loc_def)
      with True 1 l show ?thesis by (auto simp: view_del view_append view_def lookup_append)
    qed
  next
    case False
    with assms(1) have "remove stack path cwd rc force v = (Inr r, v')" by simp
    then show ?thesis
    proof (cases rule: remove_Inr)
      case absent': absent
      then have "view (vfs_root v) loc = None" by (simp add: loc_def view_None_iff)
      with absent' absent False show ?thesis by simp
    next
      case (del ps nm m ch x)
      then have l: "lookup (vfs_root v) ps = Some (VFSDirectory m ch)" "loc = ps @ [nm]"
        by (auto simp: at_parent_def loc_def)
      have "view (vfs_root v) loc = Some (entry_of x)"
        using view_at_parent [OF del(1)] del(2) by (simp add: loc_def)
      with False del l show ?thesis by (cases x) (auto simp: view_del)
    qed
  qed
qed

theorem removal_view_witness:
  "remove 0 ''/tmp'' ''/'' True False tiny_vfs = (Inr True, snd (remove 0 ''/tmp'' ''/'' True False tiny_vfs)) \<and>
   view (vfs_root (snd (remove 0 ''/tmp'' ''/'' True False tiny_vfs))) [''tmp'', ''a''] = None"
proof -
  have r: "remove 0 ''/tmp'' ''/'' True False tiny_vfs =
      (Inr True, snd (remove 0 ''/tmp'' ''/'' True False tiny_vfs))"
    and l: "location tiny_vfs ''/tmp'' ''/'' = [''tmp'']"
    by code_simp+
  with removal_view [of False "''/tmp''" "''/''" tiny_vfs "snd (remove 0 ''/tmp'' ''/'' True False tiny_vfs)"
      0 True False True] show ?thesis by simp
qed

text \<open>
  C36. A successful \<^verbatim>\<open>chmod\<close> changes the permission bits of the addressed entry and nothing else
  (contents, kinds, other entries), and leaves them within \<^verbatim>\<open>0o7777\<close>.
\<close>

theorem chmod_view:
  assumes "chmod path spec cwd v = (Inr (), v')"
  shows "\<exists>e md. view (vfs_root v) (location v path cwd) = Some e \<and> 0 \<le> md \<and> md \<le> 4095 \<and>
    view (vfs_root v') = (view (vfs_root v))(location v path cwd \<mapsto> entry_set_mode md e) \<and>
    dynamic_bytes_used v' = dynamic_bytes_used v"
  using assms
proof (cases rule: chmod_Inr)
  case (1 n md)
  have "mode_ok md" using 1(2) by (rule apply_chmod_mode_ok)
  with 1 show ?thesis
    using view_set_mode_at [OF 1(1), of md]
    by (intro exI [of _ "entry_of n"] exI [of _ md]) (simp add: mode_ok_def view_def [of "vfs_root v"])
qed

theorem chmod_view_witness:
  "chmod ''a'' ''u+x'' ''/tmp'' tiny_vfs = (Inr (), snd (chmod ''a'' ''u+x'' ''/tmp'' tiny_vfs)) \<and>
   (\<exists>e md. view (vfs_root tiny_vfs) (location tiny_vfs ''a'' ''/tmp'') = Some e \<and> md \<le> 4095 \<and>
     view (vfs_root (snd (chmod ''a'' ''u+x'' ''/tmp'' tiny_vfs))) =
       (view (vfs_root tiny_vfs))(location tiny_vfs ''a'' ''/tmp'' \<mapsto> entry_set_mode md e))"
proof -
  have "chmod ''a'' ''u+x'' ''/tmp'' tiny_vfs = (Inr (), snd (chmod ''a'' ''u+x'' ''/tmp'' tiny_vfs))"
    by code_simp
  with chmod_view [OF this] show ?thesis by blast
qed

subsection \<open>Stub sizes\<close>

text \<open>The reference: FNV-1a over 32-bit words.\<close>

definition fnv1a :: "string \<Rightarrow> 32 word" where
  "fnv1a nm = fold (\<lambda>c acc. (acc XOR of_char c) * 16777619) nm 2166136261"

lemma AND_mask32: "(x :: int) AND 0xFFFFFFFF = take_bit 32 x"
  by (simp add: take_bit_eq_mask mask_eq_exp_minus_1)

lemma ord_bounds: "0 \<le> ord c" "ord c < 256"
proof -
  have "ord c = int (of_char c)" by (simp only: ord_def of_nat_of_char)
  moreover have "(of_char c :: nat) < 256" by simp
  ultimately show "0 \<le> ord c" "ord c < 256" by linarith+
qed

lemma uint_of_char: "uint (of_char c :: 32 word) = ord c"
proof -
  have "(of_char c :: 32 word) = word_of_int (ord c)"
    unfolding ord_def by (rule of_int_of_char [symmetric])
  then show ?thesis
    using ord_bounds [of c] by (simp add: uint_word_of_int take_bit_int_eq_self_iff)
qed

lemma fnv_fold:
  "fold (\<lambda>c acc. ((acc XOR ord c) * 16777619) AND 0xFFFFFFFF) nm (uint (w :: 32 word)) =
   uint (fold (\<lambda>c acc. (acc XOR of_char c) * 16777619) nm w)"
proof (induction nm arbitrary: w)
  case (Cons c nm)
  have "((uint w XOR ord c) * 16777619) AND 0xFFFFFFFF = uint ((w XOR of_char c) * 16777619)"
    unfolding AND_mask32 by (simp add: uint_word_ariths uint_xor uint_of_char take_bit_eq_mod)
  with Cons show ?case by simp
qed simp

text \<open>
  The fake binary sizes: the masked integer arithmetic of \<^verbatim>\<open>_stub_size\<close> computes the FNV-1a
  hash over 32-bit words, and the reported size lies between 30 KiB and 800 KiB for every name.
\<close>

theorem stub_size_fnv1a:
  "stub_hash nm = uint (fnv1a nm) \<and>
   stub_size nm = 30720 + uint (fnv1a nm) mod 788481 \<and>
   30 * 1024 \<le> stub_size nm \<and> stub_size nm \<le> 800 * 1024"
proof -
  have h: "stub_hash nm = uint (fnv1a nm)"
    using fnv_fold [of nm 2166136261] by (simp add: stub_hash_def fnv1a_def)
  have "0 \<le> uint (fnv1a nm) mod 788481" "uint (fnv1a nm) mod 788481 < 788481" by simp_all
  then show ?thesis
    unfolding stub_size_def h by (simp add: STUB_SIZE_MIN_def STUB_SIZE_MAX_def)
qed

end
