(* ===== verification/Server_Proxy.thy ===== *)
theory Server_Proxy
  imports Prelude
begin

text \<open>
  The PROXY protocol preamble of \<^verbatim>\<open>src/server.py\<close>: the line parser, the stream reader and the asyncio
  protocol that hands the connection over to the SSH implementation.  Bytes are characters.  The SSH
  connection behind the handover is third-party code: the model records the calls made to it, in
  order, and takes the answer of its \<^verbatim>\<open>eof_received\<close> as an argument.
\<close>

subsection \<open>Definitions\<close>

definition PROXY_PREFIX :: string where
  "PROXY_PREFIX = ''PROXY ''"

definition PROXY_MAX_LINE :: nat where
  "PROXY_MAX_LINE = 107"

definition ascii :: "string \<Rightarrow> bool" where
  "ascii s = list_all (\<lambda>c. ord c < 128) s"

definition is_digit :: "char \<Rightarrow> bool" where
  "is_digit c \<longleftrightarrow> 48 \<le> ord c \<and> ord c \<le> 57"

definition decimal :: "string \<Rightarrow> int" where
  "decimal s = foldl (\<lambda>n c. 10 * n + (ord c - 48)) 0 s"

text \<open>
  \<^verbatim>\<open>int(text)\<close> on ASCII text: surrounding white space, a sign, and groups of digits joined by single
  underscores; more than 4300 digits raise \<^verbatim>\<open>ValueError\<close> as well.
\<close>

definition unsigned_int :: "string \<Rightarrow> int option" where
  "unsigned_int s =
     (let groups = split_on (CHR ''_'') s in
      if list_all (\<lambda>g. g \<noteq> [] \<and> list_all is_digit g) groups \<and> length (concat groups) \<le> 4300
      then Some (decimal (concat groups)) else None)"

definition python_int :: "string \<Rightarrow> int option" where
  "python_int text =
     (let t = strip (\<lambda>c. ord c \<in> {9, 10, 11, 12, 13, 32}) text in
      case t of
        [] \<Rightarrow> None
      | c # cs \<Rightarrow>
          if c = CHR ''-'' then map_option uminus (unsigned_int cs)
          else if c = CHR ''+'' then unsigned_int cs
          else unsigned_int t)"

definition parse_proxy_v1_line :: "string \<Rightarrow> (string \<times> int) option" where
  "parse_proxy_v1_line line =
     (if \<not> ascii line then None
      else
        (let parts = split_on (CHR '' '') line in
         if length parts < 6 \<or> parts ! 0 \<noteq> ''PROXY'' then None
         else
           (let family = parts ! 1 in
            if family \<notin> {''TCP4'', ''TCP6''} then None
            else
              (let client_ip = parts ! 2 in
               if client_ip = [] then None
               else
                 (case python_int (parts ! 4) of
                    None \<Rightarrow> None
                  | Some client_port \<Rightarrow>
                      if client_port < 0 \<or> client_port > 65535 then None
                      else Some (client_ip, client_port))))))"

text \<open>\<^verbatim>\<open>buf.find(b"\r\n")\<close>, with None for -1.\<close>

fun find_crlf :: "string \<Rightarrow> nat option" where
  "find_crlf [] = None"
| "find_crlf (c # s) =
     (if c = cr \<and> startswith s [nl] then Some 0 else map_option Suc (find_crlf s))"

record proxy_client_info =
  pi_client_ip :: string
  pi_leftover :: string
  pi_proxied :: bool
  pi_client_port :: "int option"

text \<open>
  A stream reader is the list of the non-empty chunks that arrive: \<^verbatim>\<open>read(n)\<close> returns at most \<^verbatim>\<open>n\<close>
  bytes of the next one and the empty string at the end of the stream.
\<close>

type_synonym reader = "string list"

fun read_bytes :: "nat \<Rightarrow> reader \<Rightarrow> string \<times> reader" where
  "read_bytes n [] = ([], [])"
| "read_bytes n (c # cs) = (if length c \<le> n then (c, cs) else (take n c, drop n c # cs))"

text \<open>The loop that completes the header; it ends because every round consumes input.\<close>

function fill_header :: "string \<Rightarrow> reader \<Rightarrow> string \<times> reader" where
  "fill_header buf r =
     (if find_crlf buf = None \<and> length buf < PROXY_MAX_LINE then
        (let (chunk, r') = read_bytes (PROXY_MAX_LINE - length buf) r in
         if chunk = [] then (buf, r') else fill_header (buf @ chunk) r')
      else (buf, r))"
  by pat_completeness auto

termination
  by (relation "measure (\<lambda>(buf, r). PROXY_MAX_LINE - length buf)")
    (auto simp: diff_less_mono2 simp flip: length_greater_0_conv)

definition read_optional_proxy :: "reader \<Rightarrow> string \<Rightarrow> proxy_client_info \<times> reader" where
  "read_optional_proxy r fallback_ip =
     (let (buf, r) = read_bytes PROXY_MAX_LINE r in
      if buf = [] then (\<lparr>pi_client_ip = fallback_ip, pi_leftover = [], pi_proxied = False, pi_client_port = None\<rparr>, r)
      else if \<not> startswith buf PROXY_PREFIX then
        (\<lparr>pi_client_ip = fallback_ip, pi_leftover = buf, pi_proxied = False, pi_client_port = None\<rparr>, r)
      else
        (let (buf, r) = fill_header buf r in
         case find_crlf buf of
           None \<Rightarrow>
             (\<lparr>pi_client_ip = fallback_ip, pi_leftover = buf, pi_proxied = False, pi_client_port = None\<rparr>, r)
         | Some idx \<Rightarrow>
             (let leftover = drop (idx + 2) buf in
              case parse_proxy_v1_line (take idx buf) of
                None \<Rightarrow>
                  (\<lparr>pi_client_ip = fallback_ip, pi_leftover = leftover, pi_proxied = True, pi_client_port = None\<rparr>, r)
              | Some (ip, port) \<Rightarrow>
                  (\<lparr>pi_client_ip = ip, pi_leftover = leftover, pi_proxied = True, pi_client_port = Some port\<rparr>, r))))"

text \<open>Calls received by the SSH connection after the handover.\<close>

datatype inner_call =
    InnerMade string
  | InnerData string
  | InnerEof
  | InnerLost
  | InnerPause
  | InnerResume

record preamble =
  pp_transport :: bool
  pp_buf :: string
  pp_fallback_ip :: string
  pp_handed_off :: bool
  pp_inner :: "inner_call list option"

definition ProxyPreambleProtocol :: preamble where
  "ProxyPreambleProtocol =
     \<lparr>pp_transport = False, pp_buf = [], pp_fallback_ip = ''unknown'', pp_handed_off = False, pp_inner = None\<rparr>"

text \<open>The peer name is a tuple whose head is the address, or something else (None).\<close>

definition pp_connection_made :: "string option \<Rightarrow> preamble \<Rightarrow> preamble" where
  "pp_connection_made peer p =
     (let p = p\<lparr>pp_transport := True\<rparr> in
      case peer of None \<Rightarrow> p | Some ip \<Rightarrow> p\<lparr>pp_fallback_ip := ip\<rparr>)"

definition inner_call :: "inner_call \<Rightarrow> preamble \<Rightarrow> preamble" where
  "inner_call c p =
     (case pp_inner p of None \<Rightarrow> p | Some cs \<Rightarrow> p\<lparr>pp_inner := Some (cs @ [c])\<rparr>)"

definition complete_handoff :: "string \<Rightarrow> string \<Rightarrow> preamble \<Rightarrow> preamble" where
  "complete_handoff client_ip leftover p =
     (if pp_handed_off p \<or> \<not> pp_transport p then p
      else
        (let p = p\<lparr>pp_handed_off := True, pp_buf := [], pp_inner := Some [InnerMade client_ip]\<rparr>
         in if leftover \<noteq> [] then inner_call (InnerData leftover) p else p))"

definition try_handoff :: "bool \<Rightarrow> preamble \<Rightarrow> preamble" where
  "try_handoff force p =
     (let buf = pp_buf p in
      if pp_handed_off p then p
      else if buf = [] then p
      else if \<not> startswith buf ''P'' then complete_handoff (pp_fallback_ip p) buf p
      else if length buf < length PROXY_PREFIX then
        (if force then complete_handoff (pp_fallback_ip p) buf p else p)
      else if \<not> startswith buf PROXY_PREFIX then complete_handoff (pp_fallback_ip p) buf p
      else
        (case find_crlf buf of
           None \<Rightarrow>
             if force \<or> length buf \<ge> PROXY_MAX_LINE then complete_handoff (pp_fallback_ip p) buf p else p
         | Some idx \<Rightarrow>
             (let client_ip =
                (case parse_proxy_v1_line (take idx buf) of
                   None \<Rightarrow> pp_fallback_ip p | Some (ip, port) \<Rightarrow> ip)
              in complete_handoff client_ip (drop (idx + 2) buf) p)))"

definition pp_data_received :: "string \<Rightarrow> preamble \<Rightarrow> preamble" where
  "pp_data_received data p =
     (if pp_handed_off p then inner_call (InnerData data) p
      else try_handoff False (p\<lparr>pp_buf := pp_buf p @ data\<rparr>))"

definition pp_eof_received :: "bool \<Rightarrow> preamble \<Rightarrow> bool \<times> preamble" where
  "pp_eof_received inner_answer p =
     (let p =
        (if \<not> pp_handed_off p then
           (if pp_buf p \<noteq> [] then try_handoff True p
            else if pp_transport p then complete_handoff (pp_fallback_ip p) [] p else p)
         else p)
      in if pp_inner p \<noteq> None then (inner_answer, inner_call InnerEof p) else (False, p))"

definition pp_connection_lost :: "preamble \<Rightarrow> preamble" where
  "pp_connection_lost p = inner_call InnerLost p"

definition pp_pause_writing :: "preamble \<Rightarrow> preamble" where
  "pp_pause_writing p = inner_call InnerPause p"

definition pp_resume_writing :: "preamble \<Rightarrow> preamble" where
  "pp_resume_writing p = inner_call InnerResume p"

subsection \<open>Specification: the preamble of a whole stream\<close>

text \<open>
  What a client stream means, independently of how it is cut into chunks: the client address
  and the bytes that belong to SSH.
\<close>

definition proxy_spec :: "string \<Rightarrow> string \<Rightarrow> string \<times> string" where
  "proxy_spec fallback s =
     (if startswith s PROXY_PREFIX then
        (case find_crlf s of
           None \<Rightarrow> (fallback, s)
         | Some idx \<Rightarrow>
             ((case parse_proxy_v1_line (take idx s) of None \<Rightarrow> fallback | Some (ip, port) \<Rightarrow> ip),
              drop (idx + 2) s))
      else (fallback, s))"

text \<open>The address announced to SSH and the bytes delivered to it.\<close>

definition announced :: "inner_call list \<Rightarrow> string list" where
  "announced cs = concat (map (\<lambda>c. case c of InnerMade ip \<Rightarrow> [ip] | _ \<Rightarrow> []) cs)"

definition delivered :: "inner_call list \<Rightarrow> string" where
  "delivered cs = concat (map (\<lambda>c. case c of InnerData d \<Rightarrow> d | _ \<Rightarrow> []) cs)"

definition preamble_run :: "string option \<Rightarrow> string list \<Rightarrow> preamble" where
  "preamble_run peer chunks =
     snd (pp_eof_received False
       (fold pp_data_received chunks (pp_connection_made peer ProxyPreambleProtocol)))"

definition peer_ip :: "string option \<Rightarrow> string" where
  "peer_ip peer = (case peer of None \<Rightarrow> ''unknown'' | Some ip \<Rightarrow> ip)"

text \<open>A header, if there is one, ends within the maximal length of a PROXY line.\<close>

definition header_fits :: "string \<Rightarrow> bool" where
  "header_fits s \<longleftrightarrow> \<not> startswith s PROXY_PREFIX \<or>
     (case find_crlf s of None \<Rightarrow> True | Some idx \<Rightarrow> idx + 2 \<le> PROXY_MAX_LINE)"

subsection \<open>Lemmas\<close>

lemma find_crlf_append: "find_crlf b = Some i \<Longrightarrow> find_crlf (b @ t) = Some i \<and> i + 2 \<le> length b"
proof (induction b arbitrary: i)
  case (Cons c b)
  then show ?case by (cases b) (auto simp: startswith_def split: if_splits)
qed simp

lemma find_crlf_within:
  "find_crlf (b @ t) = Some i \<Longrightarrow> i + 2 \<le> length b \<Longrightarrow> find_crlf b = Some i"
proof (induction b arbitrary: i)
  case (Cons c b)
  then show ?case by (cases b) (auto simp: startswith_def split: if_splits)
qed simp

lemma startswith_append: "length q \<le> length b \<Longrightarrow> startswith (b @ t) q = startswith b q"
  unfolding startswith_def by (metis prefixI prefix_length_prefix prefix_prefix)

lemma proxy_prefix_P: "startswith s PROXY_PREFIX \<Longrightarrow> startswith s ''P''"
  by (auto simp: startswith_def PROXY_PREFIX_def prefix_def)

lemma proxy_spec_append:
  "startswith b PROXY_PREFIX \<Longrightarrow> find_crlf b = Some i \<Longrightarrow>
    proxy_spec fb (b @ t) =
      ((case parse_proxy_v1_line (take i b) of None \<Rightarrow> fb | Some (ip, port) \<Rightarrow> ip), drop (i + 2) b @ t)"
  using find_crlf_append [of b i t]
  by (auto simp: proxy_spec_def startswith_def prefix_def)

lemma proxy_spec_plain: "\<not> startswith s PROXY_PREFIX \<Longrightarrow> proxy_spec fb s = (fb, s)"
  by (simp add: proxy_spec_def)

lemma proxy_spec_open: "find_crlf s = None \<Longrightarrow> proxy_spec fb s = (fb, s)"
  by (simp add: proxy_spec_def)

text \<open>The state after the bytes \<^verbatim>\<open>b\<close> of the stream \<^verbatim>\<open>b @ t\<close>.\<close>

definition preamble_at :: "string \<Rightarrow> string \<Rightarrow> string \<Rightarrow> preamble \<Rightarrow> bool" where
  "preamble_at fb b t p \<longleftrightarrow> pp_transport p \<and> pp_fallback_ip p = fb \<and>
     (if pp_handed_off p then
        (\<exists>cs. pp_inner p = Some cs \<and> announced cs = [fst (proxy_spec fb (b @ t))] \<and>
          delivered cs @ t = snd (proxy_spec fb (b @ t)))
      else pp_buf p = b \<and> pp_inner p = None)"

lemma complete_handoff_at:
  assumes "pp_transport p" and "pp_fallback_ip p = fb" and "\<not> pp_handed_off p"
    and "proxy_spec fb (b @ t) = (ip, l @ t)"
  shows "preamble_at fb b t (complete_handoff ip l p) \<and> pp_handed_off (complete_handoff ip l p)"
  using assms
  by (auto simp: complete_handoff_def preamble_at_def inner_call_def announced_def delivered_def Let_def)

lemma try_handoff_at:
  assumes "preamble_at fb b t p" and "\<not> pp_handed_off p" and "header_fits (b @ t)" and "force \<longrightarrow> t = []"
  shows "preamble_at fb b t (try_handoff force p) \<and>
    (force \<and> b \<noteq> [] \<longrightarrow> pp_handed_off (try_handoff force p))"
proof -
  have p: "pp_transport p" "pp_fallback_ip p = fb" "pp_buf p = b"
    using assms(1,2) by (auto simp: preamble_at_def)
  note fin = complete_handoff_at [OF p(1,2) assms(2), of b t]
  have long: "length PROXY_PREFIX = 6" by (simp add: PROXY_PREFIX_def)
  consider "b = []" | "b \<noteq> []" "\<not> startswith b ''P''" | "startswith b ''P''" "length b < 6"
    | "6 \<le> length b" "\<not> startswith b PROXY_PREFIX"
    | "startswith b PROXY_PREFIX" "find_crlf b = None"
    | i where "startswith b PROXY_PREFIX" "find_crlf b = Some i" by fastforce
  then show ?thesis
  proof cases
    case 1
    then show ?thesis using assms(1) p by (simp add: try_handoff_def)
  next
    case 2
    then have "\<not> startswith (b @ t) PROXY_PREFIX"
      using proxy_prefix_P [of "b @ t"] startswith_append [of "''P''" b t] by (cases b) auto
    then show ?thesis using 2 assms(2) p fin [of fb b] by (simp add: try_handoff_def proxy_spec_plain)
  next
    case 3
    then have "force \<Longrightarrow> \<not> startswith (b @ t) PROXY_PREFIX"
      using assms(4) long prefix_length_le [of PROXY_PREFIX b] by (auto simp: startswith_def)
    then show ?thesis
      using 3 assms(1,2) p long fin [of fb b] by (auto simp: try_handoff_def proxy_spec_plain)
  next
    case 4
    then have "\<not> startswith (b @ t) PROXY_PREFIX" using startswith_append [of PROXY_PREFIX b t] long by simp
    then show ?thesis
      using 4 assms(2) p long fin [of fb b] by (auto simp: try_handoff_def proxy_spec_plain)
  next
    case 5
    then have pre: "startswith b ''P''" "6 \<le> length b" "startswith (b @ t) PROXY_PREFIX" "b \<noteq> []"
      using proxy_prefix_P long prefix_length_le [of PROXY_PREFIX b]
      by (auto simp: startswith_def intro: prefix_prefix)
    have "force \<or> length b \<ge> PROXY_MAX_LINE \<Longrightarrow> find_crlf (b @ t) = None"
      using assms(3,4) 5 pre find_crlf_within [of b t]
      by (cases "find_crlf (b @ t)") (auto simp: header_fits_def)
    then show ?thesis
      using 5 pre assms(1,2) p long fin [of fb b] by (auto simp: try_handoff_def proxy_spec_open)
  next
    case 6
    then have pre: "startswith b ''P''" "6 \<le> length b" "b \<noteq> []"
      using proxy_prefix_P long prefix_length_le [of PROXY_PREFIX b] by (auto simp: startswith_def)
    then show ?thesis
      using 6 assms(2) p long fin [of _ "drop (i + 2) b"] proxy_spec_append [OF 6]
      by (simp add: try_handoff_def Let_def cong: option.case_cong)
  qed
qed

lemma data_received_at:
  assumes "preamble_at fb b (c @ t) p" and "header_fits (b @ c @ t)"
  shows "preamble_at fb (b @ c) t (pp_data_received c p)"
proof (cases "pp_handed_off p")
  case True
  then obtain cs where "pp_inner p = Some cs" "announced cs = [fst (proxy_spec fb (b @ c @ t))]"
    "delivered cs @ c @ t = snd (proxy_spec fb (b @ c @ t))"
    using assms(1) by (auto simp: preamble_at_def)
  then show ?thesis
    using True assms(1)
    by (auto simp: pp_data_received_def preamble_at_def inner_call_def announced_def delivered_def)
next
  case False
  then have "preamble_at fb (b @ c) t (p\<lparr>pp_buf := pp_buf p @ c\<rparr>)"
    using assms(1) by (simp add: preamble_at_def)
  from try_handoff_at [OF this, of False] show ?thesis
    using False assms(2) by (simp add: pp_data_received_def)
qed

lemma data_run_at:
  assumes "preamble_at fb b (concat cs) p" and "header_fits (b @ concat cs)"
  shows "preamble_at fb (b @ concat cs) [] (fold pp_data_received cs p)"
  using assms
proof (induction cs arbitrary: b p)
  case (Cons c cs)
  from data_received_at [of fb b c "concat cs" p] Cons.prems
  have "preamble_at fb (b @ c) (concat cs) (pp_data_received c p)" by simp
  with Cons.IH [of "b @ c"] Cons.prems(2) show ?case by simp
qed simp

subsection \<open>The stream reader\<close>

lemma read_bytes_total: "fst (read_bytes n r) @ concat (snd (read_bytes n r)) = concat r"
  by (cases r) auto

lemma read_bytes_nonempty:
  "[] \<notin> set r \<Longrightarrow> [] \<notin> set (snd (read_bytes n r)) \<and> (fst (read_bytes n r) = [] \<longrightarrow> 0 < n \<longrightarrow> snd (read_bytes n r) = [])"
  by (cases r) auto

lemma fill_header_total:
  assumes "[] \<notin> set r" and "fill_header buf r = (buf', r')"
  shows "buf' @ concat r' = buf @ concat r \<and> prefix buf buf' \<and>
    (find_crlf buf' \<noteq> None \<or> length buf' \<ge> PROXY_MAX_LINE \<or> r' = [])"
  using assms
proof (induction buf r arbitrary: buf' r' rule: fill_header.induct)
  case (1 buf r)
  show ?case
  proof (cases "find_crlf buf = None \<and> length buf < PROXY_MAX_LINE")
    case False
    with 1(3) have "buf' = buf" "r' = r" by (subst (asm) fill_header.simps; auto)+
    with False show ?thesis by auto
  next
    case True
    obtain c r1 where c: "read_bytes (PROXY_MAX_LINE - length buf) r = (c, r1)" by fastforce
    note tot = read_bytes_total [of "PROXY_MAX_LINE - length buf" r]
      read_bytes_nonempty [OF 1(2), of "PROXY_MAX_LINE - length buf"]
    show ?thesis
    proof (cases "c = []")
      case True
      with c \<open>find_crlf buf = None \<and> _\<close> 1(3) have "buf' = buf" "r' = r1"
        by (subst (asm) fill_header.simps; simp)+
      with tot c True \<open>find_crlf buf = None \<and> _\<close> show ?thesis by auto
    next
      case False
      with c \<open>find_crlf buf = None \<and> _\<close> 1(3) have "fill_header (buf @ c) r1 = (buf', r')"
        by (subst (asm) fill_header.simps) simp
      with 1(1) [OF \<open>find_crlf buf = None \<and> _\<close> c [symmetric] refl False] tot c show ?thesis
        by (auto dest: append_prefixD)
    qed
  qed
qed

lemma proxy_spec_stop:
  assumes "header_fits (b @ t)" and "startswith b PROXY_PREFIX" and "find_crlf b = None"
    and "length b \<ge> PROXY_MAX_LINE \<or> t = []"
  shows "proxy_spec fb (b @ t) = (fb, b @ t)"
proof -
  have "startswith (b @ t) PROXY_PREFIX" using assms(2) by (auto simp: startswith_def intro: prefix_prefix)
  then have "find_crlf (b @ t) = None"
    using assms find_crlf_within [of b t] by (cases "find_crlf (b @ t)") (auto simp: header_fits_def)
  then show ?thesis by (rule proxy_spec_open)
qed

subsection \<open>Properties\<close>

text \<open>
  C19. The handover does not depend on how the network cuts the stream: for every sequence of
  chunks of a stream whose PROXY header, if any, ends within 107 bytes, followed by the end of the
  stream, the SSH connection is made exactly once, with the address the header names (the peer's
  address without a valid header), and receives exactly the bytes after the header (all bytes
  without one).
\<close>

theorem preamble_chunking:
  assumes "header_fits (concat chunks)"
  shows "\<exists>calls. pp_inner (preamble_run peer chunks) = Some (calls @ [InnerEof]) \<and>
    (announced calls = [fst (proxy_spec (peer_ip peer) (concat chunks))] \<and>
     delivered calls = snd (proxy_spec (peer_ip peer) (concat chunks)))"
proof -
  let ?fb = "peer_ip peer" and ?p0 = "pp_connection_made peer ProxyPreambleProtocol"
  define p where "p = fold pp_data_received chunks ?p0"
  have "preamble_at ?fb [] (concat chunks) ?p0"
    by (simp add: preamble_at_def pp_connection_made_def ProxyPreambleProtocol_def peer_ip_def split: option.split)
  from data_run_at [OF this] assms have at: "preamble_at ?fb (concat chunks) [] p" by (simp add: p_def)
  define p' where "p' = (if \<not> pp_handed_off p then
      (if pp_buf p \<noteq> [] then try_handoff True p
       else if pp_transport p then complete_handoff (pp_fallback_ip p) [] p else p) else p)"
  have "preamble_at ?fb (concat chunks) [] p' \<and> pp_handed_off p'"
  proof (cases "pp_handed_off p")
    case True
    then show ?thesis using at by (simp add: p'_def)
  next
    case False
    then have b: "pp_buf p = concat chunks" "pp_transport p" "pp_fallback_ip p = ?fb"
      using at by (auto simp: preamble_at_def)
    have "concat chunks = [] \<Longrightarrow> proxy_spec ?fb (concat chunks @ []) = (?fb, [] @ [])"
      by (simp del: concat_eq_Nil_conv add: proxy_spec_open)
    then show ?thesis
      using False b try_handoff_at [OF at False, of True] assms
        complete_handoff_at [OF b(2,3) False, of "concat chunks" "[]" ?fb "[]"]
      by (auto simp: p'_def)
  qed
  then obtain cs where "pp_inner p' = Some cs" "announced cs = [fst (proxy_spec ?fb (concat chunks))]"
    "delivered cs = snd (proxy_spec ?fb (concat chunks))"
    by (auto simp: preamble_at_def)
  moreover have "preamble_run peer chunks = snd (if pp_inner p' \<noteq> None then (False, inner_call InnerEof p') else (False, p'))"
    unfolding preamble_run_def pp_eof_received_def p_def [symmetric] p'_def by (simp add: Let_def)
  ultimately show ?thesis by (simp add: inner_call_def)
qed

theorem preamble_chunking_witness:
  "let chunks = [''PRO'', ''XY TCP4 10.0.0.7 10.0.0.1 4711 22'' @ [cr], [nl] @ ''SSH-2.0'']
   in header_fits (concat chunks) \<and>
     (\<exists>calls. pp_inner (preamble_run (Some ''127.0.0.1'') chunks) = Some (calls @ [InnerEof]) \<and>
       announced calls = [''10.0.0.7''] \<and> delivered calls = ''SSH-2.0'')"
proof -
  let ?cs = "[''PRO'', ''XY TCP4 10.0.0.7 10.0.0.1 4711 22'' @ [cr], [nl] @ ''SSH-2.0'']"
  have "header_fits (concat ?cs)" by code_simp
  moreover have "proxy_spec (peer_ip (Some ''127.0.0.1'')) (concat ?cs) = (''10.0.0.7'', ''SSH-2.0'')" by code_simp
  ultimately show ?thesis
    using preamble_chunking [of ?cs "Some ''127.0.0.1''"] unfolding Let_def by (metis fst_conv snd_conv)
qed

text \<open>
  C39. The stream reader \<^verbatim>\<open>read_optional_proxy\<close> implements the same reading of the preamble as the
  protocol, for every stream whose PROXY header, if any, ends within 107 bytes and every chunking
  in which the first read sees the whole prefix \<^verbatim>\<open>PROXY \<close> (or the stream does not start with it): the
  address is the same and the leftover followed by what is still in the reader is exactly the SSH
  part of the stream.
\<close>

theorem read_optional_proxy_agrees:
  assumes "[] \<notin> set r" and "header_fits (concat r)"
    and "6 \<le> length (fst (read_bytes PROXY_MAX_LINE r)) \<or> \<not> startswith (concat r) PROXY_PREFIX"
  shows "(case read_optional_proxy r fb of (info, r') \<Rightarrow>
    (pi_client_ip info, pi_leftover info @ concat r') = proxy_spec fb (concat r))"
proof -
  obtain b r1 where b: "read_bytes PROXY_MAX_LINE r = (b, r1)" by fastforce
  have tot: "concat r = b @ concat r1" and ne: "[] \<notin> set r1"
    using read_bytes_total [of PROXY_MAX_LINE r] read_bytes_nonempty [OF assms(1), of PROXY_MAX_LINE] b by auto
  show ?thesis
  proof (cases "startswith b PROXY_PREFIX")
    case False
    then have "\<not> startswith (concat r) PROXY_PREFIX"
      using assms(3) b tot startswith_append [of PROXY_PREFIX b "concat r1"] by (auto simp: PROXY_PREFIX_def)
    then show ?thesis
      using False b tot proxy_spec_plain by (simp add: read_optional_proxy_def)
  next
    case True
    obtain b2 r2 where f: "fill_header b r1 = (b2, r2)" by fastforce
    note fill = fill_header_total [OF ne f]
    have pre: "startswith b2 PROXY_PREFIX"
      using True fill unfolding startswith_def by (metis prefix_order.trans)
    have tot2: "concat r = b2 @ concat r2" using tot fill by simp
    have ne': "b \<noteq> []" using True by (auto simp: startswith_def PROXY_PREFIX_def)
    have fits: "header_fits (b2 @ concat r2)" using assms(2) tot2 by simp
    show ?thesis
    proof (cases "find_crlf b2")
      case None
      then have "proxy_spec fb (concat r) = (fb, b2 @ concat r2)"
        using proxy_spec_stop [OF fits pre None, of fb] fill tot2 by auto
      then show ?thesis using True ne' b f None by (simp add: read_optional_proxy_def)
    next
      case (Some i)
      then show ?thesis
        using True ne' b f tot2 proxy_spec_append [OF pre Some, of fb "concat r2"]
        by (simp add: read_optional_proxy_def Let_def split: option.split)
    qed
  qed
qed

theorem read_optional_proxy_agrees_witness:
  "let r = [''PROXY TCP4 10.0.0.7 '', ''10.0.0.1 4711 22'' @ [cr, nl] @ ''SSH'', ''-2.0'']
   in pi_client_ip (fst (read_optional_proxy r ''127.0.0.1'')) = ''10.0.0.7''"
proof -
  let ?r = "[''PROXY TCP4 10.0.0.7 '', ''10.0.0.1 4711 22'' @ [cr, nl] @ ''SSH'', ''-2.0'']"
  have "[] \<notin> set ?r" "header_fits (concat ?r)" "6 \<le> length (fst (read_bytes PROXY_MAX_LINE ?r))"
    "fst (proxy_spec ''127.0.0.1'' (concat ?r)) = ''10.0.0.7''" by (simp, code_simp, code_simp, code_simp)
  note h = this
  obtain info r' where r: "read_optional_proxy ?r ''127.0.0.1'' = (info, r')" by fastforce
  have "(pi_client_ip info, pi_leftover info @ concat r') = proxy_spec ''127.0.0.1'' (concat ?r)"
    using read_optional_proxy_agrees [OF h(1,2) disjI1 [OF h(3)], of "''127.0.0.1''"]
    unfolding r prod.case .
  then have "pi_client_ip info = ''10.0.0.7''" using h(4) by (metis fst_conv)
  then show ?thesis unfolding Let_def r by (simp only: fst_conv)
qed

text \<open>
  Two limits of the code, as facts about concrete streams.  A header longer than 107 bytes is
  honoured when it arrives in one chunk and ignored when it arrives in two, so the limit
  \<^verbatim>\<open>_PROXY_MAX_LINE\<close> of the protocol does not bound the accepted header; and \<^verbatim>\<open>read_optional_proxy\<close>
  misses a header whose first five bytes arrive alone, which the protocol recognises.
\<close>

definition long_head :: string where
  "long_head = ''PROXY TCP4 10.0.0.7 ''
     @ ''xxxxxxxxxxxxxxxxxxxxxxxxxxxxxxxxxxxxxxxxxxxxxxxxxxxxxxxxxxxxxxxxxxxxxxxxxxxxxxxxxxxxxxxxxx''"

definition long_tail :: string where
  "long_tail = ''xxxx 4711 22'' @ [cr, nl]"

theorem preamble_limits:
  "announced (the (pp_inner (preamble_run (Some ''127.0.0.1'') [long_head @ long_tail]))) = [''10.0.0.7''] \<and>
   announced (the (pp_inner (preamble_run (Some ''127.0.0.1'') [long_head, long_tail]))) =
     [''127.0.0.1''] \<and>
   pi_client_ip (fst (read_optional_proxy [''PROXY'', '' TCP4 10.0.0.7 10.0.0.1 4711 22'' @ [cr, nl]] ''127.0.0.1'')) =
     ''127.0.0.1'' \<and>
   announced (the (pp_inner (preamble_run (Some ''127.0.0.1'')
     [''PROXY'', '' TCP4 10.0.0.7 10.0.0.1 4711 22'' @ [cr, nl]]))) = [''10.0.0.7'']"
  by (intro conjI; code_simp)

end
