(* ===== verification/Telemetry.thy ===== *)
theory Telemetry
  imports Prelude
begin

text \<open>
  \<^verbatim>\<open>src/telemetry.py\<close>: the append-only JSON-lines audit log.  Log files are an association list from
  path to contents.  \<^verbatim>\<open>json.dumps(..., ensure_ascii=True)\<close> is written out for the values the program
  logs; a float arrives as its \<^verbatim>\<open>repr\<close> text.  Whether the host accepts a write is an argument of the
  recording functions, because both of them swallow \<^verbatim>\<open>OSError\<close>.
\<close>

subsection \<open>Definitions\<close>

datatype json =
    JNull
  | JBool bool
  | JInt int
  | JFloat string
  | JStr string
  | JList "json list"
  | JObj "(string \<times> json) list"

definition hex_digit :: "nat \<Rightarrow> char" where
  "hex_digit n = (if n < 10 then char_of (48 + n) else char_of (87 + n))"

definition json_escape :: "char \<Rightarrow> string" where
  "json_escape c =
     (if c = dquote then [bslash, dquote]
      else if c = bslash then [bslash, bslash]
      else if c = nl then bslash # ''n''
      else if c = cr then bslash # ''r''
      else if c = tab then bslash # ''t''
      else if c = CHR 0x0C then bslash # ''f''
      else if c = CHR 0x08 then bslash # ''b''
      else if 32 \<le> ord c \<and> ord c \<le> 126 then [c]
      else bslash # ''u00'' @ [hex_digit (of_char c div 16), hex_digit (of_char c mod 16)])"

definition json_string :: "string \<Rightarrow> string" where
  "json_string s = [dquote] @ concat (map json_escape s) @ [dquote]"

fun dumps :: "json \<Rightarrow> string" where
  "dumps JNull = ''null''"
| "dumps (JBool b) = (if b then ''true'' else ''false'')"
| "dumps (JInt i) = str_int i"
| "dumps (JFloat t) = t"
| "dumps (JStr s) = json_string s"
| "dumps (JList xs) = ''['' @ join '', '' (map dumps xs) @ '']''"
| "dumps (JObj kvs) = ''{'' @ join '', '' (map (\<lambda>(k, v). json_string k @ '': '' @ dumps v) kvs) @ ''}''"

definition SAFE_SESSION_CHARS :: string where
  "SAFE_SESSION_CHARS =
     ''abcdefghijklmnopqrstuvwxyzABCDEFGHIJKLMNOPQRSTUVWXYZ0123456789-_''"

definition safe_session_id :: "string \<Rightarrow> string" where
  "safe_session_id session_id =
     (let cleaned = filter (\<lambda>c. c \<in> set SAFE_SESSION_CHARS) session_id
      in if cleaned \<noteq> [] then cleaned else ''local'')"

definition SESSION_LOG_DIR :: string where
  "SESSION_LOG_DIR = ''logs/sessions''"

definition AUTH_LOG_PATH :: string where
  "AUTH_LOG_PATH = ''logs/auth_attempts.jsonl''"

type_synonym logs = "(string \<times> string) list"

definition log_text :: "logs \<Rightarrow> string \<Rightarrow> string" where
  "log_text l path = (case map_of l path of None \<Rightarrow> [] | Some t \<Rightarrow> t)"

definition append_jsonl :: "string \<Rightarrow> json \<Rightarrow> logs \<Rightarrow> logs" where
  "append_jsonl path record l =
     (let payload = dumps record @ [nl] in AList.update path (log_text l path @ payload) l)"

definition session_log_path :: "string \<Rightarrow> string" where
  "session_log_path session_id = SESSION_LOG_DIR @ ''/'' @ safe_session_id session_id @ ''.jsonl''"

text \<open>\<^verbatim>\<open>dict.update\<close> on the record, key by key.\<close>

definition record_update :: "(string \<times> json) list \<Rightarrow> (string \<times> json) list \<Rightarrow> (string \<times> json) list" where
  "record_update record extra = fold (\<lambda>(k, v). AList.update k v) extra record"

definition command_record ::
  "string \<Rightarrow> string \<Rightarrow> string \<Rightarrow> string \<Rightarrow> string \<Rightarrow> string \<Rightarrow> string list \<Rightarrow> (string \<times> json) list" where
  "command_record timestamp session_id client_ip command execution_path duration_ms artifacts =
     [(''timestamp'', JStr timestamp), (''session_id'', JStr session_id),
      (''client_ip'', JStr client_ip), (''command'', JStr command),
      (''execution_path'', JStr execution_path), (''duration_ms'', JFloat duration_ms),
      (''captured_artifacts'', JList (map JStr artifacts))]"

definition record_command ::
  "bool \<Rightarrow> string \<Rightarrow> string \<Rightarrow> string \<Rightarrow> string \<Rightarrow> string \<Rightarrow> string \<Rightarrow> string list \<Rightarrow>
   (string \<times> json) list \<Rightarrow> logs \<Rightarrow> logs" where
  "record_command io_ok timestamp session_id client_ip command execution_path duration_ms artifacts extra l =
     (let record = command_record timestamp session_id client_ip command execution_path duration_ms artifacts;
          record = (if extra \<noteq> [] then record_update record extra else record);
          path = session_log_path session_id
      in if io_ok then append_jsonl path (JObj record) l else l)"

record auth_event =
  ev_session_id :: string
  ev_client_ip :: string
  ev_username :: string
  ev_password :: string
  ev_success :: bool
  ev_attempt_count :: int
  ev_limit_exceeded :: bool

definition auth_record :: "string \<Rightarrow> auth_event \<Rightarrow> json" where
  "auth_record timestamp ev =
     JObj [(''timestamp'', JStr timestamp), (''session_id'', JStr (ev_session_id ev)),
       (''client_ip'', JStr (ev_client_ip ev)), (''username'', JStr (ev_username ev)),
       (''password'', JStr (ev_password ev)), (''success'', JBool (ev_success ev)),
       (''attempt_count'', JInt (ev_attempt_count ev)),
       (''limit_exceeded'', JBool (ev_limit_exceeded ev))]"

definition record_auth_attempt :: "bool \<Rightarrow> string \<Rightarrow> auth_event \<Rightarrow> logs \<Rightarrow> logs" where
  "record_auth_attempt io_ok timestamp ev l =
     (if io_ok then append_jsonl AUTH_LOG_PATH (auth_record timestamp ev) l else l)"

subsection \<open>Reading JSON strings back\<close>

definition unhex :: "char \<Rightarrow> nat" where
  "unhex c = (if of_char c < (58::nat) then of_char c - 48 else of_char c - 87)"

definition unescape :: "char \<Rightarrow> char" where
  "unescape c =
     (if c = CHR ''n'' then nl else if c = CHR ''r'' then cr else if c = CHR ''t'' then tab
      else if c = CHR ''f'' then CHR 0x0C else if c = CHR ''b'' then CHR 0x08 else c)"

text \<open>
  The reader of a JSON string body, as any consumer of the log applies it: up to the closing
  quote, undoing the escapes.
\<close>

fun read_chars :: "string \<Rightarrow> (string \<times> string) option" where
  "read_chars [] = None"
| "read_chars (c # cs) =
     (if c = dquote then Some ([], cs)
      else if c = bslash then
        (case cs of
           [] \<Rightarrow> None
         | e # es \<Rightarrow>
             if e = CHR ''u'' then
               (case es of
                  z1 # z2 # h # l # rest \<Rightarrow>
                    map_option (\<lambda>(s, r). (char_of (16 * unhex h + unhex l) # s, r)) (read_chars rest)
                | _ \<Rightarrow> None)
             else map_option (\<lambda>(s, r). (unescape e # s, r)) (read_chars es))
      else map_option (\<lambda>(s, r). (c # s, r)) (read_chars cs))"

definition read_string :: "string \<Rightarrow> (string \<times> string) option" where
  "read_string s = (case s of [] \<Rightarrow> None | c # cs \<Rightarrow> if c = dquote then read_chars cs else None)"

subsection \<open>Lemmas\<close>

lemma unhex_hex_digit: "n < 16 \<Longrightarrow> unhex (hex_digit n) = n"
  by (simp add: unhex_def hex_digit_def)

lemma of_char_bounds: "(of_char c :: nat) < 256"
  using of_char_mod_256 [where c = c and 'a = nat] by (metis mod_less_divisor zero_less_numeral)

lemma of_char_div: "(of_char c :: nat) div 16 < 16"
  using of_char_bounds [of c] by (simp add: less_mult_imp_div_less)

lemma ord_char_of: "n < 256 \<Longrightarrow> ord (char_of (n :: nat)) = int n"
  using of_nat_of_char [of "char_of n", where 'a = int] by (simp add: ord_def)

lemma read_escape:
  "read_chars (json_escape c @ t) = map_option (\<lambda>(s, r). (c # s, r)) (read_chars t)"
proof -
  have "16 * (of_char c div 16) + of_char c mod 16 = (of_char c :: nat)" by simp
  then show ?thesis
    using of_char_div [of c] by (auto simp: json_escape_def unescape_def unhex_hex_digit)
qed

lemma read_json_string: "read_string (json_string s @ rest) = Some (s, rest)"
proof -
  have "read_chars (concat (map json_escape s) @ dquote # rest) = Some (s, rest)"
    by (induction s) (simp_all add: read_escape)
  then show ?thesis by (simp add: read_string_def json_string_def)
qed

definition printable :: "string \<Rightarrow> bool" where
  "printable s \<longleftrightarrow> (\<forall>c \<in> set s. 32 \<le> ord c \<and> ord c \<le> 126)"

lemma printable_simps [simp]:
  "printable []" "printable (c # s) \<longleftrightarrow> 32 \<le> ord c \<and> ord c \<le> 126 \<and> printable s"
  "printable (s @ t) \<longleftrightarrow> printable s \<and> printable t"
  by (auto simp: printable_def)

lemma printable_hex: "n < 16 \<Longrightarrow> 32 \<le> ord (hex_digit n) \<and> ord (hex_digit n) \<le> 126"
  by (auto simp: hex_digit_def ord_char_of)

lemma printable_escape: "printable (json_escape c)"
proof -
  have "printable [hex_digit (of_char c div 16), hex_digit (of_char c mod 16)]"
    using printable_hex [OF of_char_div [of c]] printable_hex [of "of_char c mod 16"] by simp
  moreover have "printable [bslash, dquote]" "printable [bslash, bslash]" "printable (bslash # ''u00'')"
    "printable (bslash # ''n'')" "printable (bslash # ''r'')" "printable (bslash # ''t'')"
    "printable (bslash # ''f'')" "printable (bslash # ''b'')"
    by (simp_all add: ord_def)
  ultimately show ?thesis by (simp only: json_escape_def split: if_split) simp
qed

lemma printable_concat: "(\<And>x. x \<in> set xs \<Longrightarrow> printable x) \<Longrightarrow> printable (concat xs)"
  by (auto simp: printable_def)

lemma printable_json_string: "printable (json_string s)"
  by (auto simp: json_string_def ord_def intro!: printable_concat printable_escape)

lemma printable_join:
  "printable sep \<Longrightarrow> (\<And>x. x \<in> set xs \<Longrightarrow> printable x) \<Longrightarrow> printable (join sep xs)"
  by (induction sep xs rule: join.induct) auto

lemma printable_str_nat: "printable (str_nat n)"
proof (induction n rule: less_induct)
  case (less n)
  have "n mod 10 < 10" by simp
  then have "printable [char_of (48 + n mod 10)]" by (simp add: ord_char_of)
  then show ?case
    using less [of "n div 10"] by (subst str_nat.simps) (auto simp: ord_char_of)
qed

fun plain_floats :: "json \<Rightarrow> bool" where
  "plain_floats (JFloat t) = printable t"
| "plain_floats (JList xs) = list_all plain_floats xs"
| "plain_floats (JObj kvs) = list_all (\<lambda>(k, v). plain_floats v) kvs"
| "plain_floats _ = True"

lemma printable_dumps: "plain_floats j \<Longrightarrow> printable (dumps j)"
proof (induction j rule: dumps.induct)
  case (3 i)
  then show ?case by (simp add: str_int_def printable_str_nat ord_def)
next
  case (6 xs)
  then show ?case by (auto simp: ord_def list_all_iff intro!: printable_join)
next
  case (7 kvs)
  then show ?case
    by (fastforce simp: ord_def list_all_iff printable_json_string intro!: printable_join)
qed (auto simp: ord_def printable_json_string)

lemma printable_no_nl: "printable s \<Longrightarrow> nl \<notin> set s"
  by (auto simp: printable_def ord_def)

lemma log_text_Nil [simp]: "log_text [] p = []"
  by (simp add: log_text_def)

lemma log_text_append:
  "log_text (append_jsonl path r l) p =
    (if p = path then log_text l p @ dumps r @ [nl] else log_text l p)"
  by (auto simp: log_text_def append_jsonl_def Let_def)

lemma log_text_appends:
  "log_text (fold (append_jsonl path) rs l) path = log_text l path @ unlines (map dumps rs)"
  by (induction rs arbitrary: l) (simp_all add: log_text_append unlines_def)

lemma split_unlines:
  "(\<And>x. x \<in> set xs \<Longrightarrow> nl \<notin> set x) \<Longrightarrow> split_on nl (unlines xs) = xs @ [[]]"
  by (induction xs) (simp_all add: unlines_def split_on_append_sep)

subsection \<open>Distinct events give distinct lines\<close>

lemma json_string_inj:
  "json_string s @ u = json_string t @ v \<longleftrightarrow> s = t \<and> u = v"
  by (metis read_json_string option.inject prod.inject)

definition digits_value :: "string \<Rightarrow> nat" where
  "digits_value = foldl (\<lambda>n c. 10 * n + (of_char c - 48)) 0"

lemma digits_value_str_nat: "digits_value (str_nat n) = n"
proof (induction n rule: less_induct)
  case (less n)
  then show ?case
    by (subst str_nat.simps) (auto simp: digits_value_def)
qed

lemma str_nat_digits: "c \<in> set (str_nat n) \<Longrightarrow> 48 \<le> ord c \<and> ord c \<le> 57"
proof (induction n rule: less_induct)
  case (less n)
  have "n mod 10 < 10" by simp
  then show ?case
    using less.IH [of "n div 10"] less.prems
    by (subst (asm) str_nat.simps) (auto simp: ord_char_of split: if_splits)
qed

lemma str_int_inj: "str_int i = str_int j \<longleftrightarrow> i = j"
proof -
  have "CHR ''-'' \<notin> set (str_nat n)" for n using str_nat_digits [of "CHR ''-''" n] by (auto simp: ord_def)
  then have "str_nat n \<noteq> CHR ''-'' # t" for n t by (metis list.set_intros(1))
  moreover have "str_nat m = str_nat n \<longleftrightarrow> m = n" for m n by (metis digits_value_str_nat)
  ultimately show ?thesis
    by (auto simp: str_int_def) (metis nat_eq_iff2 nat_0_le minus_equation_iff linorder_not_le order_less_imp_le neg_0_le_iff_le eq_nat_nat_iff)+
qed

lemma str_int_no_comma: "CHR '','' \<notin> set (str_int i)"
  using str_nat_digits [of "CHR '',''"] by (auto simp: str_int_def ord_def)

lemma append_sep_inj:
  "c \<notin> set x \<Longrightarrow> c \<notin> set y \<Longrightarrow> x @ c # u = y @ c # v \<longleftrightarrow> x = y \<and> u = v"
proof (induction x arbitrary: y)
  case Nil
  then show ?case by (cases y) auto
next
  case (Cons a x)
  then show ?case by (cases y) auto
qed

lemma auth_record_inj:
  "dumps (auth_record t e) = dumps (auth_record t' e') \<longleftrightarrow> t = t' \<and> e = e'"
  by (cases e; cases e')
    (auto simp: auth_record_def json_string_inj append_sep_inj str_int_no_comma str_int_inj split: if_splits)

lemma unlines_inj:
  assumes "\<And>x. x \<in> set xs \<Longrightarrow> nl \<notin> set x" and "\<And>y. y \<in> set ys \<Longrightarrow> nl \<notin> set y"
  shows "unlines xs = unlines ys \<longleftrightarrow> xs = ys"
  using split_unlines [of xs] split_unlines [of ys] assms by (metis append_same_eq)

definition auth_log :: "(string \<times> auth_event) list \<Rightarrow> string" where
  "auth_log evs =
     log_text (fold (\<lambda>(ts, ev). record_auth_attempt True ts ev) evs []) AUTH_LOG_PATH"

lemma auth_log_unlines: "auth_log evs = unlines (map (\<lambda>(ts, ev). dumps (auth_record ts ev)) evs)"
proof -
  have "fold (\<lambda>(ts, ev). record_auth_attempt True ts ev) evs l =
      fold (append_jsonl AUTH_LOG_PATH) (map (\<lambda>(ts, ev). auth_record ts ev) evs) l" for l
    by (induction evs arbitrary: l) (auto simp: record_auth_attempt_def)
  then show ?thesis
    by (simp add: auth_log_def log_text_appends comp_def case_prod_beta')
qed

lemma auth_record_no_nl: "nl \<notin> set (dumps (auth_record ts ev))"
  by (rule printable_no_nl [OF printable_dumps]) (simp add: auth_record_def)

subsection \<open>Properties\<close>

text \<open>
  C26. The authentication log is lossless and cannot be forged from inside: each attempt is exactly
  one line of printable ASCII whatever bytes the client puts into the user name and the password
  (no line break of theirs reaches the file), and two sequences of attempts give the same file only
  if they are the same, time stamps, credentials, counters and verdicts included.
\<close>

theorem auth_log_lossless:
  "split_on nl (auth_log evs) = map (\<lambda>(ts, ev). dumps (auth_record ts ev)) evs @ [[]] \<and>
   (auth_log evs = auth_log evs' \<longleftrightarrow> evs = evs')"
proof
  show "split_on nl (auth_log evs) = map (\<lambda>(ts, ev). dumps (auth_record ts ev)) evs @ [[]]"
    unfolding auth_log_unlines by (rule split_unlines) (auto simp: auth_record_no_nl)
  have "inj (\<lambda>(ts, ev). dumps (auth_record ts ev))"
    by (rule injI) (auto simp: auth_record_inj)
  then show "auth_log evs = auth_log evs' \<longleftrightarrow> evs = evs'"
    unfolding auth_log_unlines by (subst unlines_inj) (auto simp: auth_record_no_nl)
qed

text \<open>
  A session log never leaves its directory: whatever the session id, the file written is
  \<^verbatim>\<open>logs/sessions/<name>.jsonl\<close> for one path component made of the safe characters only, and an id
  made of them keeps its name.
\<close>

theorem session_log_confined:
  "split_on slash (session_log_path sid) = [''logs'', ''sessions'', safe_session_id sid @ ''.jsonl''] \<and>
   safe_session_id sid \<noteq> [] \<and> list_all (\<lambda>c. c \<in> set SAFE_SESSION_CHARS) (safe_session_id sid) \<and>
   safe_session_id (safe_session_id sid) = safe_session_id sid"
proof -
  have "list_all (\<lambda>c. c \<in> set SAFE_SESSION_CHARS) ''local''" by code_simp
  then have safe: "list_all (\<lambda>c. c \<in> set SAFE_SESSION_CHARS) (safe_session_id sid)"
    by (auto simp: safe_session_id_def Let_def list_all_iff)
  have "slash \<notin> set SAFE_SESSION_CHARS" by code_simp
  with safe have "slash \<notin> set (safe_session_id sid @ ''.jsonl'')" by (auto simp: list_all_iff)
  then have "split_on slash (''logs'' @ slash # ''sessions'' @ slash # safe_session_id sid @ ''.jsonl'') =
      [''logs'', ''sessions'', safe_session_id sid @ ''.jsonl'']"
    by (simp del: split_on.simps append.simps add: split_on_append_sep)
  moreover have "safe_session_id sid \<noteq> []" by (simp add: safe_session_id_def Let_def)
  moreover have "filter (\<lambda>c. c \<in> set SAFE_SESSION_CHARS) (safe_session_id sid) = safe_session_id sid"
    using safe by (simp add: list_all_iff filter_id_conv)
  then have "safe_session_id (safe_session_id sid) = safe_session_id sid"
    using \<open>safe_session_id sid \<noteq> []\<close> by (subst safe_session_id_def) (simp only: Let_def not_False_eq_True if_True)
  ultimately show ?thesis
    using safe by (simp add: session_log_path_def SESSION_LOG_DIR_def)
qed

end
