(* ===== verification/Json.thy ===== *)
theory Json
  imports Telemetry
begin

text \<open>
  \<^verbatim>\<open>json.loads\<close> as \<^verbatim>\<open>src/llm.py\<close> uses it.  The scanner follows the strict one of the standard
  library.  A character beyond U+00FF, which only a \<^verbatim>\<open>\u\<close> escape can produce, is rendered by the
  argument \<^verbatim>\<open>wide\<close>.  Besides \<^verbatim>\<open>JSONDecodeError\<close> two limits of the interpreter can end the scan:
  an integer of more than 4300 digits raises a plain \<^verbatim>\<open>ValueError\<close>, and an object or array below
  more brackets than the argument \<^verbatim>\<open>stack\<close> leaves recursive calls for raises \<^verbatim>\<open>RecursionError\<close>; the
  outermost bracket always fits.  The recursion of the model runs on fuel; twice the length of the
  text is enough, because at most two calls are nested per character consumed.
\<close>

subsection \<open>Definitions\<close>

datatype json_error = JSONDecodeError | JsonIntTooLong | JsonTooDeep

type_synonym scan = "json_error + json \<times> string"

definition INT_MAX_STR_DIGITS :: nat where "INT_MAX_STR_DIGITS = 4300"

definition json_ws :: "char \<Rightarrow> bool" where
  "json_ws c \<longleftrightarrow> ord c \<in> {9, 10, 13, 32}"

definition skip_ws :: "string \<Rightarrow> string" where
  "skip_ws s = dropWhile json_ws s"

definition hexval :: "char \<Rightarrow> nat option" where
  "hexval c =
     (if 48 \<le> ord c \<and> ord c \<le> 57 then Some (of_char c - 48)
      else if 65 \<le> ord c \<and> ord c \<le> 70 then Some (of_char c - 55)
      else if 97 \<le> ord c \<and> ord c \<le> 102 then Some (of_char c - 87)
      else None)"

fun hex4 :: "string \<Rightarrow> (nat \<times> string) option" where
  "hex4 (a # b # c # d # s) =
     (case (hexval a, hexval b, hexval c, hexval d) of
        (Some w, Some x, Some y, Some z) \<Rightarrow> Some (((w * 16 + x) * 16 + y) * 16 + z, s)
      | _ \<Rightarrow> None)"
| "hex4 _ = None"

text \<open>A high surrogate joins a low one that follows it as another escape.\<close>

fun unicode_escape :: "string \<Rightarrow> (nat \<times> string) option" where
  "unicode_escape s =
     (case hex4 s of
        None \<Rightarrow> None
      | Some (u, rest) \<Rightarrow>
          if 0xD800 \<le> u \<and> u \<le> 0xDBFF \<and> startswith rest (bslash # ''u'') then
            (case hex4 (drop 2 rest) of
               None \<Rightarrow> None
             | Some (v, rest') \<Rightarrow>
                 if 0xDC00 \<le> v \<and> v \<le> 0xDFFF
                 then Some (0x10000 + (u - 0xD800) * 1024 + (v - 0xDC00), rest')
                 else Some (u, rest))
          else Some (u, rest))"

definition simple_escape :: "char \<Rightarrow> char option" where
  "simple_escape c =
     map_of [(dquote, dquote), (bslash, bslash), (slash, slash), (CHR ''b'', CHR 0x08),
       (CHR ''f'', CHR 0x0C), (CHR ''n'', nl), (CHR ''r'', cr), (CHR ''t'', tab)] c"

definition code_point :: "(nat \<Rightarrow> string) \<Rightarrow> nat \<Rightarrow> string" where
  "code_point wide u = (if u < 256 then [char_of u] else wide u)"

text \<open>The body of a string, after the opening quote, on fuel.\<close>

fun scan_string :: "(nat \<Rightarrow> string) \<Rightarrow> nat \<Rightarrow> string \<Rightarrow> (string \<times> string) option" where
  "scan_string wide 0 s = None"
| "scan_string wide (Suc n) [] = None"
| "scan_string wide (Suc n) (c # cs) =
     (if c = dquote then Some ([], cs)
      else if ord c < 32 then None
      else if c = bslash then
        (case cs of
           [] \<Rightarrow> None
         | e # es \<Rightarrow>
             if e = CHR ''u'' then
               (case unicode_escape es of
                  None \<Rightarrow> None
                | Some (u, rest) \<Rightarrow>
                    map_option (\<lambda>(s, r). (code_point wide u @ s, r)) (scan_string wide n rest))
             else
               (case simple_escape e of
                  None \<Rightarrow> None
                | Some x \<Rightarrow> map_option (\<lambda>(s, r). (x # s, r)) (scan_string wide n es)))
      else map_option (\<lambda>(s, r). (c # s, r)) (scan_string wide n cs))"

definition json_digit :: "char \<Rightarrow> bool" where
  "json_digit c \<longleftrightarrow> 48 \<le> ord c \<and> ord c \<le> 57"

text \<open>\<^verbatim>\<open>(\.\d+)?([eE][-+]?\d+)?\<close>: the fraction and the exponent, each present only if complete.\<close>

definition scan_fraction :: "string \<Rightarrow> string \<times> string" where
  "scan_fraction s =
     (case s of
        [] \<Rightarrow> ([], s)
      | c # t \<Rightarrow>
          if c = CHR ''.'' \<and> takeWhile json_digit t \<noteq> []
          then (c # takeWhile json_digit t, dropWhile json_digit t) else ([], s))"

definition scan_exponent :: "string \<Rightarrow> string \<times> string" where
  "scan_exponent s =
     (case s of
        [] \<Rightarrow> ([], s)
      | c # t \<Rightarrow>
          if c \<in> set ''eE'' then
            (let (sign, u) = (case t of d # t' \<Rightarrow> if d \<in> set ''+-'' then ([d], t') else ([], t) | [] \<Rightarrow> ([], t))
             in if takeWhile json_digit u \<noteq> []
                then (c # sign @ takeWhile json_digit u, dropWhile json_digit u) else ([], s))
          else ([], s))"

definition digits_int :: "string \<Rightarrow> int" where
  "digits_int s = foldl (\<lambda>n c. 10 * n + (ord c - 48)) 0 s"

definition scan_number :: "string \<Rightarrow> scan" where
  "scan_number s =
     (let (neg, t) = (case s of c # t \<Rightarrow> if c = CHR ''-'' then (True, t) else (False, s) | [] \<Rightarrow> (False, s));
          (ds, u) = (case t of
              [] \<Rightarrow> ([], t)
            | d # t' \<Rightarrow> if d = CHR ''0'' then ([d], t')
                else (takeWhile json_digit t, dropWhile json_digit t))
      in if ds = [] then Inl JSONDecodeError
         else
           (let (frac, v) = scan_fraction u; (ex, w) = scan_exponent v
            in if frac = [] \<and> ex = [] then
                 (if length ds > INT_MAX_STR_DIGITS then Inl JsonIntTooLong
                  else Inr (JInt (if neg then - digits_int ds else digits_int ds), u))
               else Inr (JFloat ((if neg then ''-'' else []) @ ds @ frac @ ex), w)))"

definition scan_word :: "string \<Rightarrow> scan" where
  "scan_word s =
     (if startswith s ''null'' then Inr (JNull, drop 4 s)
      else if startswith s ''true'' then Inr (JBool True, drop 4 s)
      else if startswith s ''false'' then Inr (JBool False, drop 5 s)
      else if startswith s ''NaN'' then Inr (JFloat ''nan'', drop 3 s)
      else if startswith s ''Infinity'' then Inr (JFloat ''inf'', drop 8 s)
      else if startswith s ''-Infinity'' then Inr (JFloat ''-inf'', drop 9 s)
      else scan_number s)"

text \<open>
  Values, the members of an object after its opening brace (or after a comma) and the elements of an
  array.  The flag says whether the closing bracket may come first, \<^verbatim>\<open>depth\<close> how many brackets may
  still be opened inside.
\<close>

fun scan_value :: "(nat \<Rightarrow> string) \<Rightarrow> nat \<Rightarrow> nat \<Rightarrow> string \<Rightarrow> scan"
  and scan_members ::
    "(nat \<Rightarrow> string) \<Rightarrow> nat \<Rightarrow> nat \<Rightarrow> bool \<Rightarrow> (string \<times> json) list \<Rightarrow> string \<Rightarrow> scan"
  and scan_elements ::
    "(nat \<Rightarrow> string) \<Rightarrow> nat \<Rightarrow> nat \<Rightarrow> bool \<Rightarrow> json list \<Rightarrow> string \<Rightarrow> scan"
where
  "scan_value wide 0 depth s = Inl JSONDecodeError"
| "scan_value wide (Suc n) depth s =
     (case s of
        [] \<Rightarrow> Inl JSONDecodeError
      | c # cs \<Rightarrow>
          if c = dquote then
            (case scan_string wide (Suc (length cs)) cs of
               None \<Rightarrow> Inl JSONDecodeError
             | Some (t, r) \<Rightarrow> Inr (JStr t, r))
          else if c \<in> set ''{['' \<and> depth = 0 then Inl JsonTooDeep
          else if c = CHR ''{'' then scan_members wide n (depth - 1) True [] (skip_ws cs)
          else if c = CHR ''['' then scan_elements wide n (depth - 1) True [] (skip_ws cs)
          else scan_word s)"
| "scan_members wide 0 depth first kvs s = Inl JSONDecodeError"
| "scan_members wide (Suc n) depth first kvs s =
     (case s of
        [] \<Rightarrow> Inl JSONDecodeError
      | c # cs \<Rightarrow>
          if c = CHR ''}'' \<and> first then Inr (JObj kvs, cs)
          else if c = dquote then
            (case scan_string wide (Suc (length cs)) cs of
               None \<Rightarrow> Inl JSONDecodeError
             | Some (k, s1) \<Rightarrow>
                 (case skip_ws s1 of
                    [] \<Rightarrow> Inl JSONDecodeError
                  | d # s2 \<Rightarrow>
                      if d \<noteq> CHR '':'' then Inl JSONDecodeError
                      else
                        (case scan_value wide n depth (skip_ws s2) of
                           Inl e \<Rightarrow> Inl e
                         | Inr (v, s3) \<Rightarrow>
                             (case skip_ws s3 of
                                [] \<Rightarrow> Inl JSONDecodeError
                              | e # s4 \<Rightarrow>
                                  if e = CHR ''}'' then Inr (JObj (AList.update k v kvs), s4)
                                  else if e = CHR '','' then
                                    scan_members wide n depth False (AList.update k v kvs) (skip_ws s4)
                                  else Inl JSONDecodeError))))
          else Inl JSONDecodeError)"
| "scan_elements wide 0 depth first xs s = Inl JSONDecodeError"
| "scan_elements wide (Suc n) depth first xs s =
     (if first \<and> startswith s '']'' then Inr (JList xs, drop 1 s)
      else
        (case scan_value wide n depth s of
           Inl e \<Rightarrow> Inl e
         | Inr (v, s1) \<Rightarrow>
             (case skip_ws s1 of
                [] \<Rightarrow> Inl JSONDecodeError
              | e # s2 \<Rightarrow>
                  if e = CHR '']'' then Inr (JList (xs @ [v]), s2)
                  else if e = CHR '','' then scan_elements wide n depth False (xs @ [v]) (skip_ws s2)
                  else Inl JSONDecodeError)))"

definition json_loads :: "(nat \<Rightarrow> string) \<Rightarrow> nat \<Rightarrow> string \<Rightarrow> json_error + json" where
  "json_loads wide stack text =
     (case scan_value wide (Suc (2 * length text)) (Suc stack) (skip_ws text) of
        Inl e \<Rightarrow> Inl e
      | Inr (v, rest) \<Rightarrow> if skip_ws rest = [] then Inr v else Inl JSONDecodeError)"

subsection \<open>Reading back what \<^verbatim>\<open>dumps\<close> writes\<close>

lemma hexval_hex_digit: "n < 16 \<Longrightarrow> hexval (hex_digit n) = Some n"
proof -
  assume n: "n < 16"
  have "of_char (hex_digit n) = (if n < 10 then 48 + n else 87 + n)"
    using n by (simp add: hex_digit_def)
  moreover have "ord (hex_digit n) = (if n < 10 then 48 + int n else 87 + int n)"
    using n by (simp add: hex_digit_def ord_char_of)
  ultimately show ?thesis using n by (auto simp: hexval_def)
qed

lemma length_escape: "0 < length (json_escape c)"
  by (simp add: json_escape_def)

lemma scan_escape:
  "scan_string wide (Suc n) (json_escape c @ t) =
    map_option (\<lambda>(s, r). (c # s, r)) (scan_string wide n t)"
proof -
  let ?h = "of_char c div 16 :: nat" and ?l = "of_char c mod 16 :: nat"
  have hl: "?h < 16" "?l < 16" "?h * 16 + ?l = (of_char c :: nat)"
    using of_char_div [of c] by simp_all
  have z: "hexval (CHR ''0'') = Some 0" by (simp add: hexval_def ord_def)
  have "hex4 (''00'' @ [hex_digit ?h, hex_digit ?l] @ t) = Some (of_char c, t)"
    using hexval_hex_digit [OF hl(1)] hexval_hex_digit [OF hl(2)] hl(3) by (simp add: z)
  moreover have b: "(of_char c :: nat) < 256" by (rule of_char_bounds)
  moreover have "\<not> 0xD800 \<le> (of_char c :: nat)" using b by linarith
  ultimately have u: "unicode_escape (''00'' @ [hex_digit ?h, hex_digit ?l] @ t) = Some (of_char c, t)"
    "code_point wide (of_char c) = [c]"
    by (simp_all only: unicode_escape.simps option.case prod.case simp_thms if_False code_point_def if_True)
      simp_all
  consider "c \<in> {dquote, bslash, nl, cr, tab, CHR 0x0C, CHR 0x08}"
    | "c \<notin> {dquote, bslash, nl, cr, tab, CHR 0x0C, CHR 0x08}" "32 \<le> ord c" "ord c \<le> 126"
    | "json_escape c = bslash # CHR ''u'' # ''00'' @ [hex_digit ?h, hex_digit ?l]"
  proof (cases "c \<in> {dquote, bslash, nl, cr, tab, CHR 0x0C, CHR 0x08}")
    case False
    then show ?thesis
      using that by (cases "32 \<le> ord c \<and> ord c \<le> 126") (simp_all add: json_escape_def)
  qed (rule that(1))
  then show ?thesis
  proof cases
    case 1
    then show ?thesis
      by (elim insertE emptyE) (simp_all add: json_escape_def simple_escape_def ord_def)
  next
    case 2
    then show ?thesis by (simp add: json_escape_def)
  next
    case 3
    then have "json_escape c @ t = bslash # CHR ''u'' # ''00'' @ [hex_digit ?h, hex_digit ?l] @ t" by simp
    moreover have "ord bslash = 92" by (simp add: ord_def)
    ultimately show ?thesis
      by (simp only: scan_string.simps list.case u option.case prod.case simp_thms if_True if_False char.inject)
        (simp add: u(2) del: unicode_escape.simps)
  qed
qed

lemma scan_concat_escape:
  "length s < n \<Longrightarrow> scan_string wide n (concat (map json_escape s) @ dquote # rest) = Some (s, rest)"
proof (induction s arbitrary: n)
  case Nil
  then show ?case by (cases n) auto
next
  case (Cons c s)
  then show ?case by (cases n) (auto simp: scan_escape)
qed

lemma scan_json_string:
  "scan_string wide (Suc (length (concat (map json_escape s) @ dquote # rest)))
     (concat (map json_escape s) @ dquote # rest) = Some (s, rest)"
proof (rule scan_concat_escape)
  have "length s \<le> length (concat (map json_escape s))"
  proof (induction s)
    case (Cons c s)
    then show ?case using length_escape [of c] by (simp del: length_greater_0_conv)
  qed simp
  then show "length s < Suc (length (concat (map json_escape s) @ dquote # rest))" by simp
qed

end
