(* ===== verification/Json_Fuel.thy ===== *)
theory Json_Fuel
  imports Json
begin

text \<open>
  The fuel of the scanner of \<^verbatim>\<open>json.loads\<close> never decides: every step that succeeds consumes text, so with
  more than twice the length of the text the result is that of any larger amount, and no
  \<^verbatim>\<open>JSONDecodeError\<close> stands for an exhausted bound.
\<close>

subsection \<open>Every scan consumes text\<close>

lemma skip_ws_le: "length (skip_ws s) \<le> length s"
  by (simp add: skip_ws_def length_dropWhile_le)

lemma skip_ws_Cons: "skip_ws s = c # t \<Longrightarrow> length t < length s"
  using skip_ws_le [of s] by simp

lemma hex4_less: "hex4 s = Some (u, r) \<Longrightarrow> length r < length s"
  by (induction s rule: hex4.induct) (auto split: option.splits)

lemma unicode_escape_less: "unicode_escape s = Some (u, r) \<Longrightarrow> length r < length s"
  by (auto split: option.splits if_splits dest!: hex4_less)

lemma scan_string_less: "scan_string wide n s = Some (t, r) \<Longrightarrow> length r < length s"
proof (induction wide n s arbitrary: t rule: scan_string.induct)
  case (3 wide n c cs)
  then show ?case
    by (fastforce split: if_splits list.splits option.splits dest!: unicode_escape_less
        simp del: unicode_escape.simps)
qed simp_all

lemma drop_digits_le: "length (dropWhile json_digit s) \<le> length s"
  by (rule length_dropWhile_le)

lemma scan_fraction_le: "scan_fraction s = (f, r) \<Longrightarrow> length r \<le> length s"
  by (auto simp: scan_fraction_def drop_digits_le le_SucI split: list.splits if_splits)

lemma scan_exponent_le: "scan_exponent s = (f, r) \<Longrightarrow> length r \<le> length s"
  by (auto simp: scan_exponent_def drop_digits_le le_SucI Let_def split: list.splits if_splits prod.splits)

lemma digits_less: "takeWhile json_digit s \<noteq> [] \<Longrightarrow> length (dropWhile json_digit s) < length s"
  by (cases s) (auto simp: drop_digits_le less_Suc_eq_le split: if_splits)

lemma scan_number_less:
  assumes "scan_number s = Inr (v, r)"
  shows "length r < length s"
proof -
  define nt where "nt = (case s of c # t \<Rightarrow> if c = CHR ''-'' then (True, t) else (False, s) | [] \<Rightarrow> (False, s))"
  define t where "t = snd nt"
  define du where "du = (case t of [] \<Rightarrow> ([], t)
      | d # t' \<Rightarrow> if d = CHR ''0'' then ([d], t') else (takeWhile json_digit t, dropWhile json_digit t))"
  have t: "length t \<le> length s" by (auto simp: t_def nt_def split: list.splits)
  have u: "fst du \<noteq> [] \<Longrightarrow> length (snd du) < length t"
    unfolding du_def using digits_less [of t] by (auto split: list.splits)
  obtain frac w where f: "scan_fraction (snd du) = (frac, w)" by fastforce
  obtain ex x where e: "scan_exponent w = (ex, x)" by fastforce
  have "fst du \<noteq> [] \<and> (r = snd du \<or> r = x)"
    using assms unfolding scan_number_def Let_def nt_def [symmetric]
    by (auto simp: case_prod_beta t_def [symmetric] du_def [symmetric] f e split: if_splits)
  with u t scan_fraction_le [OF f] scan_exponent_le [OF e] show ?thesis by auto
qed

lemma scan_word_less: "scan_word s = Inr (v, r) \<Longrightarrow> length r < length s"
  by (auto simp: scan_word_def startswith_def prefix_def dest: scan_number_less split: if_splits)

lemma scan_value_step:
  assumes "\<And>depth first kvs s v r. scan_members wide n depth first kvs s = Inr (v, r) \<Longrightarrow> length r < length s"
    and "\<And>depth first xs s v r. scan_elements wide n depth first xs s = Inr (v, r) \<Longrightarrow> length r < length s"
    and "scan_value wide (Suc n) depth s = Inr (v, r)"
  shows "length r < length s"
proof -
  from assms(3) obtain c cs where s: "s = c # cs" by (cases s) auto
  consider "c = dquote" | "c = CHR ''{''" | "c = CHR ''[''" | "scan_word s = Inr (v, r)"
    using assms(3) s by (auto split: if_splits)
  then show ?thesis
  proof cases
    case 1
    with assms(3) s obtain t where "scan_string wide (Suc (length cs)) cs = Some (t, r)"
      by (auto split: option.splits)
    from scan_string_less [OF this] s show ?thesis by simp
  next
    case 2
    with assms(3) s have "scan_members wide n (depth - 1) True [] (skip_ws cs) = Inr (v, r)" by (auto split: if_splits)
    from assms(1) [OF this] skip_ws_le [of cs] s show ?thesis by simp
  next
    case 3
    with assms(3) s have "scan_elements wide n (depth - 1) True [] (skip_ws cs) = Inr (v, r)" by (auto split: if_splits)
    from assms(2) [OF this] skip_ws_le [of cs] s show ?thesis by simp
  next
    case 4
    then show ?thesis by (rule scan_word_less)
  qed
qed

text \<open>What a step over members or elements makes of a text: the part after the next value.\<close>

definition member_rest :: "(nat \<Rightarrow> string) \<Rightarrow> string \<Rightarrow> (string \<times> string) option" where
  "member_rest wide s =
     (case s of
        c # cs \<Rightarrow>
          if c = dquote then
            (case scan_string wide (Suc (length cs)) cs of
               Some (k, s1) \<Rightarrow> (case skip_ws s1 of d # s2 \<Rightarrow> if d = CHR '':'' then Some (k, skip_ws s2) else None | [] \<Rightarrow> None)
             | None \<Rightarrow> None)
          else None
      | [] \<Rightarrow> None)"

lemma member_rest_less: "member_rest wide s = Some (k, s2) \<Longrightarrow> Suc (length s2) < length s"
proof -
  assume m: "member_rest wide s = Some (k, s2)"
  then obtain cs s1 t where c: "s = dquote # cs" "scan_string wide (Suc (length cs)) cs = Some (k, s1)"
    "skip_ws s1 = CHR '':'' # t" "s2 = skip_ws t"
    by (auto simp: member_rest_def split: list.splits if_splits option.splits)
  from scan_string_less [OF c(2)] skip_ws_Cons [OF c(3)] skip_ws_le [of t] c(1,4) show ?thesis by simp
qed

lemma scan_members_Suc:
  "scan_members wide (Suc n) depth first kvs s =
     (if first \<and> startswith s ''}'' then Inr (JObj kvs, drop 1 s)
      else
        (case member_rest wide s of
           None \<Rightarrow> Inl JSONDecodeError
         | Some (k, s2) \<Rightarrow>
             (case scan_value wide n depth s2 of
                Inl e \<Rightarrow> Inl e
              | Inr (v, s3) \<Rightarrow>
                  (case skip_ws s3 of
                     [] \<Rightarrow> Inl JSONDecodeError
                   | e # s4 \<Rightarrow>
                       if e = CHR ''}'' then Inr (JObj (AList.update k v kvs), s4)
                       else if e = CHR '','' then scan_members wide n depth False (AList.update k v kvs) (skip_ws s4)
                       else Inl JSONDecodeError))))"
  by (cases s) (auto simp: member_rest_def startswith_def split: list.split option.split)

lemma scan_less:
  "(\<forall>depth s v r. scan_value wide n depth s = Inr (v, r) \<longrightarrow> length r < length s) \<and>
   (\<forall>depth first kvs s v r. scan_members wide n depth first kvs s = Inr (v, r) \<longrightarrow> length r < length s) \<and>
   (\<forall>depth first xs s v r. scan_elements wide n depth first xs s = Inr (v, r) \<longrightarrow> length r < length s)"
proof (induction n)
  case (Suc n)
  then have IH: "\<And>depth s v r. scan_value wide n depth s = Inr (v, r) \<Longrightarrow> length r < length s"
    "\<And>depth first kvs s v r. scan_members wide n depth first kvs s = Inr (v, r) \<Longrightarrow> length r < length s"
    "\<And>depth first xs s v r. scan_elements wide n depth first xs s = Inr (v, r) \<Longrightarrow> length r < length s" by blast+
  have e: "length r < length s" if "scan_elements wide (Suc n) depth first xs s = Inr (v, r)" for depth first xs s v r
  proof (cases "first \<and> startswith s '']''")
    case True
    with that show ?thesis by (cases s) (auto simp: startswith_def)
  next
    case False
    with that obtain w s1 d s2 where c: "scan_value wide n depth s = Inr (w, s1)" "skip_ws s1 = d # s2"
      "r = s2 \<or> scan_elements wide n depth False (xs @ [w]) (skip_ws s2) = Inr (v, r)"
      by (auto split: sum.splits option.splits list.splits if_splits)
    from IH(1) [OF c(1)] skip_ws_Cons [OF c(2)] skip_ws_le [of s2] c(3) IH(3) [of depth False "xs @ [w]" "skip_ws s2" v r]
    show ?thesis by auto
  qed
  have m: "length r < length s" if "scan_members wide (Suc n) depth first kvs s = Inr (v, r)" for depth first kvs s v r
  proof (cases "first \<and> startswith s ''}''")
    case True
    with that show ?thesis by (cases s) (auto simp: scan_members_Suc startswith_def)
  next
    case False
    with that obtain k s2 w s3 d s4 where c: "member_rest wide s = Some (k, s2)" "scan_value wide n depth s2 = Inr (w, s3)"
      "skip_ws s3 = d # s4" "r = s4 \<or> scan_members wide n depth False (AList.update k w kvs) (skip_ws s4) = Inr (v, r)"
      unfolding scan_members_Suc by (auto split: sum.splits option.splits list.splits if_splits)
    from member_rest_less [OF c(1)] IH(1) [OF c(2)] skip_ws_Cons [OF c(3)] skip_ws_le [of s4] c(4)
      IH(2) [of depth False "AList.update k w kvs" "skip_ws s4" v r]
    show ?thesis by auto
  qed
  have "length r < length s" if "scan_value wide (Suc n) depth s = Inr (v, r)" for depth s v r
    by (rule scan_value_step [OF _ _ that]) (use IH in blast)+
  with m e show ?case by blast
qed simp

lemmas scan_value_less = scan_less [THEN conjunct1, rule_format]

subsection \<open>Fuel\<close>

lemma scan_string_fuel: "length s < n \<Longrightarrow> scan_string wide (Suc n) s = scan_string wide n s"
proof (induction n arbitrary: s)
  case (Suc n)
  show ?case
  proof (cases s)
    case (Cons c cs)
    have eq: "length t \<le> length cs \<Longrightarrow> scan_string wide (Suc n) t = scan_string wide n t" for t
      using Suc Cons by simp
    show ?thesis
    proof (cases "c = bslash \<and> cs \<noteq> [] \<and> hd cs = CHR ''u''")
      case True
      then obtain es where cs: "cs = CHR ''u'' # es" by (cases cs) auto
      have "scan_string wide (Suc n) r = scan_string wide n r" if "unicode_escape es = Some (u, r)" for u r
        using eq [of r] unicode_escape_less [OF that] cs by simp
      then show ?thesis
        unfolding Cons scan_string.simps(3) [of wide "Suc n" c cs] scan_string.simps(3) [of wide n c cs]
        by (simp add: True cs del: unicode_escape.simps scan_string.simps split: option.split)
    next
      case False
      note step = Cons scan_string.simps(3) [of wide "Suc n" c cs] scan_string.simps(3) [of wide n c cs]
      show ?thesis
      proof (cases "c = bslash \<and> cs \<noteq> []")
        case True
        then obtain e es where cs: "cs = e # es" by (cases cs) auto
        have "e \<noteq> CHR ''u''" "scan_string wide (Suc n) es = scan_string wide n es"
          using False True cs eq [of es] by simp_all
        then show ?thesis
          unfolding step using True cs by (simp del: scan_string.simps split: option.split)
      next
        case no: False
        have "scan_string wide (Suc n) cs = scan_string wide n cs" using eq by simp
        then show ?thesis
          unfolding step using no by (cases cs) (simp_all del: scan_string.simps)
      qed
    qed
  qed simp
qed simp

lemma scan_fuel:
  "(\<forall>depth s. 2 * length s < n \<longrightarrow> scan_value wide (Suc n) depth s = scan_value wide n depth s) \<and>
   (\<forall>depth first kvs s. 2 * length s + 1 < n \<longrightarrow> scan_members wide (Suc n) depth first kvs s = scan_members wide n depth first kvs s) \<and>
   (\<forall>depth first xs s. 2 * length s + 1 < n \<longrightarrow> scan_elements wide (Suc n) depth first xs s = scan_elements wide n depth first xs s)"
proof (induction n)
  case (Suc n)
  then have IH: "\<And>depth s. 2 * length s < n \<Longrightarrow> scan_value wide (Suc n) depth s = scan_value wide n depth s"
    "\<And>depth first kvs s. 2 * length s + 1 < n \<Longrightarrow> scan_members wide (Suc n) depth first kvs s = scan_members wide n depth first kvs s"
    "\<And>depth first xs s. 2 * length s + 1 < n \<Longrightarrow> scan_elements wide (Suc n) depth first xs s = scan_elements wide n depth first xs s" by blast+
  have v: "scan_value wide (Suc (Suc n)) depth s = scan_value wide (Suc n) depth s" if "2 * length s < Suc n" for depth s
  proof (cases s)
    case (Cons c cs)
    then have "2 * length (skip_ws cs) + 1 < n" using that skip_ws_le [of cs] by simp
    with IH show ?thesis by (simp add: Cons del: scan_members.simps scan_elements.simps)
  qed simp
  have m: "scan_members wide (Suc (Suc n)) depth first kvs s = scan_members wide (Suc n) depth first kvs s"
    if "2 * length s + 1 < Suc n" for depth first kvs s
  proof (cases "member_rest wide s")
    case (Some p)
    obtain k s2 where p: "p = (k, s2)" by fastforce
    have l: "Suc (length s2) < length s" using member_rest_less Some p by simp
    then have a: "scan_value wide (Suc n) depth s2 = scan_value wide n depth s2" using IH(1) that by simp
    have b: "scan_members wide (Suc n) depth False kvs' (skip_ws s4) = scan_members wide n depth False kvs' (skip_ws s4)"
      if "scan_value wide n depth s2 = Inr (w, s3)" "skip_ws s3 = d # s4" for w s3 d s4 kvs'
      using IH(2) [of "skip_ws s4" depth False kvs'] skip_ws_le [of s4] skip_ws_Cons [OF that(2)] scan_value_less [OF that(1)] l
        \<open>2 * length s + 1 < Suc n\<close> by simp
    show ?thesis
      unfolding scan_members_Suc [of wide "Suc n" depth first kvs s] scan_members_Suc [of wide n depth first kvs s] Some p
      using b by (simp add: a split: sum.split option.split list.split del: scan_members.simps scan_value.simps)
  qed (simp add: scan_members_Suc [of wide "Suc n"] scan_members_Suc [of wide n] del: scan_members.simps)
  have e: "scan_elements wide (Suc (Suc n)) depth first xs s = scan_elements wide (Suc n) depth first xs s"
    if "2 * length s + 1 < Suc n" for depth first xs s
  proof -
    have a: "scan_value wide (Suc n) depth s = scan_value wide n depth s" using IH(1) that by simp
    have b: "scan_elements wide (Suc n) depth False xs' (skip_ws s2) = scan_elements wide n depth False xs' (skip_ws s2)"
      if "scan_value wide n depth s = Inr (w, s1)" "skip_ws s1 = d # s2" for w s1 d s2 xs'
      using IH(3) [of "skip_ws s2" depth False xs'] skip_ws_le [of s2] skip_ws_Cons [OF that(2)] scan_value_less [OF that(1)]
        \<open>2 * length s + 1 < Suc n\<close> by simp
    show ?thesis
      unfolding scan_elements.simps(2) [of wide "Suc n" depth first xs s] scan_elements.simps(2) [of wide n depth first xs s] a
      using b by (simp split: sum.split option.split list.split del: scan_elements.simps scan_value.simps)
  qed
  from v m e show ?case by blast
qed simp

lemma scan_value_fuel: "2 * length s < n \<Longrightarrow> scan_value wide (n + k) depth s = scan_value wide n depth s"
proof (induction k)
  case (Suc k)
  then show ?case using scan_fuel [THEN conjunct1, rule_format, of s "n + k" wide depth] by simp
qed simp

text \<open>
  The reader of \<^verbatim>\<open>json.loads\<close> always decides: the result is the same for every amount of fuel above
  twice the length of the text, so an error is the one the library raises and never an exhausted
  bound.
\<close>

theorem json_loads_decides:
  assumes "2 * length t < n"
  shows "json_loads wide stack t =
    (case scan_value wide n (Suc stack) (skip_ws t) of
       Inl e \<Rightarrow> Inl e
     | Inr (v, rest) \<Rightarrow> if skip_ws rest = [] then Inr v else Inl JSONDecodeError)"
proof -
  have "scan_value wide n (Suc stack) (skip_ws t) = scan_value wide (Suc (2 * length t)) (Suc stack) (skip_ws t)"
    using scan_value_fuel [of "skip_ws t" "Suc (2 * length t)" wide "n - Suc (2 * length t)" "Suc stack"]
      skip_ws_le [of t] assms by simp
  then show ?thesis by (simp add: json_loads_def)
qed

end
