(* ===== verification/Shell_Static.thy ===== *)
theory Shell_Static
  imports Vfs_Tree
begin

text \<open>
  The static tables of \<^verbatim>\<open>src/shell.py\<close>: the canned outputs of reconnaissance commands, their exit
  codes, the command sets, and the functions that look them up (\<^verbatim>\<open>lookup_static_output\<close>,
  \<^verbatim>\<open>_lookup_static_aliases\<close>, \<^verbatim>\<open>format_uname\<close>).
\<close>

subsection \<open>Canned outputs\<close>

definition rstrip_nl :: "string \<Rightarrow> string" where
  "rstrip_nl s = rstrip (\<lambda>c. c = nl) s"

definition PS_AUX :: string where
  "PS_AUX = unlines
     [''USER         PID %CPU %MEM    VSZ   RSS TTY      STAT START   TIME COMMAND'',
      ''root           1  0.0  0.5 167848 11456 ?        Ss   Apr10   0:04 /sbin/init'',
      ''root           2  0.0  0.0      0     0 ?        S    Apr10   0:00 [kthreadd]'',
      ''root           3  0.0  0.0      0     0 ?        I<   Apr10   0:00 [rcu_gp]'',
      ''root          90  0.0  0.3  47896  6912 ?        Ss   Apr10   0:00 /lib/systemd/systemd-'' @
       ''journald'',
      ''root         119  0.0  0.2  26204  5632 ?        Ss   Apr10   0:00 /lib/systemd/systemd-'' @
       ''udevd'',
      ''systemd+     176  0.0  0.2  16276  5120 ?        Ss   Apr10   0:00 /lib/systemd/systemd-'' @
       ''networkd'',
      ''systemd+     198  0.0  0.3  18012  6784 ?        Ss   Apr10   0:00 /lib/systemd/systemd-'' @
       ''resolved'',
      ''root         241  0.0  0.2  15432  4608 ?        Ss   Apr10   0:00 /usr/sbin/cron -f'',
      ''message+     244  0.0  0.1   7568  3456 ?        Ss   Apr10   0:00 /usr/bin/dbus-daemon '' @
       ''--system --address=systemd: --nofork --nopidfile --systemd-activation --syslog-only'',
      ''root         258  0.0  0.6  15488 12288 ?        Ss   Apr10   0:00 /usr/sbin/sshd -D'',
      ''root         301  0.0  0.1   7372  2688 tty1     Ss+  Apr10   0:00 /sbin/agetty -o -p --'' @
       '' '' @ [bslash] @ ''u --noclear tty1 linux'',
      ''root         412  0.0  0.3  15408  6912 ?        Ss   01:48   0:00 sshd: root@pts/0'',
      ''root         418  0.0  0.2   8752  4608 pts/0    Ss   01:48   0:00 -bash'',
      ''root         441  0.0  0.1   9804  3584 pts/0    R+   01:49   0:00 ps aux'']"

definition PS_EF :: string where
  "PS_EF = unlines
     [''UID          PID    PPID  C STIME TTY          TIME CMD'',
      ''root           1       0  0 Apr10 ?        00:00:04 /sbin/init'',
      ''root           2       0  0 Apr10 ?        00:00:00 [kthreadd]'',
      ''root           3       2  0 Apr10 ?        00:00:00 [rcu_gp]'',
      ''root          90       1  0 Apr10 ?        00:00:00 /lib/systemd/systemd-journald'',
      ''root         119       1  0 Apr10 ?        00:00:00 /lib/systemd/systemd-udevd'',
      ''systemd+     176       1  0 Apr10 ?        00:00:00 /lib/systemd/systemd-networkd'',
      ''systemd+     198       1  0 Apr10 ?        00:00:00 /lib/systemd/systemd-resolved'',
      ''root         241       1  0 Apr10 ?        00:00:00 /usr/sbin/cron -f'',
      ''message+     244       1  0 Apr10 ?        00:00:00 /usr/bin/dbus-daemon --system --addr'' @
       ''ess=systemd: --nofork --nopidfile --systemd-activation --syslog-only'',
      ''root         258       1  0 Apr10 ?        00:00:00 /usr/sbin/sshd -D'',
      ''root         301       1  0 Apr10 ?        00:00:00 /sbin/agetty -o -p -- '' @ [bslash] @ ''u --noclear t'' @
       ''ty1 linux'',
      ''root         412     258  0 01:48 ?        00:00:00 sshd: root@pts/0'',
      ''root         418     412  0 01:48 pts/0    00:00:00 -bash'',
      ''root         441     418  0 01:49 pts/0    00:00:00 ps -ef'']"

definition DF_H :: string where
  "DF_H = unlines
     [''Filesystem      Size  Used Avail Use% Mounted on'',
      ''tmpfs           198M  1.1M  197M   1% /run'',
      ''/dev/vda1        20G  3.2G   16G  17% /'',
      ''tmpfs           990M     0  990M   0% /dev/shm'',
      ''tmpfs           5.0M     0  5.0M   0% /run/lock'',
      ''/dev/vda15      105M  6.1M   99M   6% /boot/efi'',
      ''tmpfs           198M  4.0K  198M   1% /run/user/0'']"

definition FREE_M :: string where
  "FREE_M = unlines
     [''               total        used        free      shared  buff/cache   available'',
      ''Mem:            3922         476        2823           2         623        3135'',
      ''Swap:              0           0           0'']"

definition UPTIME :: string where
  "UPTIME = '' 01:49:12 up 14 days,  3:22,  1 user,  load average: 0.00, 0.01, 0.00''"

definition WHOAMI :: string where
  "WHOAMI = ''root''"

definition ID_OUT :: string where
  "ID_OUT = ''uid=0(root) gid=0(root) groups=0(root)''"

definition GROUPS_OUT :: string where
  "GROUPS_OUT = ''root''"

definition ARCH_OUT :: string where
  "ARCH_OUT = ''x86_64''"

definition NPROC_OUT :: string where
  "NPROC_OUT = ''2''"

definition WHO_OUT :: string where
  "WHO_OUT = ''root     pts/0        2024-04-10 01:48 (192.168.1.10)''"

definition W_OUT :: string where
  "W_OUT = unlines
     [UPTIME,
      ''USER     TTY      FROM             LOGIN@   IDLE   JCPU   PCPU WHAT'',
      ''root     pts/0    192.168.1.10     01:48    0.00s  0.04s  0.00s -bash'']"

definition LAST_OUT :: string where
  "LAST_OUT = unlines
     [''root     pts/0        192.168.1.10     Tue Apr 10 01:48   still logged in'',
      ''reboot   system boot  '' @ KERNEL_RELEASE @ '' Tue Mar 27 22:27   still running'',
      [],
      ''wtmp begins Tue Mar 27 22:27:11 2024'']"

definition CRONTAB_L :: string where
  "CRONTAB_L = ''no crontab for root''"

definition LSCPU :: string where
  "LSCPU = unlines
     [''Architecture:                    x86_64'',
      ''CPU op-mode(s):                  32-bit, 64-bit'',
      ''Address sizes:                   46 bits physical, 48 bits virtual'',
      ''Byte Order:                      Little Endian'',
      ''CPU(s):                          2'',
      ''On-line CPU(s) list:             0,1'',
      ''Vendor ID:                       GenuineIntel'',
      ''Model name:                      Intel(R) Xeon(R) Platinum 8259CL CPU @ 2.50GHz'',
      ''CPU family:                      6'',
      ''Model:                           85'',
      ''Thread(s) per core:              1'',
      ''Core(s) per socket:              2'',
      ''Socket(s):                       1'',
      ''Stepping:                        7'',
      ''CPU max MHz:                     2500.0000'',
      ''CPU min MHz:                     2500.0000'',
      ''BogoMIPS:                        4999.99'',
      ''Hypervisor vendor:               KVM'',
      ''Virtualization type:             full'',
      ''L1d cache:                       64 KiB (2 instances)'',
      ''L1i cache:                       64 KiB (2 instances)'',
      ''L2 cache:                        2 MiB (2 instances)'',
      ''L3 cache:                        35.8 MiB (1 instance)'',
      ''NUMA node(s):                    1'',
      ''NUMA node0 CPU(s):               0,1'',
      ''Vulnerability Itlb multihit:     KVM: Mitigation: VMX unsupported'',
      ''Vulnerability L1tf:              Mitigation; PTE Inversion'',
      ''Vulnerability Mds:               Vulnerable: Clear CPU buffers attempted, no microcode; '' @
       ''SMT Host state unknown'',
      ''Vulnerability Meltdown:          Mitigation; PTI'',
      ''Vulnerability Mmio stale data:   Vulnerable: Clear CPU buffers attempted, no microcode; '' @
       ''SMT Host state unknown'',
      ''Vulnerability Retbleed:          Not affected'',
      ''Vulnerability Spec store bypass: Mitigation; Speculative Store Bypass disabled via prctl'' @
       '' and seccomp'',
      ''Vulnerability Spectre v1:        Mitigation; usercopy/swapgs barriers and __user pointer'' @
       '' sanitization'',
      ''Vulnerability Spectre v2:        Mitigation; Retpolines, IBPB conditional, IBRS_FW, STIB'' @
       ''P disabled, RSB filling'',
      ''Vulnerability Srbds:             Not affected'',
      ''Vulnerability Tsx async abort:   Not affected'',
      ''Flags:                           fpu vme de pse tsc msr pae mce cx8 apic sep mtrr pge mc'' @
       ''a cmov pat pse36 clflush mmx fxsr sse sse2 ss ht syscall nx pdpe1gb rdtscp lm constant_t'' @
       ''sc rep_good nopl xtopology nonstop_tsc cpuid tsc_known_freq pni pclmulqdq ssse3 fma cx16'' @
       '' pcid sse4_1 sse4_2 x2apic movbe popcnt tsc_deadline_timer aes xsave avx f16c rdrand hyp'' @
       ''ervisor lahf_lm abm 3dnowprefetch cpuid_fault invpcid_single pti ssbd ibrs ibpb stibp fs'' @
       ''gsbase tsc_adjust bmi1 avx2 smep bmi2 erms invpcid mpx avx512f avx512dq rdseed adx smap '' @
       ''clflushopt clwb avx512cd avx512bw avx512vl xsaveopt xsavec xgetbv1 xsaves ida arat pku o'' @
       ''spke'']"

definition LSMOD :: string where
  "LSMOD = unlines
     [''Module                  Size  Used by'',
      ''overlay               151552  0'',
      ''nls_iso8859_1          16384  1'',
      ''dm_multipath           40960  0'',
      ''scsi_dh_rdac           20480  0'',
      ''scsi_dh_emc            16384  0'',
      ''scsi_dh_alua           20480  0'',
      ''crct10dif_pclmul       16384  1'',
      ''crc32_pclmul           16384  0'',
      ''ghash_clmulni_intel    16384  0'',
      ''aesni_intel           376832  0'',
      ''crypto_simd            16384  1 aesni_intel'',
      ''cryptd                 24576  2 crypto_simd,ghash_clmulni_intel'',
      ''crc32c_intel           24576  0'',
      ''virtio_net             61440  0'',
      ''net_failover           20480  1 virtio_net'',
      ''failover               16384  1 net_failover'',
      ''virtio_blk             20480  2'',
      ''virtio_scsi            24576  0'',
      ''ext4                  921600  1'',
      ''mbcache                16384  1 ext4'',
      ''jbd2                  167936  1 ext4'']"

definition DMIDECODE :: string where
  "DMIDECODE = unlines
     [''# dmidecode 3.3'',
      ''Getting SMBIOS data from sysfs.'',
      ''SMBIOS 2.8 present.'',
      [],
      ''Handle 0x0001, DMI type 1, 27 bytes'',
      ''System Information'',
      [tab] @ ''Manufacturer: QEMU'',
      [tab] @ ''Product Name: Standard PC (Q35 + ICH9, 2009)'',
      [tab] @ ''Version: pc-q35-7.2'',
      [tab] @ ''Serial Number: Not Specified'',
      [tab] @ ''UUID: 12345678-1234-5678-1234-567812345678'',
      [tab] @ ''Wake-up Type: Power Switch'',
      [tab] @ ''SKU Number: Not Specified'',
      [tab] @ ''Family: Not Specified'']"

definition DMIDECODE_PRODUCT :: string where
  "DMIDECODE_PRODUCT = ''Standard PC (Q35 + ICH9, 2009)''"

definition IP_ADDR :: string where
  "IP_ADDR = unlines
     [''1: lo: <LOOPBACK,UP,LOWER_UP> mtu 65536 qdisc noqueue state UNKNOWN group default qlen 1'' @
       ''000'',
      ''    link/loopback 00:00:00:00:00:00 brd 00:00:00:00:00:00'',
      ''    inet 127.0.0.1/8 scope host lo'',
      ''       valid_lft forever preferred_lft forever'',
      ''    inet6 ::1/128 scope host'',
      ''       valid_lft forever preferred_lft forever'',
      ''2: eth0: <BROADCAST,MULTICAST,UP,LOWER_UP> mtu 1500 qdisc fq_codel state UP group defaul'' @
       ''t qlen 1000'',
      ''    link/ether 52:54:00:12:34:56 brd ff:ff:ff:ff:ff:ff'',
      ''    inet 192.168.1.105/24 brd 192.168.1.255 scope global eth0'',
      ''       valid_lft forever preferred_lft forever'',
      ''    inet6 fe80::5054:ff:fe12:3456/64 scope link'',
      ''       valid_lft forever preferred_lft forever'']"

definition IFCONFIG :: string where
  "IFCONFIG = unlines
     [''eth0: flags=4163<UP,BROADCAST,RUNNING,MULTICAST>  mtu 1500'',
      ''        inet 192.168.1.105  netmask 255.255.255.0  broadcast 192.168.1.255'',
      ''        inet6 fe80::5054:ff:fe12:3456  prefixlen 64  scopeid 0x20<link>'',
      ''        ether 52:54:00:12:34:56  txqueuelen 1000  (Ethernet)'',
      ''        RX packets 6234  bytes 8472192 (8.4 MB)'',
      ''        RX errors 0  dropped 0  overruns 0  frame 0'',
      ''        TX packets 4102  bytes 2156032 (2.1 MB)'',
      ''        TX errors 0  dropped 0 overruns 0  carrier 0  collisions 0'',
      [],
      ''lo: flags=73<UP,LOOPBACK,RUNNING>  mtu 65536'',
      ''        inet 127.0.0.1  netmask 255.0.0.0'',
      ''        inet6 ::1  prefixlen 128  scopeid 0x10<host>'',
      ''        loop  txqueuelen 1000  (Local Loopback)'',
      ''        RX packets 182  bytes 152384 (148.8 KB)'',
      ''        RX errors 0  dropped 0  overruns 0  frame 0'',
      ''        TX packets 182  bytes 152384 (148.8 KB)'',
      ''        TX errors 0  dropped 0 overruns 0  carrier 0  collisions 0'']"

definition IP_ROUTE :: string where
  "IP_ROUTE = unlines
     [''default via 192.168.1.1 dev eth0 proto dhcp src 192.168.1.105 metric 100'',
      ''192.168.1.0/24 dev eth0 proto kernel scope link src 192.168.1.105 metric 100'']"

definition ROUTE_N :: string where
  "ROUTE_N = unlines
     [''Kernel IP routing table'',
      ''Destination     Gateway         Genmask         Flags Metric Ref    Use Iface'',
      ''0.0.0.0         192.168.1.1     0.0.0.0         UG    100    0        0 eth0'',
      ''192.168.1.0     0.0.0.0         255.255.255.0   U     100    0        0 eth0'']"

definition NETSTAT_TULN :: string where
  "NETSTAT_TULN = unlines
     [''Active Internet connections (only servers)'',
      ''Proto Recv-Q Send-Q Local Address           Foreign Address         State'',
      ''tcp        0      0 0.0.0.0:22              0.0.0.0:*               LISTEN'',
      ''tcp        0      0 127.0.0.53:53           0.0.0.0:*               LISTEN'',
      ''tcp6       0      0 :::22                   :::*                    LISTEN'',
      ''udp        0      0 127.0.0.53:53           0.0.0.0:*'']"

definition SS_TULN :: string where
  "SS_TULN = unlines
     [''Netid State  Recv-Q Send-Q Local Address:Port  Peer Address:PortProcess'',
      ''udp   UNCONN 0      0      127.0.0.53%lo:53         0.0.0.0:*'',
      ''tcp   LISTEN 0      128          0.0.0.0:22         0.0.0.0:*'',
      ''tcp   LISTEN 0      128        127.0.0.53:53         0.0.0.0:*'',
      ''tcp   LISTEN 0      128             [::]:22            [::]:*'']"

definition SS_TULPN :: string where
  "SS_TULPN = unlines
     [''Netid State  Recv-Q Send-Q Local Address:Port  Peer Address:PortProcess'',
      ''udp   UNCONN 0      0      127.0.0.53%lo:53         0.0.0.0:*    users:(('' @ [dquote] @ ''systemd-resolv'' @
       ''e'' @ [dquote] @ '',pid=198,fd=13))'',
      ''tcp   LISTEN 0      128          0.0.0.0:22         0.0.0.0:*    users:(('' @ [dquote] @ ''sshd'' @ [dquote] @ '',pid=258,'' @
       ''fd=3))'',
      ''tcp   LISTEN 0      128        127.0.0.53:53         0.0.0.0:*    users:(('' @ [dquote] @ ''systemd-resol'' @
       ''ve'' @ [dquote] @ '',pid=198,fd=14))'',
      ''tcp   LISTEN 0      128             [::]:22            [::]:*    users:(('' @ [dquote] @ ''sshd'' @ [dquote] @ '',pid=258,'' @
       ''fd=4))'']"

definition IPTABLES_L :: string where
  "IPTABLES_L = unlines
     [''Chain INPUT (policy ACCEPT)'',
      ''target     prot opt source               destination'',
      [],
      ''Chain FORWARD (policy ACCEPT)'',
      ''target     prot opt source               destination'',
      [],
      ''Chain OUTPUT (policy ACCEPT)'',
      ''target     prot opt source               destination'']"

definition IPTABLES_S :: string where
  "IPTABLES_S = unlines
     [''-P INPUT ACCEPT'',
      ''-P FORWARD ACCEPT'',
      ''-P OUTPUT ACCEPT'']"

definition UFW_STATUS :: string where
  "UFW_STATUS = ''Status: inactive''"

definition WHICH_PATHS :: "(string \<times> string) list" where
  "WHICH_PATHS =
     [(''sh'', ''/bin/sh''),
      (''bash'', ''/bin/bash''),
      (''dash'', ''/bin/dash''),
      (''cat'', ''/bin/cat''),
      (''ls'', ''/bin/ls''),
      (''echo'', ''/bin/echo''),
      (''pwd'', ''/bin/pwd''),
      (''rm'', ''/bin/rm''),
      (''mkdir'', ''/bin/mkdir''),
      (''rmdir'', ''/bin/rmdir''),
      (''touch'', ''/bin/touch''),
      (''cp'', ''/bin/cp''),
      (''mv'', ''/bin/mv''),
      (''chmod'', ''/bin/chmod''),
      (''chown'', ''/bin/chown''),
      (''uname'', ''/bin/uname''),
      (''hostname'', ''/bin/hostname''),
      (''login'', ''/bin/login''),
      (''curl'', ''/usr/bin/curl''),
      (''wget'', ''/usr/bin/wget''),
      (''python3'', ''/usr/bin/python3''),
      (''python'', ''/usr/bin/python''),
      (''gcc'', ''/usr/bin/gcc''),
      (''nc'', ''/usr/bin/nc''),
      (''netcat'', ''/usr/bin/nc''),
      (''iptables'', ''/usr/bin/iptables''),
      (''ss'', ''/usr/bin/ss''),
      (''ip'', ''/usr/bin/ip''),
      (''env'', ''/usr/bin/env''),
      (''which'', ''/usr/bin/which''),
      (''id'', ''/usr/bin/id''),
      (''whoami'', ''/usr/bin/whoami'')]"

definition UNAME_FIELDS :: "(char \<times> string) list" where
  "UNAME_FIELDS =
     [(CHR ''s'', ''Linux''), (CHR ''n'', HOSTNAME), (CHR ''r'', KERNEL_RELEASE), (CHR ''v'', KERNEL_VERSION), (CHR ''m'', ''x86_64''), (CHR ''p'', ''x86_64''), (CHR ''i'', ''x86_64''), (CHR ''o'', ''GNU/Linux'')]"

definition UNAME_ALL_FLAGS :: string where
  "UNAME_ALL_FLAGS = ''snrvmpio''"

definition STATIC_OUTPUTS :: "(string list \<times> string) list" where
  "STATIC_OUTPUTS =
     [([''ps'', ''aux''], rstrip_nl PS_AUX),
      ([''ps'', ''-ef''], rstrip_nl PS_EF),
      ([''df'', ''-h''], rstrip_nl DF_H),
      ([''free'', ''-m''], rstrip_nl FREE_M),
      ([''uptime''], UPTIME),
      ([''whoami''], WHOAMI),
      ([''hostname''], HOSTNAME),
      ([''id''], ID_OUT),
      ([''id'', ''-u''], ''0''),
      ([''id'', ''-g''], ''0''),
      ([''id'', ''-un''], ''root''),
      ([''id'', ''-gn''], ''root''),
      ([''arch''], ARCH_OUT),
      ([''w''], rstrip_nl W_OUT),
      ([''who''], WHO_OUT),
      ([''lscpu''], rstrip_nl LSCPU),
      ([''lsmod''], rstrip_nl LSMOD),
      ([''dmidecode''], rstrip_nl DMIDECODE),
      ([''dmidecode'', ''-s'', ''system-product-name''], DMIDECODE_PRODUCT),
      ([''dmidecode'', ''-s'', ''system-manufacturer''], ''QEMU''),
      ([''ip'', ''a''], rstrip_nl IP_ADDR),
      ([''ip'', ''addr''], rstrip_nl IP_ADDR),
      ([''ip'', ''address''], rstrip_nl IP_ADDR),
      ([''ip'', ''addr'', ''show''], rstrip_nl IP_ADDR),
      ([''ifconfig''], rstrip_nl IFCONFIG),
      ([''ifconfig'', ''-a''], rstrip_nl IFCONFIG),
      ([''ip'', ''route''], rstrip_nl IP_ROUTE),
      ([''ip'', ''r''], rstrip_nl IP_ROUTE),
      ([''route'', ''-n''], rstrip_nl ROUTE_N),
      ([''route''], rstrip_nl ROUTE_N),
      ([''netstat'', ''-tuln''], rstrip_nl NETSTAT_TULN),
      ([''ss'', ''-tuln''], rstrip_nl SS_TULN),
      ([''ss'', ''-tulpn''], rstrip_nl SS_TULPN),
      ([''iptables'', ''-L''], rstrip_nl IPTABLES_L),
      ([''iptables'', ''-S''], rstrip_nl IPTABLES_S),
      ([''ufw'', ''status''], UFW_STATUS),
      ([''groups''], GROUPS_OUT),
      ([''nproc''], NPROC_OUT),
      ([''last''], rstrip_nl LAST_OUT),
      ([''crontab'', ''-l''], CRONTAB_L)]"

definition STATIC_EXIT_CODES :: "(string list \<times> int) list" where
  "STATIC_EXIT_CODES = [([''crontab'', ''-l''], 1)]"

definition STATIC_HANDLER_COMMANDS :: "string list" where
  "STATIC_HANDLER_COMMANDS =
     [''which'', ''uname'', ''env'']"

definition LLM_ALLOWED_BINARIES :: "string list" where
  "LLM_ALLOWED_BINARIES =
     [''systemctl'', ''service'', ''iptables'', ''dpkg'', ''apt'', ''apt-get'', ''crontab'',
      ''timedatectl'', ''apparmor_status'', ''sestatus'', ''lscpu'', ''netstat'', ''ip'']"

definition UNCACHEABLE_LLM_COMMANDS :: "string list" where
  "UNCACHEABLE_LLM_COMMANDS =
     [''timedatectl'']"

definition STDERR_REDIRECTS :: "string list" where
  "STDERR_REDIRECTS =
     [''2>&1'', ''2>/dev/null'']"

definition SYSTEM_BIN_PREFIXES :: "string list" where
  "SYSTEM_BIN_PREFIXES =
     [''/usr/bin/'', ''/sbin/'', ''/bin/'']"

definition SHELL_WRAPPERS :: "string list" where
  "SHELL_WRAPPERS =
     [''sh'', ''bash'', ''dash'']"

definition HANDLER_NAMES :: "string list" where
  "HANDLER_NAMES =
     [''pwd'', ''cd'', ''ls'', ''cat'', ''grep'', ''touch'', ''echo'', ''true'', ''false'',
      ''mkdir'', ''rm'', ''rmdir'', ''chmod'', ''wget'', ''curl'', ''which'', ''uname'', ''env'',
      ''exit'', ''logout'', ''history'', ''unset'']"

definition KNOWN_COMMANDS :: "string list" where
  "KNOWN_COMMANDS =
     HANDLER_NAMES @ SHELL_WRAPPERS @ map (\<lambda>p. hd (fst p)) STATIC_OUTPUTS @ LLM_ALLOWED_BINARIES"

subsection \<open>Lookups\<close>

definition short_flags :: "string list \<Rightarrow> string" where
  "short_flags args =
     concat (map (\<lambda>arg.
       if startswith arg ''--'' \<or> arg = ''-'' then []
       else if startswith arg ''-'' then drop 1 arg else []) args)"

definition lookup_static_aliases :: "string list \<Rightarrow> string option" where
  "lookup_static_aliases tokens =
     (let command = hd tokens; args = tl tokens; flags = short_flags args in
      if command = ''ip'' \<and> args \<noteq> [] \<and> hd args \<in> {''a'', ''addr'', ''address''} then Some (rstrip_nl IP_ADDR)
      else if command = ''ip'' \<and> args \<noteq> [] \<and> hd args \<in> {''r'', ''route''} then Some (rstrip_nl IP_ROUTE)
      else if command = ''ss'' \<and> CHR ''l'' \<in> set flags then
        Some (if CHR ''p'' \<in> set flags then rstrip_nl SS_TULPN else rstrip_nl SS_TULN)
      else if command = ''netstat'' \<and> CHR ''l'' \<in> set flags then Some (rstrip_nl NETSTAT_TULN)
      else if command = ''iptables'' \<and> CHR ''S'' \<in> set flags then Some (rstrip_nl IPTABLES_S)
      else if command = ''iptables'' \<and> (CHR ''L'' \<in> set flags \<or> args = []) then Some (rstrip_nl IPTABLES_L)
      else if command = ''ufw'' \<and> args \<noteq> [] \<and> hd args = ''status'' then Some UFW_STATUS
      else if command = ''dmidecode'' \<and> take 2 args = [''-s'', ''system-product-name''] then
        Some DMIDECODE_PRODUCT
      else if command = ''dmidecode'' \<and> take 2 args = [''-s'', ''system-manufacturer''] then Some ''QEMU''
      else if command = ''dmidecode'' \<and> args = [] then Some (rstrip_nl DMIDECODE)
      else if command = ''ifconfig'' then Some (rstrip_nl IFCONFIG)
      else if command = ''route'' then Some (rstrip_nl ROUTE_N)
      else None)"

definition uname_field :: "char \<Rightarrow> string" where
  "uname_field flag = (case map_of UNAME_FIELDS flag of None \<Rightarrow> [] | Some t \<Rightarrow> t)"

definition uname_all :: string where
  "uname_all = join '' '' (map uname_field UNAME_ALL_FLAGS)"

text \<open>The loop over the arguments: None when one of them asks for everything.\<close>

fun uname_flags :: "string \<Rightarrow> string list \<Rightarrow> string option" where
  "uname_flags flags [] = Some flags"
| "uname_flags flags (arg # args) =
     (if arg \<in> {''-a'', ''--all''} then None
      else if startswith arg ''--'' then uname_flags flags args
      else if startswith arg ''-'' \<and> arg \<noteq> ''-'' then
        (let letters = drop 1 arg
         in if CHR ''a'' \<in> set letters then None else uname_flags (flags @ letters) args)
      else uname_flags flags args)"

definition format_uname :: "string list \<Rightarrow> string" where
  "format_uname args =
     (if args = [] then uname_field (CHR ''s'')
      else
        (case uname_flags [] args of
           None \<Rightarrow> uname_all
         | Some flags \<Rightarrow>
             if flags = [] then uname_field (CHR ''s'')
             else
               (let parts = map uname_field (filter (\<lambda>flag. map_of UNAME_FIELDS flag \<noteq> None) flags)
                in if parts = [] then uname_field (CHR ''s'') else join '' '' parts)))"

definition lookup_static_output :: "string list \<Rightarrow> string option" where
  "lookup_static_output tokens =
     (if tokens = [] then None
      else
        (case map_of STATIC_OUTPUTS tokens of
           Some exact \<Rightarrow> Some exact
         | None \<Rightarrow> lookup_static_aliases tokens))"

definition lookup_static_exit_code :: "string list \<Rightarrow> int" where
  "lookup_static_exit_code tokens =
     (case map_of STATIC_EXIT_CODES tokens of None \<Rightarrow> 0 | Some c \<Rightarrow> c)"

subsection \<open>Property\<close>

definition asks_all :: "string \<Rightarrow> bool" where
  "asks_all arg \<longleftrightarrow> arg = ''--all'' \<or>
     (startswith arg ''-'' \<and> \<not> startswith arg ''--'' \<and> CHR ''a'' \<in> set (drop 1 arg))"

lemma uname_flags_eq:
  "uname_flags flags args = (if list_ex asks_all args then None else Some (flags @ short_flags args))"
proof (induction args arbitrary: flags)
  case Nil
  then show ?case by (simp add: short_flags_def)
next
  case (Cons arg args)
  have "arg = ''-a'' \<Longrightarrow> asks_all arg" "arg = ''--all'' \<Longrightarrow> asks_all arg"
    by (simp_all add: asks_all_def startswith_def)
  moreover have "arg = ''-'' \<Longrightarrow> \<not> asks_all arg" by (simp add: asks_all_def)
  ultimately show ?case
    using Cons by (auto simp: asks_all_def short_flags_def Let_def)
qed

text \<open>
  The identity the shell shows is the identity of the filesystem: \<^verbatim>\<open>uname\<close> prints the very line
  of \<^verbatim>\<open>UNAME_A\<close> exactly when one of its arguments asks for everything, otherwise the known fields asked
  for, in order, or the kernel name; the command \<^verbatim>\<open>hostname\<close> prints the same host name.
\<close>

theorem uname_identity:
  "format_uname args =
     (if list_ex asks_all args then UNAME_A
      else
        (let fields = List.map_filter (map_of UNAME_FIELDS) (short_flags args)
         in if fields = [] then ''Linux'' else join '' '' fields)) \<and>
   lookup_static_output [''hostname''] = Some HOSTNAME"
proof (rule conjI)
  have all: "uname_all = UNAME_A" by code_simp
  have s: "uname_field (CHR ''s'') = ''Linux''" by code_simp
  have fields: "map uname_field (filter (\<lambda>flag. map_of UNAME_FIELDS flag \<noteq> None) fs) =
      List.map_filter (map_of UNAME_FIELDS) fs" for fs
    by (induction fs) (auto simp: map_filter_simps uname_field_def)
  show "format_uname args =
     (if list_ex asks_all args then UNAME_A
      else
        (let fields = List.map_filter (map_of UNAME_FIELDS) (short_flags args)
         in if fields = [] then ''Linux'' else join '' '' fields))"
  proof (cases "args = []")
    case True
    have "short_flags [] = []" by (simp add: short_flags_def)
    then show ?thesis using True by (simp add: format_uname_def s map_filter_simps)
  next
    case False
    have "short_flags args = [] \<Longrightarrow> List.map_filter (map_of UNAME_FIELDS) (short_flags args) = []"
      by (simp add: map_filter_simps)
    then show ?thesis
      using False unfolding format_uname_def uname_flags_eq fields all s by (simp add: Let_def)
  qed
  show "lookup_static_output [''hostname''] = Some HOSTNAME"
    by (simp add: lookup_static_output_def STATIC_OUTPUTS_def)
qed

end
