(* ===== verification/Shell_Parse.thy ===== *)
theory Shell_Parse
  imports Shell_Static
begin

text \<open>
  The parsing layer of \<^verbatim>\<open>src/shell.py\<close>: splitting a line into statements, conditional segments and
  pipeline stages outside quotes, \<^verbatim>\<open>shlex.split\<close> of the standard library, redirections, and the
  argument parsers of \<^verbatim>\<open>wget\<close> and \<^verbatim>\<open>curl\<close>.  A \<^verbatim>\<open>ValueError\<close> is an \<^const>\<open>Inl\<close> with its message.
\<close>

subsection \<open>Words of a command\<close>

text \<open>
  \<^verbatim>\<open>shlex.split(line, posix=True)\<close>: between words, inside a word, inside a quote, and after a backslash
  (with the state to return to).  \<^verbatim>\<open>quoted\<close> says whether the word had quotes, so that it counts even if
  it is empty.
\<close>

datatype lex_state = Between | InWord | InQuote char | EscapedWord | EscapedQuote char

definition lex_space :: "char \<Rightarrow> bool" where
  "lex_space c \<longleftrightarrow> c \<in> {CHR '' '', tab, cr, nl}"

fun shlex_run :: "lex_state \<Rightarrow> string \<Rightarrow> bool \<Rightarrow> string \<Rightarrow> string + string list" where
  "shlex_run st token quoted [] =
     (case st of
        InQuote q \<Rightarrow> Inl ''No closing quotation''
      | EscapedWord \<Rightarrow> Inl ''No escaped character''
      | EscapedQuote q \<Rightarrow> Inl ''No escaped character''
      | _ \<Rightarrow> Inr (if token \<noteq> [] \<or> quoted then [token] else []))"
| "shlex_run st token quoted (c # s) =
     (case st of
        Between \<Rightarrow>
          if lex_space c then shlex_run Between [] False s
          else if c = bslash then shlex_run EscapedWord token quoted s
          else if c \<in> {squote, dquote} then shlex_run (InQuote c) token quoted s
          else shlex_run InWord [c] quoted s
      | InQuote q \<Rightarrow>
          if c = q then shlex_run InWord token True s
          else if c = bslash \<and> q = dquote then shlex_run (EscapedQuote q) token True s
          else shlex_run (InQuote q) (token @ [c]) True s
      | EscapedWord \<Rightarrow> shlex_run InWord (token @ [c]) quoted s
      | EscapedQuote q \<Rightarrow>
          shlex_run (InQuote q) (token @ (if c \<noteq> bslash \<and> c \<noteq> q then [bslash, c] else [c])) quoted s
      | InWord \<Rightarrow>
          if lex_space c then
            (if token \<noteq> [] \<or> quoted then map_sum id (Cons token) (shlex_run Between [] False s)
             else shlex_run Between [] quoted s)
          else if c \<in> {squote, dquote} then shlex_run (InQuote c) token quoted s
          else if c = bslash then shlex_run EscapedWord token quoted s
          else shlex_run InWord (token @ [c]) quoted s)"

definition shlex_split :: "string \<Rightarrow> string + string list" where
  "shlex_split line = shlex_run Between [] False line"

text \<open>\<^verbatim>\<open>_parse_redirection\<close>: the command tokens, the redirection target and whether it appends.\<close>

fun parse_redirection_from ::
  "string list \<Rightarrow> string option \<Rightarrow> bool \<Rightarrow> string list \<Rightarrow> string + string list \<times> string option \<times> bool" where
  "parse_redirection_from command path app [] = Inr (command, path, app)"
| "parse_redirection_from command path app (token # rest) =
     (if token = ''2>'' \<and> rest \<noteq> [] then parse_redirection_from command path app (tl rest)
      else if token \<in> set STDERR_REDIRECTS \<or> startswith token ''2>'' then
        parse_redirection_from command path app rest
      else if token \<in> {''>'', ''>>''} then
        (case rest of
           [] \<Rightarrow> Inl (''bash: syntax error near unexpected token `newline'' @ [squote])
         | target # rest' \<Rightarrow> parse_redirection_from command (Some target) (token = ''>>'') rest')
      else parse_redirection_from (command @ [token]) path app rest)"

definition parse_redirection :: "string list \<Rightarrow> string + string list \<times> string option \<times> bool" where
  "parse_redirection tokens = parse_redirection_from [] None False tokens"

fun strip_prefixes :: "string list \<Rightarrow> string \<Rightarrow> string" where
  "strip_prefixes [] command = command"
| "strip_prefixes (pre # pres) command =
     (if \<not> startswith command pre then strip_prefixes pres command
      else
        (let rest = drop (length pre) command
         in if rest \<noteq> [] \<and> slash \<notin> set rest then rest else strip_prefixes pres command))"

definition strip_system_prefix :: "string \<Rightarrow> string" where
  "strip_system_prefix command = strip_prefixes SYSTEM_BIN_PREFIXES command"

definition is_explicit_path :: "string \<Rightarrow> bool" where
  "is_explicit_path command \<longleftrightarrow> slash \<in> set command"

fun extract_shell_c :: "string list \<Rightarrow> string option" where
  "extract_shell_c [] = None"
| "extract_shell_c (token # rest) =
     (if token = ''-c'' \<and> rest \<noteq> [] then Some (hd rest) else extract_shell_c rest)"

definition shell_script_operand :: "string list \<Rightarrow> string option" where
  "shell_script_operand args = List.find (\<lambda>arg. \<not> startswith arg ''-'') args"

definition ELF_MAGIC :: string where
  "ELF_MAGIC = CHR 0x7F # ''ELF''"

definition is_binary_script :: "string \<Rightarrow> bool" where
  "is_binary_script text \<longleftrightarrow>
     (if startswith text ELF_MAGIC then True
      else list_ex (\<lambda>c. (ord c < 32 \<and> c \<notin> {tab, nl, cr}) \<or> ord c = 127) text)"

subsection \<open>Operators outside quotes\<close>

text \<open>\<^verbatim>\<open>command = "".join(buf).strip(); if command: fragments.append((incoming, command))\<close>\<close>

definition flush :: "string \<Rightarrow> string \<Rightarrow> (string \<times> string) list \<Rightarrow> (string \<times> string) list" where
  "flush incoming buf rest =
     (let command = strip_ws buf in if command \<noteq> [] then (incoming, command) # rest else rest)"

fun split_from ::
  "string list \<Rightarrow> char option \<Rightarrow> string \<Rightarrow> string \<Rightarrow> string \<Rightarrow> (string \<times> string) list" where
  "split_from seps quote buf incoming [] = flush incoming buf []"
| "split_from seps quote buf incoming (c # s) =
     (if quote = None \<and> c = bslash then
        (case s of
           [] \<Rightarrow> split_from seps quote (buf @ [c]) incoming []
         | d # s' \<Rightarrow> split_from seps quote (buf @ [c, d]) incoming s')
      else if quote \<noteq> None then
        split_from seps (if quote = Some c then None else quote) (buf @ [c]) incoming s
      else if c \<in> {squote, dquote} then split_from seps (Some c) (buf @ [c]) incoming s
      else
        (case List.find (\<lambda>sep. startswith (c # s) sep) seps of
           Some sep \<Rightarrow> flush incoming buf (split_from seps quote [] sep (drop (length sep - 1) s))
         | None \<Rightarrow> split_from seps quote (buf @ [c]) incoming s))"

definition split_operators :: "string \<Rightarrow> string list \<Rightarrow> (string \<times> string) list" where
  "split_operators line operators =
     split_from (sort_key (\<lambda>op. - int (length op)) operators) None [] [] line"

record chain_segment =
  seg_command :: string
  seg_operator :: string

definition split_statements :: "string \<Rightarrow> string list" where
  "split_statements line = map snd (split_operators line ['';''])"

definition split_conditionals :: "string \<Rightarrow> chain_segment list" where
  "split_conditionals line =
     map (\<lambda>(op, command). \<lparr>seg_command = command, seg_operator = op\<rparr>)
       (split_operators line [''&&'', ''||''])"

fun split_pipes :: "char option \<Rightarrow> string \<Rightarrow> string \<Rightarrow> string list" where
  "split_pipes quote buf [] = (let stage = strip_ws buf in if stage \<noteq> [] then [stage] else [])"
| "split_pipes quote buf (c # s) =
     (if quote = None \<and> c = bslash then
        (case s of
           [] \<Rightarrow> split_pipes quote (buf @ [c]) []
         | d # s' \<Rightarrow> split_pipes quote (buf @ [c, d]) s')
      else if quote \<noteq> None then
        split_pipes (if quote = Some c then None else quote) (buf @ [c]) s
      else if c \<in> {squote, dquote} then split_pipes (Some c) (buf @ [c]) s
      else if c = CHR ''|'' \<and> \<not> startswith s ''|'' then
        (let stage = strip_ws buf; rest = split_pipes quote [] s
         in if stage \<noteq> [] then stage # rest else rest)
      else split_pipes quote (buf @ [c]) s)"

definition split_pipeline :: "string \<Rightarrow> string list" where
  "split_pipeline line = split_pipes None [] line"

subsection \<open>Download arguments\<close>

text \<open>\<^verbatim>\<open>arg.split("=", 1)[1]\<close>\<close>

definition after_equals :: "string \<Rightarrow> string" where
  "after_equals arg = snd (snd (partition_on (CHR ''='') arg))"

fun parse_wget_from :: "string option \<Rightarrow> string option \<Rightarrow> string list \<Rightarrow> string option \<times> string option" where
  "parse_wget_from url output [] = (url, output)"
| "parse_wget_from url output (arg # args) =
     (if arg \<in> {''-O'', ''--output-document''} then
        (case args of
           [] \<Rightarrow> parse_wget_from url output []
         | target # args' \<Rightarrow> parse_wget_from url (Some target) args')
      else if startswith arg ''--output-document='' then parse_wget_from url (Some (after_equals arg)) args
      else if startswith arg ''-'' \<and> arg \<noteq> ''-'' then parse_wget_from url output args
      else parse_wget_from (if url = None then Some arg else url) output args)"

definition parse_wget_args :: "string list \<Rightarrow> string option \<times> string option" where
  "parse_wget_args args = parse_wget_from None None args"

record curl_args =
  curl_url :: "string option"
  curl_output_path :: "string option"
  curl_remote_name :: bool
  curl_silent :: bool

fun parse_curl_from :: "curl_args \<Rightarrow> string list \<Rightarrow> curl_args" where
  "parse_curl_from p [] = p"
| "parse_curl_from p (arg # args) =
     (if arg \<in> {''-s'', ''--silent'', ''-sS''} then parse_curl_from (p\<lparr>curl_silent := True\<rparr>) args
      else if arg \<in> {''-O'', ''--remote-name''} then parse_curl_from (p\<lparr>curl_remote_name := True\<rparr>) args
      else if arg \<in> {''-o'', ''--output''} then
        (case args of
           [] \<Rightarrow> parse_curl_from p []
         | target # args' \<Rightarrow> parse_curl_from (p\<lparr>curl_output_path := Some target\<rparr>) args')
      else if startswith arg ''--output='' then
        parse_curl_from (p\<lparr>curl_output_path := Some (after_equals arg)\<rparr>) args
      else if startswith arg ''-o'' \<and> arg \<noteq> ''-o'' then
        parse_curl_from (p\<lparr>curl_output_path := Some (drop 2 arg)\<rparr>) args
      else if startswith arg ''-'' \<and> arg \<noteq> ''-'' then
        (let flags = drop 1 arg;
             p = (if CHR ''s'' \<in> set flags then p\<lparr>curl_silent := True\<rparr> else p);
             p = (if CHR ''O'' \<in> set flags then p\<lparr>curl_remote_name := True\<rparr> else p)
         in parse_curl_from p args)
      else parse_curl_from (if curl_url p = None then p\<lparr>curl_url := Some arg\<rparr> else p) args)"

definition parse_curl_args :: "string list \<Rightarrow> curl_args" where
  "parse_curl_args args =
     parse_curl_from \<lparr>curl_url = None, curl_output_path = None, curl_remote_name = False,
       curl_silent = False\<rparr> args"

subsection \<open>Outputs\<close>

definition ensure_trailing_newline :: "string \<Rightarrow> string" where
  "ensure_trailing_newline text =
     (if text \<noteq> [] \<and> \<not> endswith text [nl] then text @ [nl] else text)"

definition join_outputs :: "string list \<Rightarrow> string" where
  "join_outputs chunks =
     fold (\<lambda>chunk merged.
       if chunk = [] then merged
       else (if merged \<noteq> [] \<and> \<not> endswith merged [nl] then merged @ [nl] else merged) @ chunk) chunks []"

end
