(* ===== verification/Sinkhole.thy ===== *)
theory Sinkhole
  imports Prelude
begin

text \<open>
  \<^verbatim>\<open>src/sinkhole.py\<close>, with the part of \<^verbatim>\<open>datetime\<close> and \<^verbatim>\<open>urllib.parse\<close> it and the shell use.  Instants
  are microseconds since the epoch, in UTC.  The host's quarantine directory is a map from digest to
  bytes.  The digests, the UTF-8 decoding of percent escapes (whose result may leave the character
  range of the model) and the check of a bracketed host are arguments.
\<close>

subsection \<open>Dates\<close>

definition civil :: "int \<Rightarrow> int \<times> int \<times> int" where
  "civil t =
     (let z = t div 86400000000 + 719468;
          era = z div 146097;
          doe = z - era * 146097;
          yoe = (doe - doe div 1460 + doe div 36524 - doe div 146096) div 365;
          doy = doe - (365 * yoe + yoe div 4 - yoe div 100);
          mp = (5 * doy + 2) div 153;
          d = doy - (153 * mp + 2) div 5 + 1;
          m = (if mp < 10 then mp + 3 else mp - 9)
      in (yoe + era * 400 + (if m \<le> 2 then 1 else 0), m, d))"

definition clock_time :: "int \<Rightarrow> int \<times> int \<times> int \<times> int" where
  "clock_time t =
     (let s = t div 1000000 in (s div 3600 mod 24, s div 60 mod 60, s mod 60, t mod 1000000))"

definition two :: "int \<Rightarrow> string" where
  "two n = zfill 2 (str_int n)"

definition iso_date :: "int \<Rightarrow> string" where
  "iso_date t = (case civil t of (y, m, d) \<Rightarrow> zfill 4 (str_int y) @ ''-'' @ two m @ ''-'' @ two d)"

definition hms :: "int \<Rightarrow> string" where
  "hms t = (case clock_time t of (h, mi, s, us) \<Rightarrow> two h @ '':'' @ two mi @ '':'' @ two s)"

text \<open>\<^verbatim>\<open>datetime.now(timezone.utc).isoformat().replace("+00:00", "Z")\<close>\<close>

definition iso_utc_now :: "int \<Rightarrow> string" where
  "iso_utc_now now =
     (case clock_time now of (h, mi, s, us) \<Rightarrow>
        iso_date now @ ''T'' @ hms now @
        (if us = 0 then [] else ''.'' @ zfill 6 (str_int us)) @ ''Z'')"

subsection \<open>URLs\<close>

record url_parts =
  url_scheme :: string
  url_netloc :: string
  url_path :: string

definition C0_OR_SPACE :: "char \<Rightarrow> bool" where
  "C0_OR_SPACE c \<longleftrightarrow> ord c \<le> 32"

definition is_ascii_alpha :: "char \<Rightarrow> bool" where
  "is_ascii_alpha c \<longleftrightarrow> (65 \<le> ord c \<and> ord c \<le> 90) \<or> (97 \<le> ord c \<and> ord c \<le> 122)"

definition scheme_char :: "char \<Rightarrow> bool" where
  "scheme_char c \<longleftrightarrow> is_ascii_alpha c \<or> (48 \<le> ord c \<and> ord c \<le> 57) \<or> c \<in> set ''+-.''"

definition split_scheme :: "string \<Rightarrow> string \<times> string" where
  "split_scheme url =
     (let (h, found, t) = partition_on (CHR '':'') url in
      if found \<and> h \<noteq> [] \<and> is_ascii_alpha (hd url) \<and> list_all scheme_char h then (lower h, t)
      else ([], url))"

definition USES_PARAMS :: "string list" where
  "USES_PARAMS = ['''', ''ftp'', ''hdl'', ''prospero'', ''http'', ''imap'', ''https'', ''shttp'', ''rtsp'',
     ''rtsps'', ''rtspu'', ''sip'', ''sips'', ''mms'', ''sftp'', ''tel'']"

text \<open>
  \<^verbatim>\<open>_splitparams\<close>: the parameters of the last path segment are cut off at its first semicolon.
\<close>

definition split_params :: "string \<Rightarrow> string" where
  "split_params url =
     (if slash \<in> set url then
        rpartition_head slash url @ [slash] @ fst (partition_on (CHR '';'') (rsplit_last slash url))
      else fst (partition_on (CHR '';'') url))"

text \<open>
  \<^verbatim>\<open>urlparse(url)\<close>, as far as scheme, network location and path go; unbalanced brackets in the
  network location, or a bracketed host that \<^verbatim>\<open>bracket_ok\<close> rejects, raise \<^verbatim>\<open>ValueError\<close>.
\<close>

definition urlparse :: "(string \<Rightarrow> bool) \<Rightarrow> string \<Rightarrow> string + url_parts" where
  "urlparse bracket_ok url =
     (let url = filter (\<lambda>c. c \<notin> {tab, cr, nl}) (lstrip C0_OR_SPACE url);
          (scheme, url) = split_scheme url;
          (netloc, url) =
            (if startswith url ''//'' then
               (takeWhile (\<lambda>c. c \<notin> set ''/?#'') (drop 2 url), dropWhile (\<lambda>c. c \<notin> set ''/?#'') (drop 2 url))
             else ([], url));
          opened = CHR ''['' \<in> set netloc; closed = CHR '']'' \<in> set netloc
      in if opened \<noteq> closed then Inl ''Invalid IPv6 URL''
         else if opened \<and> closed \<and> \<not> bracket_ok
             (fst (partition_on (CHR '']'') (snd (snd (partition_on (CHR ''['') netloc)))))
         then Inl ''bracketed host''
         else
           (let url = fst (partition_on (CHR ''#'') url);
                url = fst (partition_on (CHR ''?'') url);
                path = (if scheme \<in> set USES_PARAMS \<and> CHR '';'' \<in> set url then split_params url else url)
            in Inr \<lparr>url_scheme = scheme, url_netloc = netloc, url_path = path\<rparr>))"

text \<open>The properties \<^verbatim>\<open>hostname\<close> and \<^verbatim>\<open>port\<close> of the result; the second one raises \<^verbatim>\<open>ValueError\<close>.\<close>

definition hostinfo :: "url_parts \<Rightarrow> string \<times> string" where
  "hostinfo u =
     (let info = snd (snd (rpartition_on (CHR ''@'') (url_netloc u)));
          (front, opened, bracketed) = partition_on (CHR ''['') info
      in if opened then
           (let (host, closed, rest) = partition_on (CHR '']'') bracketed
            in (host, snd (snd (partition_on (CHR '':'') rest))))
         else (let (host, found, port) = partition_on (CHR '':'') info in (host, port)))"

definition url_hostname :: "url_parts \<Rightarrow> string option" where
  "url_hostname u =
     (let host = fst (hostinfo u) in
      if host = [] then None
      else
        (let (h, percent, zone) = partition_on (CHR ''%'') host
         in Some (lower h @ (if percent then ''%'' else []) @ zone)))"

definition url_port :: "url_parts \<Rightarrow> string + int option" where
  "url_port u =
     (let port = snd (hostinfo u) in
      if port = [] then Inr None
      else if \<not> list_all (\<lambda>c. 48 \<le> ord c \<and> ord c \<le> 57) port \<or> length port > 4300
      then Inl ''Port could not be cast to integer value''
      else
        (let n = foldl (\<lambda>n c. 10 * n + (ord c - 48)) 0 port
         in if n > 65535 then Inl ''Port out of range 0-65535'' else Inr (Some n)))"

definition hex_value :: "char \<Rightarrow> nat option" where
  "hex_value c =
     (if 48 \<le> ord c \<and> ord c \<le> 57 then Some (of_char c - 48)
      else if 65 \<le> ord c \<and> ord c \<le> 70 then Some (of_char c - 55)
      else if 97 \<le> ord c \<and> ord c \<le> 102 then Some (of_char c - 87)
      else None)"

text \<open>\<^verbatim>\<open>unquote_to_bytes\<close> on an ASCII run, and \<^verbatim>\<open>unquote\<close>, which decodes each such run as UTF-8.\<close>

fun unquote_bytes :: "string \<Rightarrow> string" where
  "unquote_bytes (p # a # b # s) =
     (if p = CHR ''%'' then
        (case (hex_value a, hex_value b) of
           (Some x, Some y) \<Rightarrow> char_of (16 * x + y) # unquote_bytes s
         | _ \<Rightarrow> p # unquote_bytes (a # b # s))
      else p # unquote_bytes (a # b # s))"
| "unquote_bytes s = s"

definition decode_run :: "(string \<Rightarrow> string) \<Rightarrow> string \<Rightarrow> string" where
  "decode_run decode run = (if run = [] then [] else decode (unquote_bytes (rev run)))"

fun unquote :: "(string \<Rightarrow> string) \<Rightarrow> string \<Rightarrow> string \<Rightarrow> string" where
  "unquote decode run [] = decode_run decode run"
| "unquote decode run (c # s) =
     (if ord c < 128 then unquote decode (c # run) s
      else decode_run decode run @ [c] @ unquote decode [] s)"

definition filename_from_url :: "(string \<Rightarrow> bool) \<Rightarrow> (string \<Rightarrow> string) \<Rightarrow> string \<Rightarrow> string + string" where
  "filename_from_url bracket_ok decode url =
     (case urlparse bracket_ok url of
        Inl e \<Rightarrow> Inl e
      | Inr u \<Rightarrow>
          (let path = (if CHR ''%'' \<in> set (url_path u) then unquote decode [] (url_path u) else url_path u);
               name = rsplit_last slash path
           in Inr (if name \<noteq> [] then name else ''index.html'')))"

subsection \<open>Quarantine\<close>

definition mocked_payload :: "string \<Rightarrow> string \<Rightarrow> string \<Rightarrow> string" where
  "mocked_payload url client_ip timestamp =
     ''#!/bin/sh'' @ [nl] @
     ''# Captured payload placeholder'' @ [nl] @
     ''# Source: '' @ url @ [nl] @
     ''# Client: '' @ client_ip @ [nl] @
     ''# Timestamp: '' @ timestamp @ [nl]"

record artifact =
  art_filename :: string
  art_sha256 :: string
  art_md5 :: string
  art_size_bytes :: int
  art_client_ip :: string
  art_source_url :: string
  art_timestamp :: string

type_synonym quarantine = "(string \<times> string) list"

text \<open>None is the \<^verbatim>\<open>OSError\<close> of the host's disk.\<close>

definition quarantine_artifact ::
  "(string \<Rightarrow> string) \<Rightarrow> (string \<Rightarrow> string) \<Rightarrow> bool \<Rightarrow> int \<Rightarrow> string \<Rightarrow> string \<Rightarrow> string \<Rightarrow> string \<Rightarrow>
   quarantine \<Rightarrow> artifact option \<times> quarantine" where
  "quarantine_artifact sha256 md5 io_ok now filename text client_ip source_url q =
     (let data = utf8_encode text; digest = sha256 data in
      if \<not> io_ok then (None, q)
      else
        (Some \<lparr>art_filename = filename, art_sha256 = digest, art_md5 = md5 data,
           art_size_bytes = int (length data), art_client_ip = client_ip,
           art_source_url = source_url, art_timestamp = iso_utc_now now\<rparr>,
         AList.update digest data q))"

lemma length_utf8_encode: "int (length (utf8_encode s)) = utf8_size s"
  by (induction s) (auto simp: utf8_encode_def utf8_size_def)

end
