(* ===== verification/Shell_State.thy ===== *)
theory Shell_State
  imports Vfs_Properties Shell_Parse Sinkhole Llm_Properties
begin

text \<open>
  The state of a \<^verbatim>\<open>Shell\<close> object of \<^verbatim>\<open>src/shell.py\<close>, the results of commands, the exceptions that
  leave a command, and the host around it.  The record \<^verbatim>\<open>host\<close> collects what the shell asks of its
  environment: the clock, the measured durations, the success of disk writes and the language model
  provider, and the nested calls the interpreter still allows to the recursions on the data (the removal
  of a directory tree and the JSON reader), each indexed by the number of the request (\<^verbatim>\<open>sh_tick\<close>
  counts them), and the library
  functions that are arguments of the model: digests, UTF-8 decoding, the check of bracketed hosts, the
  rendering of characters beyond U+00FF and the regular expressions of \<^verbatim>\<open>grep\<close>.
\<close>

subsection \<open>Environment\<close>

text \<open>\<^verbatim>\<open>re.compile\<close>: \<^verbatim>\<open>re.error\<close>, an exception of another class, or the search function.\<close>

datatype regex_result = RegexError | RegexOverflow | RegexOk "string \<Rightarrow> bool"

record host =
  h_now :: "nat \<Rightarrow> int"
  h_duration :: "nat \<Rightarrow> string"
  h_log_ok :: "nat \<Rightarrow> bool"
  h_quarantine_ok :: "nat \<Rightarrow> bool"
  h_provider :: "nat \<Rightarrow> llm_provider"
  h_stack :: "nat \<Rightarrow> nat"
  h_sha256 :: "string \<Rightarrow> string"
  h_md5 :: "string \<Rightarrow> string"
  h_decode :: "string \<Rightarrow> string"
  h_bracket_ok :: "string \<Rightarrow> bool"
  h_wide :: "nat \<Rightarrow> string"
  h_regex :: "bool \<Rightarrow> string \<Rightarrow> regex_result"

definition hexdigest :: "string \<Rightarrow> string" where
  "hexdigest bytes =
     concat (map (\<lambda>b. [hex_digit (of_char b div 16), hex_digit (of_char b mod 16)]) bytes)"

text \<open>
  Exceptions that no handler of the shell catches.  The constant \<^verbatim>\<open>RecursionError\<close> is the one of the
  executor that calls itself; the recursions of the filesystem and of the JSON reader raise theirs as
  \<^verbatim>\<open>UncaughtVfs VFSRecursionError\<close> and \<^verbatim>\<open>UncaughtLlm LlmRecursionError\<close>.
\<close>

datatype py_exn =
    UncaughtValueError string
  | UncaughtOverflowError
  | UncaughtVfs vfs_error
  | UncaughtLlm llm_error
  | RecursionError

subsection \<open>State and results\<close>

record command_result =
  cr_output :: string
  cr_exit_session :: bool
  cr_exit_code :: int
  cr_path :: string

definition CommandResult :: "string \<Rightarrow> int \<Rightarrow> command_result" where
  "CommandResult output code =
     \<lparr>cr_output = output, cr_exit_session = False, cr_exit_code = code, cr_path = ''vfs''\<rparr>"

definition result_ok :: "command_result \<Rightarrow> bool" where
  "result_ok r \<longleftrightarrow> cr_exit_code r = 0"

definition fail_code :: "string \<Rightarrow> int \<Rightarrow> command_result" where
  "fail_code output code = CommandResult (ensure_trailing_newline output) code"

abbreviation fail :: "string \<Rightarrow> command_result" where
  "fail output \<equiv> fail_code output 1"

definition not_found_result :: "string \<Rightarrow> command_result" where
  "not_found_result command_name = fail_code (format_command_not_found command_name) 127"

text \<open>
  \<^verbatim>\<open>sh_ip_cwd\<close> is the \<^verbatim>\<open>cwd\<close> field of the attached IP session, if there is one.  \<^verbatim>\<open>sh_llm_calls\<close> are the
  argument vectors sent to the provider, \<^verbatim>\<open>sh_logs\<close> and \<^verbatim>\<open>sh_quarantine\<close> what was written to the disk of
  the host.
\<close>

record shell =
  sh_vfs :: vfs
  sh_cwd :: string
  sh_oldpwd :: "string option"
  sh_home :: string
  sh_last_exit_code :: int
  sh_ip_cwd :: "string option"
  sh_llm_cache :: "(string \<times> string) list"
  sh_session_id :: string
  sh_client_ip :: string
  sh_captured_artifacts :: "string list"
  sh_command_extra :: "(string \<times> json) list"
  sh_script_depth :: int
  sh_logs :: logs
  sh_quarantine :: quarantine
  sh_llm_calls :: "string list list"
  sh_tick :: nat

type_synonym 'a run = "(py_exn + 'a) \<times> shell"

text \<open>
  \<^verbatim>\<open>Shell.__init__\<close>, with the state given or built from the start directory: the \<^verbatim>\<open>cwd\<close> argument, else
  the one of the IP session, else the home of the filesystem.
\<close>

definition Shell ::
  "vfs \<Rightarrow> (string \<times> string) list \<Rightarrow> string \<Rightarrow> string \<Rightarrow> string option \<Rightarrow> string option \<Rightarrow> shell" where
  "Shell v llm_cache session_id client_ip cwd ip_cwd =
     (let start_cwd = (case cwd of Some d \<Rightarrow> d
            | None \<Rightarrow> (case ip_cwd of Some d \<Rightarrow> d | None \<Rightarrow> vfs_home v))
      in \<lparr>sh_vfs = v, sh_cwd = start_cwd, sh_oldpwd = None, sh_home = vfs_home v,
          sh_last_exit_code = 0, sh_ip_cwd = ip_cwd, sh_llm_cache = llm_cache,
          sh_session_id = session_id, sh_client_ip = client_ip, sh_captured_artifacts = [],
          sh_command_extra = [], sh_script_depth = 0, sh_logs = [], sh_quarantine = [],
          sh_llm_calls = [], sh_tick = 0\<rparr>)"

definition prompt :: "shell \<Rightarrow> string" where
  "prompt s =
     (let shown = (if sh_cwd s = sh_home s then ''~'' else sh_cwd s)
      in ''root@'' @ HOSTNAME @ '':'' @ shown @ ''# '')"

subsection \<open>Calls to the filesystem and the quarantine\<close>

definition tick :: "shell \<Rightarrow> shell" where
  "tick s = s\<lparr>sh_tick := sh_tick s + 1\<rparr>"

definition vfs_call :: "host \<Rightarrow> (int \<Rightarrow> vfs \<Rightarrow> 'a outcome) \<Rightarrow> shell \<Rightarrow> (vfs_error + 'a) \<times> shell" where
  "vfs_call h f s =
     (let (r, v) = f (h_now h (sh_tick s)) (sh_vfs s) in (r, tick (s\<lparr>sh_vfs := v\<rparr>)))"

definition quarantine_file :: "host \<Rightarrow> string \<Rightarrow> string \<Rightarrow> string \<Rightarrow> shell \<Rightarrow> shell" where
  "quarantine_file h filename text source_url s =
     (let (meta, q) = quarantine_artifact (\<lambda>b. hexdigest (h_sha256 h b)) (\<lambda>b. hexdigest (h_md5 h b))
            (h_quarantine_ok h (sh_tick s)) (h_now h (sh_tick s)) filename text (sh_client_ip s)
            source_url (sh_quarantine s);
          s = tick (s\<lparr>sh_quarantine := q\<rparr>)
      in case meta of
           None \<Rightarrow> s
         | Some m \<Rightarrow>
             if art_sha256 m \<noteq> [] then s\<lparr>sh_captured_artifacts := sh_captured_artifacts s @ [art_sha256 m]\<rparr>
             else s)"

text \<open>\<^verbatim>\<open>path.rstrip("/").rsplit("/", 1)[-1]\<close>\<close>

definition base_name :: "string \<Rightarrow> string" where
  "base_name path = rsplit_last slash (rstrip (\<lambda>c. c = slash) path)"

definition or_else :: "string \<Rightarrow> string \<Rightarrow> string" where
  "or_else a b = (if a \<noteq> [] then a else b)"

definition quoted :: "string \<Rightarrow> string" where
  "quoted s = [squote] @ s @ [squote]"

end
