(* ===== verification/Shell_Commands.thy ===== *)
theory Shell_Commands
  imports Shell_State
begin

text \<open>
  The command handlers of the class \<^verbatim>\<open>Shell\<close> of \<^verbatim>\<open>src/shell.py\<close>: each takes the arguments (and the
  standard input where the code passes it) and the state, and returns a result or an uncaught
  exception with the state afterwards.
\<close>

unbundle bit_operations_syntax

subsection \<open>Navigation\<close>

definition cmd_pwd :: "string list \<Rightarrow> shell \<Rightarrow> command_result run" where
  "cmd_pwd args s = (Inr (CommandResult (sh_cwd s) 0), s)"

definition cmd_cd :: "string list \<Rightarrow> shell \<Rightarrow> command_result run" where
  "cmd_cd args s =
     (if length args > 1 then (Inr (fail ''bash: cd: too many arguments''), s)
      else if args \<noteq> [] \<and> hd args = ''-'' \<and> sh_oldpwd s = None then
        (Inr (fail ''bash: cd: OLDPWD not set''), s)
      else
        (let announce = (args \<noteq> [] \<and> hd args = ''-'');
             raw = (if announce then the (sh_oldpwd s) else if args \<noteq> [] then hd args else sh_home s);
             target = (if announce then the (sh_oldpwd s) else canonicalize raw (sh_cwd s) (sh_home s))
         in case resolve (sh_vfs s) target (sh_cwd s) of
              Inl (FileNotFoundError _) \<Rightarrow>
                (Inr (fail (''bash: cd: '' @ raw @ '': No such file or directory'')), s)
            | Inl (NotADirectoryError _) \<Rightarrow>
                (Inr (fail (''bash: cd: '' @ raw @ '': Not a directory'')), s)
            | Inl e \<Rightarrow> (Inl (UncaughtVfs e), s)
            | Inr node \<Rightarrow>
                if \<not> is_directory node then (Inr (fail (''bash: cd: '' @ raw @ '': Not a directory'')), s)
                else
                  (Inr (CommandResult (if announce then target else []) 0),
                   s\<lparr>sh_oldpwd := Some (sh_cwd s), sh_cwd := target,
                     sh_ip_cwd := map_option (\<lambda>_. target) (sh_ip_cwd s)\<rparr>)))"

subsection \<open>Listings\<close>

definition ls_blocks :: "vnode \<Rightarrow> int" where
  "ls_blocks node = (node_size node + 1023) div 1024"

definition perm_bit :: "int \<Rightarrow> nat \<Rightarrow> char \<Rightarrow> char" where
  "perm_bit md n c = (if bit md n then c else CHR ''-'')"

definition special :: "bool \<Rightarrow> char \<Rightarrow> char \<Rightarrow> char \<Rightarrow> char" where
  "special on low high c = (if on then (if c = CHR ''x'' then low else high) else c)"

definition perm_string :: "int \<Rightarrow> string" where
  "perm_string md =
     [perm_bit md 8 (CHR ''r''), perm_bit md 7 (CHR ''w''),
      special (bit md 11) (CHR ''s'') (CHR ''S'') (perm_bit md 6 (CHR ''x'')),
      perm_bit md 5 (CHR ''r''), perm_bit md 4 (CHR ''w''),
      special (bit md 10) (CHR ''s'') (CHR ''S'') (perm_bit md 3 (CHR ''x'')),
      perm_bit md 2 (CHR ''r''), perm_bit md 1 (CHR ''w''),
      special (bit md 9) (CHR ''t'') (CHR ''T'') (perm_bit md 0 (CHR ''x''))]"

definition MONTHS :: "string list" where
  "MONTHS = [''Jan'', ''Feb'', ''Mar'', ''Apr'', ''May'', ''Jun'', ''Jul'', ''Aug'', ''Sep'', ''Oct'', ''Nov'', ''Dec'']"

definition LS_SIX_MONTHS :: int where
  "LS_SIX_MONTHS = 183 * 86400 * 1000000"

definition ls_mtime :: "int \<Rightarrow> int \<Rightarrow> string" where
  "ls_mtime now mtime =
     (case civil mtime of (y, m, d) \<Rightarrow>
        (let day = MONTHS ! nat (m - 1) @ '' '' @ rjust 2 (str_int d) @ '' '' in
         if \<bar>now - mtime\<bar> < LS_SIX_MONTHS
         then day @ (case clock_time mtime of (h, mi, s, us) \<Rightarrow> two h @ '':'' @ two mi)
         else day @ '' '' @ str_int y))"

record ls_fields =
  lf_mode :: string
  lf_nlink :: string
  lf_owner :: string
  lf_group :: string
  lf_size :: string
  lf_mtime :: string

definition ls_long_fields :: "int \<Rightarrow> vnode \<Rightarrow> ls_fields" where
  "ls_long_fields now node =
     \<lparr>lf_mode = ls_kind node @ perm_string (ino_mode (node_meta node)),
      lf_nlink = str_nat (nlink node), lf_owner = ino_owner (node_meta node),
      lf_group = ino_group (node_meta node), lf_size = str_int (node_size node),
      lf_mtime = ls_mtime now (ino_mtime (node_meta node))\<rparr>"

definition width :: "string list \<Rightarrow> nat" where
  "width xs = (if xs = [] then 1 else Max (set (map length xs)))"

definition ls_entries :: "vnode \<Rightarrow> vnode \<Rightarrow> bool \<Rightarrow> (string \<times> vnode) list" where
  "ls_entries dir_node parent show_all =
     sort_key fst
       ((if show_all then [(''.'', dir_node), (''..'', parent)] else []) @
        filter (\<lambda>(nm, child). show_all \<or> \<not> startswith nm ''.'') (dir_children dir_node))"

definition ls_row :: "nat \<Rightarrow> nat \<Rightarrow> nat \<Rightarrow> nat \<Rightarrow> string \<times> ls_fields \<Rightarrow> string" where
  "ls_row nlink_w owner_w group_w size_w = (\<lambda>(nm, f).
     lf_mode f @ '' '' @ rjust nlink_w (lf_nlink f) @ '' '' @ ljust owner_w (lf_owner f) @ '' '' @
     ljust group_w (lf_group f) @ '' '' @ rjust size_w (lf_size f) @ '' '' @ lf_mtime f @ '' '' @ nm)"

text \<open>Each row reads the clock; the number of readings is returned with the listing.\<close>

definition format_ls_dir ::
  "host \<Rightarrow> shell \<Rightarrow> vnode \<Rightarrow> string \<Rightarrow> bool \<Rightarrow> bool \<Rightarrow> vfs_error + string \<times> nat" where
  "format_ls_dir h s dir_node abs_path long_fmt show_all =
     (case (if show_all then resolve (sh_vfs s) (parent_path abs_path) ''/'' else Inr dir_node) of
        Inl e \<Rightarrow> Inl e
      | Inr parent \<Rightarrow>
          (let entries = ls_entries dir_node parent show_all in
           if \<not> long_fmt then Inr (join ''  '' (map fst entries), 0)
           else
             (let blocks = sum_list (map (\<lambda>(nm, node). ls_blocks node) entries);
                  rows = map (\<lambda>(i, nm, node). (nm, ls_long_fields (h_now h (sh_tick s + i)) node)) (enumerate 0 entries);
                  nlink_w = width (map (\<lambda>(nm, f). lf_nlink f) rows);
                  owner_w = width (map (\<lambda>(nm, f). lf_owner f) rows);
                  group_w = width (map (\<lambda>(nm, f). lf_group f) rows);
                  size_w = width (map (\<lambda>(nm, f). lf_size f) rows);
                  lines = (''total '' @ str_int blocks) # map (ls_row nlink_w owner_w group_w size_w) rows
              in Inr (join [nl] lines, length rows))))"

definition format_ls_file :: "host \<Rightarrow> shell \<Rightarrow> vnode \<Rightarrow> string \<Rightarrow> bool \<Rightarrow> string" where
  "format_ls_file h s node display long_fmt =
     (if long_fmt then
        (let f = ls_long_fields (h_now h (sh_tick s)) node
         in lf_mode f @ '' '' @ lf_nlink f @ '' '' @ lf_owner f @ '' '' @ lf_group f @ '' '' @
            lf_size f @ '' '' @ lf_mtime f @ '' '' @ display)
      else or_else (base_name display) display)"

definition is_option :: "string \<Rightarrow> bool" where
  "is_option arg \<longleftrightarrow> startswith arg ''-'' \<and> arg \<noteq> ''-''"

definition cmd_ls :: "host \<Rightarrow> string list \<Rightarrow> shell \<Rightarrow> command_result run" where
  "cmd_ls h args s =
     (let opts = filter is_option args;
          long_fmt = list_ex (\<lambda>a. CHR ''l'' \<in> set (drop 1 a)) opts;
          show_all = list_ex (\<lambda>a. CHR ''a'' \<in> set (drop 1 a)) opts;
          paths = filter (\<lambda>a. \<not> is_option a) args;
          target = (if paths \<noteq> [] then hd paths else ''.'');
          display = (if paths \<noteq> [] then target else sh_cwd s)
      in case resolve (sh_vfs s) target (sh_cwd s) of
           Inl (FileNotFoundError _) \<Rightarrow>
             (Inr (fail (''ls: cannot access '' @ quoted target @ '': No such file or directory'')), s)
         | Inl (NotADirectoryError _) \<Rightarrow>
             (Inr (fail (''ls: cannot access '' @ quoted target @ '': Not a directory'')), s)
         | Inl e \<Rightarrow> (Inl (UncaughtVfs e), s)
         | Inr node \<Rightarrow>
             if is_directory node then
               (case format_ls_dir h s node (canonicalize target (sh_cwd s) (sh_home s)) long_fmt show_all of
                  Inl e \<Rightarrow> (Inl (UncaughtVfs e), s)
                | Inr (out, n) \<Rightarrow> (Inr (CommandResult out 0), s\<lparr>sh_tick := sh_tick s + n\<rparr>))
             else (Inr (CommandResult (format_ls_file h s node display long_fmt) 0), tick s))"

subsection \<open>Reading\<close>

definition read_error :: "string \<Rightarrow> string \<Rightarrow> vfs_error \<Rightarrow> string option" where
  "read_error cmd path e =
     (case e of
        FileNotFoundError _ \<Rightarrow> Some (cmd @ '': '' @ path @ '': No such file or directory'' @ [nl])
      | IsADirectoryError _ \<Rightarrow> Some (cmd @ '': '' @ path @ '': Is a directory'' @ [nl])
      | NotADirectoryError _ \<Rightarrow> Some (cmd @ '': '' @ path @ '': Not a directory'' @ [nl])
      | _ \<Rightarrow> None)"

text \<open>The loop of \<^verbatim>\<open>cat\<close>: the chunks, and whether one of them is an error message.\<close>

fun cat_paths :: "shell \<Rightarrow> string list \<Rightarrow> string \<Rightarrow> bool \<Rightarrow> py_exn + string \<times> bool" where
  "cat_paths s [] out failed = Inr (out, failed)"
| "cat_paths s (path # paths) out failed =
     (case read_file (sh_vfs s) path (sh_cwd s) of
        Inr text \<Rightarrow> cat_paths s paths (out @ text) failed
      | Inl e \<Rightarrow>
          (case read_error ''cat'' path e of
             None \<Rightarrow> Inl (UncaughtVfs e)
           | Some m \<Rightarrow> cat_paths s paths (out @ m) True))"

definition cmd_cat :: "string list \<Rightarrow> string \<Rightarrow> shell \<Rightarrow> command_result run" where
  "cmd_cat args stdin s =
     (if args = [] then (Inr (CommandResult stdin 0), s)
      else
        (case cat_paths s args [] False of
           Inl e \<Rightarrow> (Inl e, s)
         | Inr (out, failed) \<Rightarrow> (Inr (CommandResult out (if failed then 1 else 0)), s)))"

record grep_args =
  ga_ignore_case :: bool
  ga_pattern :: "string option"
  ga_files :: "string list"

definition grep_arg :: "string \<Rightarrow> grep_args \<Rightarrow> grep_args" where
  "grep_arg arg g =
     (if arg \<in> {''-i'', ''--ignore-case''} then g\<lparr>ga_ignore_case := True\<rparr>
      else if startswith arg ''--'' then g
      else if is_option arg then
        (if CHR ''i'' \<in> set (drop 1 arg) then g\<lparr>ga_ignore_case := True\<rparr> else g)
      else if ga_pattern g = None then g\<lparr>ga_pattern := Some arg\<rparr>
      else g\<lparr>ga_files := ga_files g @ [arg]\<rparr>)"

fun grep_paths :: "shell \<Rightarrow> string list \<Rightarrow> string \<Rightarrow> string \<Rightarrow> py_exn + string \<times> string" where
  "grep_paths s [] texts errors = Inr (texts, errors)"
| "grep_paths s (path # paths) texts errors =
     (case read_file (sh_vfs s) path (sh_cwd s) of
        Inr text \<Rightarrow> grep_paths s paths (texts @ text) errors
      | Inl e \<Rightarrow>
          (case read_error ''grep'' path e of
             None \<Rightarrow> Inl (UncaughtVfs e)
           | Some m \<Rightarrow> grep_paths s paths texts (errors @ m)))"

definition cmd_grep :: "host \<Rightarrow> string list \<Rightarrow> string \<Rightarrow> shell \<Rightarrow> command_result run" where
  "cmd_grep h args stdin s =
     (let g = fold grep_arg args \<lparr>ga_ignore_case = False, ga_pattern = None, ga_files = []\<rparr> in
      case ga_pattern g of
        None \<Rightarrow>
          (Inr (fail (''grep: missing pattern'' @ [nl] @ ''Try '' @ quoted ''grep --help'' @
             '' for more information.'')), s)
      | Some pattern \<Rightarrow>
          (case (if ga_files g \<noteq> [] then grep_paths s (ga_files g) [] [] else Inr (stdin, [])) of
             Inl e \<Rightarrow> (Inl e, s)
           | Inr (corpus, errors) \<Rightarrow>
               (case h_regex h (ga_ignore_case g) pattern of
                  RegexError \<Rightarrow> (Inr (fail (''grep: invalid regular expression: '' @ pattern)), s)
                | RegexOverflow \<Rightarrow> (Inl UncaughtOverflowError, s)
                | RegexOk search \<Rightarrow>
                    (let hits = filter search (splitlines corpus);
                         matched_text = (if hits \<noteq> [] then join [nl] hits @ [nl] else []);
                         code = (if errors \<noteq> [] then 2 else if hits \<noteq> [] then 0 else 1)
                     in (Inr (CommandResult (errors @ matched_text) code), s)))))"

fun skip_n :: "string list \<Rightarrow> bool \<Rightarrow> bool \<times> string list" where
  "skip_n [] newline = (newline, [])"
| "skip_n (a # args) newline = (if a = ''-n'' then skip_n args False else (newline, a # args))"

definition cmd_echo :: "string list \<Rightarrow> shell \<Rightarrow> command_result run" where
  "cmd_echo args s =
     (let (newline, rest) = skip_n args True;
          expanded = map (replace ''$?'' (str_int (sh_last_exit_code s))) rest;
          text = join '' '' expanded
      in (Inr (CommandResult (if newline then text @ [nl] else text) 0), s))"

definition cmd_true :: "string list \<Rightarrow> shell \<Rightarrow> command_result run" where
  "cmd_true args s = (Inr (CommandResult [] 0), s)"

definition cmd_false :: "string list \<Rightarrow> shell \<Rightarrow> command_result run" where
  "cmd_false args s = (Inr (CommandResult [] 1), s)"

subsection \<open>Commands over paths\<close>

text \<open>
  The loop shared by \<^verbatim>\<open>mkdir\<close>, \<^verbatim>\<open>rm\<close>, \<^verbatim>\<open>rmdir\<close>, \<^verbatim>\<open>touch\<close> and \<^verbatim>\<open>chmod\<close>: a call per path, with the
  message of its exception as a chunk of the output.  An exception without a message leaves the loop.
\<close>

fun each_path ::
  "host \<Rightarrow> (string \<Rightarrow> int \<Rightarrow> vfs \<Rightarrow> 'a outcome) \<Rightarrow> (string \<Rightarrow> vfs_error \<Rightarrow> string option) \<Rightarrow>
   string list \<Rightarrow> string \<Rightarrow> shell \<Rightarrow> (vfs_error + string) \<times> shell" where
  "each_path h call message [] chunks s = (Inr chunks, s)"
| "each_path h call message (path # paths) chunks s =
     (case vfs_call h (call path) s of
        (Inr _, s') \<Rightarrow> each_path h call message paths chunks s'
      | (Inl e, s') \<Rightarrow>
          (case message path e of
             None \<Rightarrow> (Inl e, s')
           | Some m \<Rightarrow> each_path h call message paths (chunks @ m) s'))"

definition chunk_result :: "(vfs_error + string) \<times> shell \<Rightarrow> command_result run" where
  "chunk_result p =
     (case p of
        (Inl e, s) \<Rightarrow> (Inl (UncaughtVfs e), s)
      | (Inr chunks, s) \<Rightarrow> (Inr (CommandResult chunks (if chunks \<noteq> [] then 1 else 0)), s))"

text \<open>The usual \<^verbatim>\<open>except\<close> clauses: the prefix of the messages, and the clauses present.\<close>

definition missing_operand :: "string \<Rightarrow> string \<Rightarrow> command_result" where
  "missing_operand cmd what =
     fail (cmd @ '': missing '' @ what @ [nl] @ ''Try '' @ quoted (cmd @ '' --help'') @ '' for more information.'')"

definition mkdir_message :: "string \<Rightarrow> vfs_error \<Rightarrow> string option" where
  "mkdir_message path e =
     (let pre = ''mkdir: cannot create directory '' @ quoted path in
      case e of
        FileExistsError _ \<Rightarrow> Some (pre @ '': File exists'' @ [nl])
      | FileNotFoundError _ \<Rightarrow> Some (pre @ '': No such file or directory'' @ [nl])
      | NotADirectoryError _ \<Rightarrow> Some (pre @ '': Not a directory'' @ [nl])
      | _ \<Rightarrow> None)"

definition cmd_mkdir :: "host \<Rightarrow> string list \<Rightarrow> shell \<Rightarrow> command_result run" where
  "cmd_mkdir h args s =
     (let parents = list_ex (\<lambda>a. a \<in> {''-p'', ''--parents''} \<or>
            (\<not> startswith a ''--'' \<and> is_option a \<and> CHR ''p'' \<in> set (drop 1 a))) args;
          paths = filter (\<lambda>a. \<not> startswith a ''--'' \<and> \<not> is_option a) args
      in if paths = [] then (Inr (missing_operand ''mkdir'' ''operand''), s)
         else chunk_result
           (each_path h (\<lambda>path. mkdir path (sh_cwd s) parents 0x1ED) mkdir_message paths [] s))"

definition rm_message :: "string \<Rightarrow> vfs_error \<Rightarrow> string option" where
  "rm_message path e =
     (let pre = ''rm: cannot remove '' @ quoted path in
      case e of
        FileNotFoundError _ \<Rightarrow> Some (pre @ '': No such file or directory'' @ [nl])
      | IsADirectoryError _ \<Rightarrow> Some (pre @ '': Is a directory'' @ [nl])
      | NotADirectoryError _ \<Rightarrow> Some (pre @ '': Not a directory'' @ [nl])
      | ValueError _ \<Rightarrow> None
      | VFSRecursionError \<Rightarrow> None
      | _ \<Rightarrow> Some (pre @ '': Directory not empty'' @ [nl]))"

definition cmd_rm :: "host \<Rightarrow> string list \<Rightarrow> shell \<Rightarrow> command_result run" where
  "cmd_rm h args s =
     (let flag = (\<lambda>c a. \<not> startswith a ''--'' \<and> is_option a \<and> c \<in> set (drop 1 a));
          recursive = list_ex (\<lambda>a. a \<in> {''-r'', ''-R'', ''--recursive''} \<or>
            flag (CHR ''r'') a \<or> flag (CHR ''R'') a) args;
          force = list_ex (\<lambda>a. a \<in> {''-f'', ''--force''} \<or> flag (CHR ''f'') a) args;
          paths = filter (\<lambda>a. \<not> startswith a ''--'' \<and> \<not> is_option a) args
      in if paths = [] then (Inr (missing_operand ''rm'' ''operand''), s)
         else chunk_result
           (each_path h (\<lambda>path now. remove (h_stack h (sh_tick s)) path (sh_cwd s) recursive force)
             rm_message paths [] s))"

definition rmdir_message :: "string \<Rightarrow> vfs_error \<Rightarrow> string option" where
  "rmdir_message path e =
     (let pre = ''rmdir: failed to remove '' @ quoted path in
      case e of
        FileNotFoundError _ \<Rightarrow> Some (pre @ '': No such file or directory'' @ [nl])
      | NotADirectoryError _ \<Rightarrow> Some (pre @ '': Not a directory'' @ [nl])
      | ValueError _ \<Rightarrow> None
      | VFSRecursionError \<Rightarrow> None
      | _ \<Rightarrow> Some (pre @ '': Directory not empty'' @ [nl]))"

definition cmd_rmdir :: "host \<Rightarrow> string list \<Rightarrow> shell \<Rightarrow> command_result run" where
  "cmd_rmdir h args s =
     (let paths = filter (\<lambda>a. \<not> is_option a) args
      in if paths = [] then (Inr (missing_operand ''rmdir'' ''operand''), s)
         else chunk_result
           (each_path h (\<lambda>path now. rmdir path (sh_cwd s)) rmdir_message paths [] s))"

definition touch_message :: "string \<Rightarrow> vfs_error \<Rightarrow> string option" where
  "touch_message path e =
     (let pre = ''touch: cannot touch '' @ quoted path in
      case e of
        FileNotFoundError _ \<Rightarrow> Some (pre @ '': No such file or directory'' @ [nl])
      | NotADirectoryError _ \<Rightarrow> Some (pre @ '': Not a directory'' @ [nl])
      | _ \<Rightarrow> None)"

definition cmd_touch :: "host \<Rightarrow> string list \<Rightarrow> shell \<Rightarrow> command_result run" where
  "cmd_touch h args s =
     (if args = [] then (Inr (missing_operand ''touch'' ''file operand''), s)
      else chunk_result (each_path h (\<lambda>path. touch path (sh_cwd s)) touch_message args [] s))"

definition chmod_message :: "string \<Rightarrow> vfs_error \<Rightarrow> string option" where
  "chmod_message path e =
     (let pre = ''chmod: cannot access '' @ quoted path in
      case e of
        FileNotFoundError _ \<Rightarrow> Some (pre @ '': No such file or directory'' @ [nl])
      | NotADirectoryError _ \<Rightarrow> Some (pre @ '': Not a directory'' @ [nl])
      | _ \<Rightarrow> None)"

text \<open>A \<^verbatim>\<open>ValueError\<close> ends the loop and discards the chunks; the earlier paths stay changed.\<close>

definition cmd_chmod :: "host \<Rightarrow> string list \<Rightarrow> shell \<Rightarrow> command_result run" where
  "cmd_chmod h args s =
     (case args of
        [] \<Rightarrow> (Inr (missing_operand ''chmod'' ''operand''), s)
      | [md] \<Rightarrow> (Inr (missing_operand ''chmod'' (''operand after '' @ quoted md)), s)
      | md # paths \<Rightarrow>
          (case each_path h (\<lambda>path now. chmod path md (sh_cwd s)) chmod_message paths [] s of
             (Inl (ValueError _), s') \<Rightarrow>
               (Inr (fail (''chmod: invalid mode: '' @ quoted md @ [nl] @ ''Try '' @
                  quoted ''chmod --help'' @ '' for more information.'')), s')
           | p \<Rightarrow> chunk_result p))"

subsection \<open>Downloads\<close>

definition fake_ipv4 :: "host \<Rightarrow> string \<Rightarrow> string" where
  "fake_ipv4 h name =
     (let byte = (\<lambda>c. int (of_char c)) in
      case h_sha256 h (utf8_encode name) of
        a # b # c # d # _ \<Rightarrow>
          str_int (1 + byte a mod 223) @ ''.'' @ str_int (byte b) @ ''.'' @ str_int (byte c) @ ''.'' @
          str_int (1 + byte d mod 254)
      | _ \<Rightarrow> [])"

definition wget_progress :: "host \<Rightarrow> int \<Rightarrow> string \<Rightarrow> string \<Rightarrow> int \<Rightarrow> string + string" where
  "wget_progress h t url filename nbytes =
     (let now = iso_date t @ '' '' @ hms t in
      case urlparse (h_bracket_ok h) url of
        Inl e \<Rightarrow> Inl e
      | Inr parsed \<Rightarrow>
          (let host = (case url_hostname parsed of None \<Rightarrow> url | Some n \<Rightarrow> or_else n url);
               ip = fake_ipv4 h host;
               scheme = or_else (url_scheme parsed) ''http''
           in case url_port parsed of
                Inl e \<Rightarrow> Inl e
              | Inr p \<Rightarrow>
                  (let fallback = (if scheme = ''https'' then 443 else 80);
                       port = (case p of None \<Rightarrow> fallback | Some n \<Rightarrow> if n = 0 then fallback else n);
                       shown = h_wide h 0x2018 @ filename @ h_wide h 0x2019
                   in Inr (''--'' @ now @ ''--  '' @ url @ [nl] @
                        ''Resolving '' @ host @ '' ('' @ host @ '')... '' @ ip @ [nl] @
                        ''Connecting to '' @ host @ '' ('' @ host @ '')|'' @ ip @ ''|:'' @ str_int port @
                          ''... connected.'' @ [nl] @
                        ''HTTP request sent, awaiting response... 200 OK'' @ [nl] @
                        ''Length: '' @ str_int nbytes @ '' [application/octet-stream]'' @ [nl] @
                        ''Saving to: '' @ shown @ [nl] @ [nl] @
                        ljust 20 filename @ '' 100%[===================>] '' @ rjust 7 (str_int nbytes) @
                          ''  --.-KB/s    in 0s'' @ [nl] @ [nl] @
                        now @ '' (12.4 MB/s) - '' @ shown @ '' saved ['' @ str_int nbytes @ ''/'' @
                          str_int nbytes @ '']''))))"

definition curl_progress :: "int \<Rightarrow> string" where
  "curl_progress nbytes =
     (let speed = max nbytes 1; size4 = rjust 4 (str_int nbytes); speed5 = rjust 5 (str_int speed) in
      ''  % Total    % Received % Xferd  Average Speed   Time    Time     Time  Current'' @ [nl] @
      ''                                 Dload  Upload   Total   Spent    Left  Speed'' @ [nl] @
      ''100  '' @ size4 @ ''  100  '' @ size4 @ ''    0     0  '' @ speed5 @
      ''      0 --:--:-- --:--:-- --:--:-- '' @ speed5)"

text \<open>
  The messages of a failed write: \<^verbatim>\<open>shown\<close> names the destination, \<^verbatim>\<open>label\<close> the program.
\<close>

definition write_failure :: "string \<Rightarrow> string \<Rightarrow> string \<Rightarrow> vfs_error \<Rightarrow> string option" where
  "write_failure program shown label e =
     (case e of
        FileNotFoundError _ \<Rightarrow> Some (program @ '': '' @ shown @ '': No such file or directory'')
      | IsADirectoryError _ \<Rightarrow> Some (program @ '': '' @ shown @ '': Is a directory'')
      | NotADirectoryError _ \<Rightarrow> Some (program @ '': '' @ shown @ '': Not a directory'')
      | VFSFileTooLargeError \<Rightarrow> Some (''bash: '' @ label @ '': write error: File too large'')
      | VFSNoSpaceError \<Rightarrow> Some (''bash: '' @ label @ '': write error: No space left on device'')
      | _ \<Rightarrow> None)"

text \<open>\<^verbatim>\<open>target.rstrip("/").rsplit("/", 1)[-1] or filename_from_url(url)\<close>\<close>

definition url_filename :: "host \<Rightarrow> string \<Rightarrow> string + string" where
  "url_filename h url = filename_from_url (h_bracket_ok h) (h_decode h) url"

definition download_name :: "host \<Rightarrow> string \<Rightarrow> string \<Rightarrow> string + string" where
  "download_name h target url =
     (if base_name target \<noteq> [] then Inr (base_name target) else url_filename h url)"

definition cmd_wget :: "host \<Rightarrow> string list \<Rightarrow> shell \<Rightarrow> command_result run" where
  "cmd_wget h args s =
     (case parse_wget_args args of
        (None, _) \<Rightarrow> (Inr (fail (''wget: missing URL'' @ [nl] @ ''Usage: wget [OPTION]... [URL]...'' @ [nl])), s)
      | (Some url, output_path) \<Rightarrow>
          (case (case output_path of Some p \<Rightarrow> Inr p | None \<Rightarrow> url_filename h url) of
             Inl e \<Rightarrow> (Inl (UncaughtValueError e), s)
           | Inr target \<Rightarrow>
               (let payload = mocked_payload url (sh_client_ip s) (iso_utc_now (h_now h (sh_tick s))) in
                case vfs_call h (write_file target payload (sh_cwd s) False) (tick s) of
                  (Inl e, s) \<Rightarrow>
                    (case write_failure ''wget'' target ''wget'' e of
                       None \<Rightarrow> (Inl (UncaughtVfs e), s)
                     | Some m \<Rightarrow> (Inr (fail m), s))
                | (Inr _, s) \<Rightarrow>
                    (case download_name h target url of
                       Inl e \<Rightarrow> (Inl (UncaughtValueError e), s)
                     | Inr nm \<Rightarrow>
                         (let s = quarantine_file h nm payload url s in
                          case wget_progress h (h_now h (sh_tick s)) url nm (utf8_size payload) of
                            Inl e \<Rightarrow> (Inl (UncaughtValueError e), tick s)
                          | Inr out \<Rightarrow> (Inr (CommandResult out 0), tick s))))))"

definition cmd_curl :: "host \<Rightarrow> string list \<Rightarrow> shell \<Rightarrow> command_result run" where
  "cmd_curl h args s =
     (let parsed = parse_curl_args args in
      case curl_url parsed of
        None \<Rightarrow> (Inr (fail ''curl: no URL specified!''), s)
      | Some url \<Rightarrow>
          (let payload = mocked_payload url (sh_client_ip s) (iso_utc_now (h_now h (sh_tick s)));
               s = tick s
           in case (case curl_output_path parsed of
                      Some p \<Rightarrow> Inr (Some p)
                    | None \<Rightarrow>
                        if curl_remote_name parsed then map_sum id Some (url_filename h url) else Inr None) of
                Inl e \<Rightarrow> (Inl (UncaughtValueError e), s)
              | Inr None \<Rightarrow>
                  (case url_filename h url of
                     Inl e \<Rightarrow> (Inl (UncaughtValueError e), s)
                   | Inr nm \<Rightarrow> (Inr (CommandResult payload 0), quarantine_file h nm payload url s))
              | Inr (Some target) \<Rightarrow>
                  (case vfs_call h (write_file target payload (sh_cwd s) False) s of
                     (Inl e, s) \<Rightarrow>
                       (case write_failure [] [] ''curl'' e of
                          None \<Rightarrow> (Inl (UncaughtVfs e), s)
                        | Some m \<Rightarrow>
                            (Inr (fail (if e \<in> {VFSFileTooLargeError, VFSNoSpaceError} then m
                               else ''curl: (23) Failure writing output to destination'')), s))
                   | (Inr _, s) \<Rightarrow>
                       (case download_name h target url of
                          Inl e \<Rightarrow> (Inl (UncaughtValueError e), s)
                        | Inr nm \<Rightarrow>
                            (Inr (CommandResult (if curl_silent parsed then [] else curl_progress (utf8_size payload)) 0),
                             quarantine_file h nm payload url s)))))"

subsection \<open>Identity of the host\<close>

definition cmd_which :: "string list \<Rightarrow> shell \<Rightarrow> command_result run" where
  "cmd_which args s =
     (if args = [] then (Inr (fail []), s)
      else
        (let lines = List.map_filter (map_of WHICH_PATHS) args;
             missing = list_ex (\<lambda>nm. map_of WHICH_PATHS nm = None) args
         in if missing \<and> lines = [] then (Inr (fail []), s)
            else (Inr (CommandResult (join [nl] lines) (if missing then 1 else 0)), s)))"

definition cmd_uname :: "string list \<Rightarrow> shell \<Rightarrow> command_result run" where
  "cmd_uname args s = (Inr (CommandResult (format_uname args) 0), s)"

definition cmd_env :: "string list \<Rightarrow> shell \<Rightarrow> command_result run" where
  "cmd_env args s =
     (Inr (CommandResult (join [nl]
        [''SHELL=/bin/bash'', ''PWD='' @ sh_cwd s, ''LOGNAME=root'', ''HOME=/root'', ''LANG=C.UTF-8'',
         ''TERM=xterm-256color'', ''USER=root'', ''SHLVL=1'',
         ''PATH=/usr/local/sbin:/usr/local/bin:/usr/sbin:/usr/bin:/sbin:/bin:/usr/games:'' @
           ''/usr/local/games:/snap/bin'',
         ''MAIL=/var/mail/root'', ''HOSTNAME='' @ HOSTNAME, ''_=/usr/bin/env'']) 0), s)"

definition cmd_exit :: "string list \<Rightarrow> shell \<Rightarrow> command_result run" where
  "cmd_exit args s = (Inr ((CommandResult [] 0)\<lparr>cr_exit_session := True\<rparr>), s)"

definition cmd_history :: "string list \<Rightarrow> shell \<Rightarrow> command_result run" where
  "cmd_history args s = (Inr (CommandResult [] 0), s)"

definition cmd_unset :: "string list \<Rightarrow> shell \<Rightarrow> command_result run" where
  "cmd_unset args s = (Inr (CommandResult [] 0), s)"

subsection \<open>Execution of a path\<close>

definition exec_trap :: "string \<Rightarrow> shell \<Rightarrow> command_result run" where
  "exec_trap path s =
     (let trap = (\<lambda>r. r\<lparr>cr_path := ''exec_trap''\<rparr>) in
      case resolve (sh_vfs s) path (sh_cwd s) of
        Inl (FileNotFoundError _) \<Rightarrow>
          (Inr (trap (fail_code (''bash: '' @ path @ '': No such file or directory'') 127)), s)
      | Inl (NotADirectoryError _) \<Rightarrow>
          (Inr (trap (fail_code (''bash: '' @ path @ '': No such file or directory'') 127)), s)
      | Inl e \<Rightarrow> (Inl (UncaughtVfs e), s)
      | Inr node \<Rightarrow>
          (let m = node_meta node in
           if is_directory node then
             (Inr (trap (fail_code (''bash: '' @ path @ '': Is a directory'') 126)), s)
           else if ino_mode m AND 0x49 = 0 then
             (Inr (trap (fail_code (''bash: '' @ path @ '': Permission denied'') 126)), s)
           else
             (Inr (trap (CommandResult [] 0)),
              s\<lparr>sh_command_extra :=
                [(''target_path'', JStr (canonicalize path (sh_cwd s) (sh_home s))),
                 (''file_metadata'', JObj
                   [(''name'', JStr (ino_name m)), (''mode'', JInt (ino_mode m)),
                    (''size'', JInt (node_size node)), (''owner'', JStr (ino_owner m)),
                    (''group'', JStr (ino_group m))])]\<rparr>)))"

subsection \<open>Redirections\<close>

definition apply_redirection ::
  "host \<Rightarrow> command_result \<Rightarrow> string \<Rightarrow> bool \<Rightarrow> string \<Rightarrow> shell \<Rightarrow> command_result run" where
  "apply_redirection h result redirect_path app command_name s =
     (case vfs_call h (write_file redirect_path (cr_output result) (sh_cwd s) app) s of
        (Inl e, s) \<Rightarrow>
          (case write_failure ''bash'' redirect_path (or_else command_name redirect_path) e of
             None \<Rightarrow> (Inl (UncaughtVfs e), s)
           | Some m \<Rightarrow> (Inr (fail m), s))
      | (Inr _, s) \<Rightarrow>
          (Inr (result\<lparr>cr_output := []\<rparr>),
           quarantine_file h (or_else (base_name redirect_path) redirect_path) (cr_output result) [] s))"

text \<open>\<^verbatim>\<open>_is_infinite_cat\<close> searches the argument that \<^verbatim>\<open>_stream_infinite_redirect\<close> uses.\<close>

definition infinite_device :: "shell \<Rightarrow> string list \<Rightarrow> string option" where
  "infinite_device s args =
     List.find (\<lambda>a. \<not> is_option a \<and>
       canonicalize a (sh_cwd s) (sh_home s) \<in> {DEV_ZERO, DEV_URANDOM}) args"

definition is_infinite_cat :: "string list \<Rightarrow> shell \<Rightarrow> bool" where
  "is_infinite_cat tokens s =
     (case tokens of
        [] \<Rightarrow> False
      | t # args \<Rightarrow> rsplit_last slash t = ''cat'' \<and> infinite_device s args \<noteq> None)"

text \<open>The loop of repeated writes: the exception that ended it, if any.\<close>

fun stream_writes ::
  "host \<Rightarrow> string \<Rightarrow> string \<Rightarrow> nat \<Rightarrow> bool \<Rightarrow> shell \<Rightarrow> vfs_error option \<times> shell" where
  "stream_writes h path chunk 0 app s = (None, s)"
| "stream_writes h path chunk (Suc n) app s =
     (case vfs_call h (write_file path chunk (sh_cwd s) app) s of
        (Inl e, s') \<Rightarrow> (Some e, s')
      | (Inr _, s') \<Rightarrow> stream_writes h path chunk n True s')"

definition stream_infinite_redirect ::
  "host \<Rightarrow> string \<Rightarrow> string list \<Rightarrow> string \<Rightarrow> bool \<Rightarrow> shell \<Rightarrow> command_result run" where
  "stream_infinite_redirect h command_name tokens redirect_path app s =
     (let nothing = apply_redirection h (CommandResult [] 0) redirect_path app command_name s in
      case infinite_device s (drop 1 tokens) of
        None \<Rightarrow> nothing
      | Some device \<Rightarrow>
          (case (case resolve (sh_vfs s) redirect_path (sh_cwd s) of
                   Inl (FileNotFoundError _) \<Rightarrow> Inr False
                 | Inl (NotADirectoryError _) \<Rightarrow> Inr False
                 | Inl e \<Rightarrow> Inl e
                 | Inr dest \<Rightarrow> Inr (\<not> is_directory dest \<and> ino_char_device (node_meta dest))) of
             Inl e \<Rightarrow> (Inl (UncaughtVfs e), s)
           | Inr True \<Rightarrow> (Inr (CommandResult [] 0), s)
           | Inr False \<Rightarrow>
               (case read_file (sh_vfs s) device (sh_cwd s) of
                  Inl e \<Rightarrow> (Inl (UncaughtVfs e), s)
                | Inr chunk \<Rightarrow>
                    if chunk = [] then nothing
                    else
                      (let chunk_bytes = max (utf8_size chunk) 1;
                           max_iters = max_total_vfs_bytes (sh_vfs s) div chunk_bytes + 2;
                           label = or_else command_name redirect_path
                       in case stream_writes h redirect_path chunk (nat max_iters) app s of
                            (Some e, s) \<Rightarrow>
                              (case write_failure ''bash'' redirect_path label e of
                                 None \<Rightarrow> (Inl (UncaughtVfs e), s)
                               | Some m \<Rightarrow> (Inr (fail m), s))
                          | (None, s) \<Rightarrow>
                              (Inr (fail (''bash: '' @ label @ '': write error: No space left on device'')), s)))))"

end
