(* ===== verification/Shell_Exec.thy ===== *)
theory Shell_Exec
  imports Shell_Commands
begin

text \<open>
  The executor of the class \<^verbatim>\<open>Shell\<close>: \<^verbatim>\<open>execute\<close>, the chain of conditionals, pipelines and single
  commands below it, the dispatch of a command, and the interpreter of scripts, which calls
  \<^verbatim>\<open>execute\<close> again.  Each layer takes that recursive call as the argument \<^verbatim>\<open>rec\<close>; \<^verbatim>\<open>exec\<close> ties the knot
  with a number of nested calls as fuel, and running out of it is Python's \<^verbatim>\<open>RecursionError\<close>.
\<close>

definition MAX_SCRIPT_DEPTH :: int where "MAX_SCRIPT_DEPTH = 3"
definition MAX_SCRIPT_LINES :: nat where "MAX_SCRIPT_LINES = 50"

text \<open>The output chunks of a loop with its last result, and the result the loop returns.\<close>

definition collect :: "string list \<Rightarrow> command_result \<Rightarrow> string list" where
  "collect outputs r = (if cr_output r \<noteq> [] then outputs @ [cr_output r] else outputs)"

definition joined :: "string list \<Rightarrow> command_result \<Rightarrow> command_result" where
  "joined outputs last_result = last_result\<lparr>cr_output := join_outputs outputs\<rparr>"

subsection \<open>Scripts\<close>

fun run_lines ::
  "(string \<Rightarrow> shell \<Rightarrow> command_result run) \<Rightarrow> string list \<Rightarrow> string list \<Rightarrow> command_result \<Rightarrow> shell \<Rightarrow>
   command_result run" where
  "run_lines rec [] outputs r s = (Inr (joined outputs r), s)"
| "run_lines rec (line # lines) outputs r s =
     (let stripped = strip_ws line in
      if stripped = [] \<or> startswith stripped ''#'' then run_lines rec lines outputs r s
      else
        (case rec stripped s of
           (Inl e, s') \<Rightarrow> (Inl e, s')
         | (Inr r', s') \<Rightarrow>
             if cr_exit_session r' then (Inr (joined (collect outputs r') r'), s')
             else run_lines rec lines (collect outputs r') r' s'))"

definition execute_script_lines ::
  "(string \<Rightarrow> shell \<Rightarrow> command_result run) \<Rightarrow> string list \<Rightarrow> int \<Rightarrow> shell \<Rightarrow> command_result run" where
  "execute_script_lines rec lines depth s =
     (if depth > MAX_SCRIPT_DEPTH then (Inr (fail ''bash: maximum recursion depth exceeded''), s)
      else if length lines > MAX_SCRIPT_LINES then
        (Inr (fail ''bash: maximum script length exceeded''), s)
      else
        (let previous_depth = sh_script_depth s;
             (r, s') = run_lines rec lines [] (CommandResult [] 0) (s\<lparr>sh_script_depth := depth\<rparr>)
         in (r, s'\<lparr>sh_script_depth := previous_depth\<rparr>)))"

subsection \<open>Dispatch\<close>

definition handler ::
  "host \<Rightarrow> string \<Rightarrow> string \<Rightarrow> (string list \<Rightarrow> shell \<Rightarrow> command_result run) option" where
  "handler h stdin command = map_of
     [(''pwd'', cmd_pwd), (''cd'', cmd_cd), (''ls'', cmd_ls h), (''cat'', \<lambda>args. cmd_cat args stdin),
      (''grep'', \<lambda>args. cmd_grep h args stdin), (''touch'', cmd_touch h), (''echo'', cmd_echo),
      (''true'', cmd_true), (''false'', cmd_false), (''mkdir'', cmd_mkdir h), (''rm'', cmd_rm h),
      (''rmdir'', cmd_rmdir h), (''chmod'', cmd_chmod h), (''wget'', cmd_wget h), (''curl'', cmd_curl h),
      (''which'', cmd_which), (''uname'', cmd_uname), (''env'', cmd_env), (''exit'', cmd_exit),
      (''logout'', cmd_exit), (''history'', cmd_history), (''unset'', cmd_unset)] command"

definition handler_path :: "string \<Rightarrow> string" where
  "handler_path command =
     (if command \<in> {''wget'', ''curl''} then ''sinkhole''
      else if command \<in> set STATIC_HANDLER_COMMANDS then ''static'' else ''vfs'')"

definition with_path :: "string \<Rightarrow> command_result run \<Rightarrow> (command_result \<times> string) run" where
  "with_path path p = (case p of (r, s) \<Rightarrow> (map_sum id (\<lambda>r. (r, path)) r, s))"

definition own_path :: "command_result run \<Rightarrow> (command_result \<times> string) run" where
  "own_path p = (case p of (r, s) \<Rightarrow> (map_sum id (\<lambda>r. (r, cr_path r)) r, s))"

definition is_cacheable_llm_command :: "string list \<Rightarrow> bool" where
  "is_cacheable_llm_command tokens =
     (let argv0 = (case tokens of [] \<Rightarrow> [] | t # _ \<Rightarrow> strip_system_prefix t)
      in argv0 \<noteq> [] \<and> argv0 \<notin> set UNCACHEABLE_LLM_COMMANDS)"

definition is_llm_eligible_command :: "string list \<Rightarrow> bool" where
  "is_llm_eligible_command tokens =
     (case tokens of [] \<Rightarrow> False | t # _ \<Rightarrow> strip_system_prefix t \<in> set LLM_ALLOWED_BINARIES)"

definition llm_result :: "llm_simulation \<Rightarrow> string \<Rightarrow> shell \<Rightarrow> (command_result \<times> string) run" where
  "llm_result simulation path s =
     (Inr (CommandResult (rendered simulation) (sim_exit_code simulation), path), s)"

text \<open>The two keys of the context that the providers read.\<close>

definition llm_context_of :: "shell \<Rightarrow> vfs_error + llm_context" where
  "llm_context_of s =
     (let context = (\<lambda>listing. \<lparr>ctx_listing = Some (sanitize_listing listing),
            ctx_file_count = Some (int (length listing))\<rparr>)
      in case list_dir (sh_vfs s) ''.'' (sh_cwd s) of
           Inl (FileNotFoundError _) \<Rightarrow> Inr (context [])
         | Inl (NotADirectoryError _) \<Rightarrow> Inr (context [])
         | Inl e \<Rightarrow> Inl e
         | Inr listing \<Rightarrow> Inr (context listing))"

definition dispatch_llm ::
  "host \<Rightarrow> string \<Rightarrow> string list \<Rightarrow> string list \<Rightarrow> string \<Rightarrow> string \<Rightarrow> shell \<Rightarrow> (command_result \<times> string) run" where
  "dispatch_llm h command args tokens stripped stdin s =
     (if \<not> is_llm_eligible_command tokens then with_path ''vfs'' (Inr (not_found_result command), s)
      else if \<not> is_safe_llm_argv tokens then llm_result (format_binary_usage_error command args) ''vfs'' s
      else
        (let cacheable = is_cacheable_llm_command tokens;
             cache_key = (if stdin = [] then stripped else stripped @ [CHR 0x00] @ stdin)
         in case (if cacheable then map_of (sh_llm_cache s) cache_key else None) of
              Some cached \<Rightarrow>
                (case coerce_llm_simulation (h_wide h) (h_stack h (sh_tick s)) (RawText cached) command args of
                   Inl e \<Rightarrow> (Inl (UncaughtLlm e), s)
                 | Inr simulation \<Rightarrow> llm_result simulation ''cache'' s)
            | None \<Rightarrow>
                (case llm_context_of s of
                   Inl e \<Rightarrow> (Inl (UncaughtVfs e), s)
                 | Inr context \<Rightarrow>
                     (let llm_command = (if stdin = [] then stripped else stripped @ [nl] @ stdin);
                          stack = h_stack h (sh_tick s);
                          raw = generate_response (h_wide h) stack (h_provider h (sh_tick s)) llm_command
                                  (sh_cwd s) context tokens;
                          s = tick (s\<lparr>sh_llm_calls := sh_llm_calls s @ [tokens]\<rparr>)
                      in case raw of
                           Inl e \<Rightarrow> (Inl (UncaughtLlm e), s)
                         | Inr sim \<Rightarrow>
                             (case coerce_llm_simulation (h_wide h) stack (RawSimulation sim) command args of
                                Inl e \<Rightarrow> (Inl (UncaughtLlm e), s)
                              | Inr simulation \<Rightarrow>
                                  llm_result simulation ''llm''
                                    (if cacheable
                                     then s\<lparr>sh_llm_cache := AList.update cache_key (to_json simulation) (sh_llm_cache s)\<rparr>
                                     else s))))))"

definition run_script_file ::
  "(string \<Rightarrow> shell \<Rightarrow> command_result run) \<Rightarrow> string \<Rightarrow> string \<Rightarrow> int \<Rightarrow> shell \<Rightarrow>
   (command_result \<times> string) run" where
  "run_script_file rec command script_path depth s =
     (let missing = with_path ''vfs''
            (Inr (fail_code (command @ '': '' @ script_path @ '': No such file or directory'') 127), s)
      in case resolve (sh_vfs s) script_path (sh_cwd s) of
           Inl (FileNotFoundError _) \<Rightarrow> missing
         | Inl (NotADirectoryError _) \<Rightarrow> missing
         | Inl e \<Rightarrow> (Inl (UncaughtVfs e), s)
         | Inr node \<Rightarrow>
             if is_directory node then
               with_path ''vfs'' (Inr (fail_code (command @ '': '' @ script_path @ '': Is a directory'') 126), s)
             else
               (case read_file (sh_vfs s) script_path (sh_cwd s) of
                  Inl e \<Rightarrow> (Inl (UncaughtVfs e), s)
                | Inr text \<Rightarrow>
                    if is_binary_script text then
                      with_path ''vfs'' (Inr (fail_code
                        (script_path @ '': cannot execute binary file: Exec format error'') 126), s)
                    else own_path (execute_script_lines rec (splitlines text) (depth + 1) s)))"

definition dispatch_wrapper ::
  "(string \<Rightarrow> shell \<Rightarrow> command_result run) \<Rightarrow> string list \<Rightarrow> string \<Rightarrow> int \<Rightarrow> shell \<Rightarrow>
   (command_result \<times> string) run" where
  "dispatch_wrapper rec tokens stdin depth s =
     (case extract_shell_c tokens of
        Some inner \<Rightarrow> own_path (rec inner s)
      | None \<Rightarrow>
          (case shell_script_operand (drop 1 tokens) of
             Some script_path \<Rightarrow> run_script_file rec (hd tokens) script_path depth s
           | None \<Rightarrow>
               if stdin \<noteq> [] then own_path (execute_script_lines rec (splitlines stdin) depth s)
               else with_path ''vfs'' (Inr (CommandResult [] 0), s)))"

definition dispatch ::
  "(string \<Rightarrow> shell \<Rightarrow> command_result run) \<Rightarrow> host \<Rightarrow> string list \<Rightarrow> string \<Rightarrow> string \<Rightarrow> int \<Rightarrow> shell \<Rightarrow>
   (command_result \<times> string) run" where
  "dispatch rec h tokens stripped stdin depth s =
     (case tokens of
        [] \<Rightarrow> (Inl (UncaughtValueError ''not enough values to unpack''), s)
      | command # args \<Rightarrow>
          (let basename = strip_system_prefix command;
               known = basename \<noteq> command \<and> basename \<in> set KNOWN_COMMANDS;
               command = (if known then basename else command);
               tokens = command # args;
               stripped = (if known then join '' '' tokens else stripped)
           in if command \<in> set SHELL_WRAPPERS then dispatch_wrapper rec tokens stdin depth s
              else if is_explicit_path command then own_path (exec_trap command s)
              else
                (case handler h stdin command of
                   Some f \<Rightarrow> with_path (handler_path command) (f args s)
                 | None \<Rightarrow>
                     (case lookup_static_output tokens of
                        Some out \<Rightarrow>
                          with_path ''static'' (Inr (CommandResult out (lookup_static_exit_code tokens)), s)
                      | None \<Rightarrow> dispatch_llm h command args tokens stripped stdin s))))"

subsection \<open>A single command\<close>

text \<open>The body of the outer \<^verbatim>\<open>try\<close>: the outcome, and \<^verbatim>\<open>execution_path\<close> at its end.\<close>

definition command_body ::
  "(string \<Rightarrow> shell \<Rightarrow> command_result run) \<Rightarrow> host \<Rightarrow> string \<Rightarrow> string \<Rightarrow> shell \<Rightarrow>
   (py_exn + command_result) \<times> string \<times> shell" where
  "command_body rec h cmd_line stdin s =
     (case shlex_split cmd_line of
        Inl e \<Rightarrow> (Inr (fail_code (''bash: '' @ e) 2), ''vfs'', s)
      | Inr [] \<Rightarrow> (Inr (CommandResult [] 0), ''vfs'', s)
      | Inr tokens \<Rightarrow>
          (case parse_redirection tokens of
             Inl e \<Rightarrow> (Inr (fail_code e 2), ''vfs'', s)
           | Inr (command_tokens, redirect_path, app) \<Rightarrow>
               (let cmd_name = (case command_tokens of [] \<Rightarrow> [] | t # _ \<Rightarrow> t) in
                if redirect_path \<noteq> None \<and> is_infinite_cat command_tokens s then
                  (case stream_infinite_redirect h cmd_name command_tokens (the redirect_path) app s of
                     (r, s) \<Rightarrow> (r, ''vfs'', s))
                else
                  (case (if command_tokens = [] then (Inr (CommandResult [] 0, ''vfs''), s)
                         else dispatch rec h command_tokens
                           (if redirect_path = None then strip_ws cmd_line else join '' '' command_tokens)
                           stdin (sh_script_depth s) s) of
                     (Inl e, s) \<Rightarrow> (Inl e, ''vfs'', s)
                   | (Inr (r, path), s) \<Rightarrow>
                       (case redirect_path of
                          None \<Rightarrow> (Inr r, path, s)
                        | Some target \<Rightarrow>
                            (case apply_redirection h r target app cmd_name s of
                               (r, s) \<Rightarrow> (r, path, s)))))))"

definition log_command :: "host \<Rightarrow> string \<Rightarrow> string \<Rightarrow> shell \<Rightarrow> shell" where
  "log_command h stripped path s =
     tick (s\<lparr>sh_logs := record_command (h_log_ok h (sh_tick s)) (iso_utc_now (h_now h (sh_tick s)))
       (sh_session_id s) (sh_client_ip s) stripped path (h_duration h (sh_tick s))
       (sh_captured_artifacts s) (sh_command_extra s) (sh_logs s)\<rparr>)"

definition execute_single_command ::
  "(string \<Rightarrow> shell \<Rightarrow> command_result run) \<Rightarrow> host \<Rightarrow> string \<Rightarrow> string \<Rightarrow> shell \<Rightarrow> command_result run" where
  "execute_single_command rec h cmd_line stdin s =
     (let stripped = strip_ws cmd_line in
      if stripped = [] then (Inr (CommandResult [] 0), s)
      else
        (case command_body rec h cmd_line stdin (s\<lparr>sh_captured_artifacts := [], sh_command_extra := []\<rparr>) of
           (Inl e, path, s) \<Rightarrow> (Inl e, log_command h stripped path s)
         | (Inr r, path, s) \<Rightarrow>
             (Inr (r\<lparr>cr_path := path\<rparr>),
              (log_command h stripped path s)\<lparr>sh_last_exit_code := cr_exit_code r\<rparr>)))"

subsection \<open>Pipelines, conditionals and statements\<close>

fun run_stages ::
  "(string \<Rightarrow> shell \<Rightarrow> command_result run) \<Rightarrow> host \<Rightarrow> string list \<Rightarrow> string \<Rightarrow> command_result \<Rightarrow> shell \<Rightarrow>
   command_result run" where
  "run_stages rec h [] stdin r s = (Inr r, s)"
| "run_stages rec h (stage # stages) stdin r s =
     (case execute_single_command rec h stage stdin s of
        (Inl e, s') \<Rightarrow> (Inl e, s')
      | (Inr r', s') \<Rightarrow>
          if cr_exit_session r' then (Inr r', s') else run_stages rec h stages (cr_output r') r' s')"

definition execute_pipeline ::
  "(string \<Rightarrow> shell \<Rightarrow> command_result run) \<Rightarrow> host \<Rightarrow> string \<Rightarrow> shell \<Rightarrow> command_result run" where
  "execute_pipeline rec h line s = run_stages rec h (split_pipeline line) [] (CommandResult [] 0) s"

fun run_segments ::
  "(string \<Rightarrow> shell \<Rightarrow> command_result run) \<Rightarrow> host \<Rightarrow> chain_segment list \<Rightarrow> string list \<Rightarrow> bool \<Rightarrow>
   command_result \<Rightarrow> shell \<Rightarrow> command_result run" where
  "run_segments rec h [] outputs last_ok r s = (Inr (joined outputs r), s)"
| "run_segments rec h (segment # segments) outputs last_ok r s =
     (if seg_operator segment = ''&&'' \<and> \<not> last_ok then run_segments rec h segments outputs last_ok r s
      else if seg_operator segment = ''||'' \<and> last_ok then run_segments rec h segments outputs last_ok r s
      else
        (case execute_pipeline rec h (seg_command segment) s of
           (Inl e, s') \<Rightarrow> (Inl e, s')
         | (Inr r', s') \<Rightarrow>
             if cr_exit_session r' then (Inr (joined (collect outputs r') r'), s')
             else run_segments rec h segments (collect outputs r') (result_ok r') r' s'))"

definition execute_conditionals ::
  "(string \<Rightarrow> shell \<Rightarrow> command_result run) \<Rightarrow> host \<Rightarrow> string \<Rightarrow> shell \<Rightarrow> command_result run" where
  "execute_conditionals rec h statement s =
     run_segments rec h (split_conditionals statement) [] True (CommandResult [] 0) s"

fun run_statements ::
  "(string \<Rightarrow> shell \<Rightarrow> command_result run) \<Rightarrow> host \<Rightarrow> string list \<Rightarrow> string list \<Rightarrow> command_result \<Rightarrow>
   shell \<Rightarrow> command_result run" where
  "run_statements rec h [] outputs r s = (Inr (joined outputs r), s)"
| "run_statements rec h (statement # statements) outputs r s =
     (case execute_conditionals rec h statement s of
        (Inl e, s') \<Rightarrow> (Inl e, s')
      | (Inr r', s') \<Rightarrow>
          if cr_exit_session r' then (Inr (joined (collect outputs r') r'), s')
          else run_statements rec h statements (collect outputs r') r' s')"

definition execute ::
  "(string \<Rightarrow> shell \<Rightarrow> command_result run) \<Rightarrow> host \<Rightarrow> string \<Rightarrow> shell \<Rightarrow> command_result run" where
  "execute rec h line s =
     (let stripped = strip_ws line in
      if stripped = [] then (Inr (CommandResult [] 0), s)
      else run_statements rec h (split_statements stripped) [] (CommandResult [] 0) s)"

text \<open>\<^verbatim>\<open>Shell.execute\<close> with at most the given number of nested calls of itself.\<close>

fun exec :: "nat \<Rightarrow> host \<Rightarrow> string \<Rightarrow> shell \<Rightarrow> command_result run" where
  "exec 0 h line s = (Inl RecursionError, s)"
| "exec (Suc fuel) h line s = execute (exec fuel h) h line s"

end
