(* ===== verification/Shell_Laws.thy ===== *)
theory Shell_Laws
  imports Shell_Exec
begin

text \<open>
  What a command line may do to the state of a shell, as an interface.  The locale \<^verbatim>\<open>shell_relation\<close>
  fixes a relation between states and assumes that it is a preorder that holds across each primitive
  change of the state the handlers make; it concludes that the relation holds across every command
  line, whatever its layers and however it ends.  The interpretations are in \<^verbatim>\<open>Shell_Invariants\<close>.
\<close>

subsection \<open>The filesystem calls of the handlers\<close>

definition vfs_steps :: "(int \<Rightarrow> vfs \<Rightarrow> 'a outcome) \<Rightarrow> bool" where
  "vfs_steps f \<longleftrightarrow> (\<forall>now v. \<exists>op. snd (f now v) = snd (vfs_run op v))"

lemma vfs_stepsI: "(\<And>now v. snd (f now v) = snd (vfs_run (op now) v)) \<Longrightarrow> vfs_steps f"
  unfolding vfs_steps_def by blast

lemma vfs_steps_intros [intro!]:
  "vfs_steps (touch p c)" "vfs_steps (write_file p t c a)" "vfs_steps (mkdir p c ps md)"
  "vfs_steps (\<lambda>_. remove k p c rc fc)" "vfs_steps (\<lambda>_. rmdir p c)" "vfs_steps (\<lambda>_. chmod p spec c)"
  by (rule vfs_stepsI [where op = "Touch p c"] vfs_stepsI [where op = "WriteFile p t c a"]
      vfs_stepsI [where op = "Mkdir p c ps md"] vfs_stepsI [where op = "\<lambda>_. Remove k p c rc fc"]
      vfs_stepsI [where op = "\<lambda>_. Rmdir p c"] vfs_stepsI [where op = "\<lambda>_. Chmod p spec c"]; simp; fail)+

subsection \<open>The handlers of the table\<close>

lemma handler_cases:
  assumes "handler h stdin command = Some f"
  shows "f = cmd_pwd \<or> f = cmd_cd \<or> f = cmd_ls h \<or> f = (\<lambda>args. cmd_cat args stdin) \<or>
    f = (\<lambda>args. cmd_grep h args stdin) \<or> f = cmd_touch h \<or> f = cmd_echo \<or> f = cmd_true \<or> f = cmd_false \<or>
    f = cmd_mkdir h \<or> f = cmd_rm h \<or> f = cmd_rmdir h \<or> f = cmd_chmod h \<or> f = cmd_wget h \<or> f = cmd_curl h \<or>
    f = cmd_which \<or> f = cmd_uname \<or> f = cmd_env \<or> f = cmd_exit \<or> f = cmd_history \<or> f = cmd_unset"
  using assms by (auto simp: handler_def split: if_splits)

text \<open>The handlers that leave the state alone.\<close>

lemma handlers_pure [simp]:
  "snd (cmd_pwd args s) = s" "snd (cmd_cat args stdin s) = s" "snd (cmd_grep h args stdin s) = s"
  "snd (cmd_echo args s) = s" "snd (cmd_true args s) = s" "snd (cmd_false args s) = s"
  "snd (cmd_which args s) = s" "snd (cmd_uname args s) = s" "snd (cmd_env args s) = s"
  "snd (cmd_exit args s) = s" "snd (cmd_history args s) = s" "snd (cmd_unset args s) = s"
  by (auto simp: cmd_pwd_def cmd_cat_def cmd_grep_def cmd_echo_def cmd_true_def cmd_false_def cmd_which_def
      cmd_uname_def cmd_env_def cmd_exit_def cmd_history_def cmd_unset_def Let_def
      split: option.splits sum.splits regex_result.splits prod.splits)

subsection \<open>The interface\<close>

lemma sum_option_cases:
  obtains (1) e where "x = Inl e" | (2) "x = Inr None" | (3) y where "x = Inr (Some y)"
  by (cases x; cases "projr x") auto

text \<open>The keys of the metadata that the execution trap leaves for the log.\<close>

definition TRAP_KEYS :: "string list" where
  "TRAP_KEYS = [''target_path'', ''file_metadata'']"

locale shell_relation =
  fixes h :: host and R :: "shell \<Rightarrow> shell \<Rightarrow> bool"
  assumes R_refl: "R s s"
    and R_trans: "R s s' \<Longrightarrow> R s' s'' \<Longrightarrow> R s s''"
    and R_tick: "sh_tick s \<le> n \<Longrightarrow> R s (s\<lparr>sh_tick := n\<rparr>)"
    and R_vfs: "R s (s\<lparr>sh_vfs := snd (vfs_run op (sh_vfs s))\<rparr>)"
    and R_quarantine: "R s (quarantine_file h nm text url s)"
    and R_cd: "target = canonicalize raw (sh_cwd s) (sh_home s) \<and> (raw \<noteq> ''-'' \<or> raw = sh_home s) \<or>
        sh_oldpwd s = Some target \<Longrightarrow>
      R s (s\<lparr>sh_oldpwd := Some (sh_cwd s), sh_cwd := target,
        sh_ip_cwd := map_option (\<lambda>_. target) (sh_ip_cwd s)\<rparr>)"
    and R_extra: "map fst x = TRAP_KEYS \<Longrightarrow> R s (s\<lparr>sh_command_extra := x\<rparr>)"
    and R_reset: "R s (s\<lparr>sh_captured_artifacts := [], sh_command_extra := []\<rparr>)"
    and R_code: "R s (s\<lparr>sh_last_exit_code := c\<rparr>)"
    and R_log: "R s (log_command h stripped path s)"
    and R_llm: "is_llm_eligible_command tokens \<Longrightarrow> is_safe_llm_argv tokens \<Longrightarrow>
      R s (s\<lparr>sh_llm_calls := sh_llm_calls s @ [tokens]\<rparr>)"
    and R_cache: "R s (s\<lparr>sh_llm_cache := AList.update key (to_json sim) (sh_llm_cache s)\<rparr>)"
    and R_depth: "R (s\<lparr>sh_script_depth := d\<rparr>) s' \<Longrightarrow> R s (s'\<lparr>sh_script_depth := sh_script_depth s\<rparr>)"
begin

lemma tick_R: "R s (tick s)"
  using R_tick [of s "sh_tick s + 1"] by (simp add: tick_def)

lemma vfs_call_R: "vfs_steps f \<Longrightarrow> vfs_call h f s = (r, s') \<Longrightarrow> R s s'"
proof -
  assume f: "vfs_steps f" and c: "vfs_call h f s = (r, s')"
  from f obtain op where "snd (f (h_now h (sh_tick s)) (sh_vfs s)) = snd (vfs_run op (sh_vfs s))"
    unfolding vfs_steps_def by blast
  with c have "s' = tick (s\<lparr>sh_vfs := snd (vfs_run op (sh_vfs s))\<rparr>)"
    by (auto simp: vfs_call_def split: prod.splits)
  then show "R s s'" using R_trans [OF R_vfs tick_R] by simp
qed

lemma each_path_R:
  "(\<And>p. vfs_steps (call p)) \<Longrightarrow> each_path h call message paths chunks s = (r, s') \<Longrightarrow> R s s'"
proof (induction paths arbitrary: chunks s)
  case (Cons p paths)
  obtain q s1 where c: "vfs_call h (call p) s = (q, s1)" by fastforce
  have "R s s1" using vfs_call_R [OF Cons.prems(1) c] .
  moreover have "R s1 s'"
    using Cons.prems c by (auto simp: R_refl split: sum.splits option.splits intro: Cons.IH)
  ultimately show ?case by (rule R_trans)
qed (simp add: R_refl)

lemma chunk_result_R:
  "(\<And>p. vfs_steps (call p)) \<Longrightarrow> chunk_result (each_path h call message paths chunks s) = (r, s') \<Longrightarrow> R s s'"
  using each_path_R [of call message paths chunks s]
  by (cases "each_path h call message paths chunks s") (auto simp: chunk_result_def split: sum.splits)

subsubsection \<open>Handlers\<close>

lemma cmd_cd_R: "cmd_cd args s = (r, s') \<Longrightarrow> R s s'"
  by (auto simp: cmd_cd_def Let_def R_refl split: if_splits sum.splits vfs_error.splits
      intro!: R_cd)

lemma cmd_ls_R: "cmd_ls h args s = (r, s') \<Longrightarrow> R s s'"
  by (auto simp: cmd_ls_def Let_def R_refl tick_R split: if_splits sum.splits vfs_error.splits prod.splits
      intro!: R_tick)

lemma cmd_paths_R:
  "cmd_mkdir h args s = (r, s') \<Longrightarrow> R s s'" "cmd_rm h args s = (r, s') \<Longrightarrow> R s s'"
  "cmd_rmdir h args s = (r, s') \<Longrightarrow> R s s'" "cmd_touch h args s = (r, s') \<Longrightarrow> R s s'"
  unfolding cmd_mkdir_def cmd_rm_def cmd_rmdir_def cmd_touch_def Let_def
  by (auto simp: R_refl split: if_splits elim!: chunk_result_R [rotated])

lemma cmd_chmod_R:
  assumes "cmd_chmod h args s = (r, s')"
  shows "R s s'"
proof (cases "length args \<le> 1")
  case True
  with assms show ?thesis by (auto simp: cmd_chmod_def R_refl split: list.splits)
next
  case False
  then obtain md p paths where args: "args = md # p # paths"
    by (cases args; cases "tl args") auto
  let ?e = "each_path h (\<lambda>path now. chmod path md (sh_cwd s)) chmod_message (p # paths) [] s"
  obtain q s1 where e: "?e = (q, s1)" by fastforce
  have "R s s1" by (rule each_path_R [OF _ e]) blast
  moreover have "s' = s1"
    using assms unfolding cmd_chmod_def args list.case e prod.case
    by (auto simp: chunk_result_def split: sum.splits vfs_error.splits)
  ultimately show ?thesis by simp
qed

lemma quarantine_vfs_R:
  "vfs_steps f \<Longrightarrow> vfs_call h f s = (q, s1) \<Longrightarrow> R s (quarantine_file h nm text url s1)"
  by (rule R_trans [OF vfs_call_R R_quarantine])

lemma cmd_wget_R:
  assumes "cmd_wget h args s = (r, s')"
  shows "R s s'"
proof (cases "parse_wget_args args")
  case (Pair url outp)
  show ?thesis
  proof (cases url)
    case None
    with assms Pair show ?thesis by (simp add: cmd_wget_def R_refl)
  next
    case (Some u)
    show ?thesis
    proof (cases "case outp of Some p \<Rightarrow> Inr p | None \<Rightarrow> url_filename h u")
      case (Inl e)
      with assms Pair Some show ?thesis by (simp add: cmd_wget_def R_refl)
    next
      case (Inr target)
      let ?p = "mocked_payload u (sh_client_ip s) (iso_utc_now (h_now h (sh_tick s)))"
      obtain q s1 where c: "vfs_call h (write_file target ?p (sh_cwd s) False) (tick s) = (q, s1)"
        by fastforce
      have "R (tick s) s1" by (rule vfs_call_R [OF _ c]) blast
      then have s1: "R s s1" by (rule R_trans [OF tick_R])
      have "R s (tick (quarantine_file h nm ?p u s1))" for nm
        by (rule R_trans [OF R_trans [OF s1 R_quarantine] tick_R])
      with assms s1 show ?thesis
        unfolding cmd_wget_def Pair Some prod.case option.case Inr sum.case Let_def c
        by (auto split: sum.splits option.splits)
    qed
  qed
qed

lemma cmd_curl_R:
  assumes "cmd_curl h args s = (r, s')"
  shows "R s s'"
proof (cases "curl_url (parse_curl_args args)")
  case None
  with assms show ?thesis by (simp add: cmd_curl_def R_refl)
next
  case (Some u)
  let ?p = "mocked_payload u (sh_client_ip s) (iso_utc_now (h_now h (sh_tick s)))"
  let ?t = "case curl_output_path (parse_curl_args args) of
      Some p \<Rightarrow> Inr (Some p)
    | None \<Rightarrow> if curl_remote_name (parse_curl_args args) then map_sum id Some (url_filename h u) else Inr None"
  have t: "R s (tick s)" by (rule tick_R)
  have q: "R s (quarantine_file h nm ?p u (tick s))" for nm
    by (rule R_trans [OF tick_R R_quarantine])
  show ?thesis
  proof (cases ?t rule: sum_option_cases)
    case (1 e)
    show ?thesis using assms t
      unfolding cmd_curl_def Let_def Some option.case 1 [unfolded option.case] sum.case by simp
  next
    case 2
    show ?thesis using assms t q
      unfolding cmd_curl_def Let_def Some option.case 2 [unfolded option.case] sum.case
      by (auto split: sum.splits)
  next
    case (3 target)
    obtain y s1 where c: "vfs_call h (write_file target ?p (sh_cwd (tick s)) False) (tick s) = (y, s1)"
      by fastforce
    have "R (tick s) s1" by (rule vfs_call_R [OF _ c]) blast
    then have s1: "R s s1" by (rule R_trans [OF tick_R])
    have "R s (quarantine_file h nm ?p u s1)" for nm by (rule R_trans [OF s1 R_quarantine])
    with assms s1 show ?thesis
      unfolding cmd_curl_def Let_def Some option.case 3 [unfolded option.case] sum.case c prod.case
      by (auto split: sum.splits option.splits)
  qed
qed

lemma handler_R:
  assumes "handler h stdin command = Some f" and "f args s = (r, s')"
  shows "R s s'"
proof -
  have "s' = snd (f args s)" using assms(2) by simp
  with handler_cases [OF assms(1)] show ?thesis
    using assms(2) by (elim disjE)
      (simp_all add: R_refl cmd_cd_R cmd_ls_R cmd_paths_R cmd_chmod_R cmd_wget_R cmd_curl_R del: split_paired_All)
qed

lemma exec_trap_R: "exec_trap path s = (r, s') \<Longrightarrow> R s s'"
  by (auto simp: exec_trap_def Let_def R_refl R_extra TRAP_KEYS_def split: if_splits sum.splits vfs_error.splits)

lemma apply_redirection_R:
  assumes "apply_redirection h result path app cmd s = (r, s')"
  shows "R s s'"
proof -
  obtain q s1 where c: "vfs_call h (write_file path (cr_output result) (sh_cwd s) app) s = (q, s1)"
    by fastforce
  have s1: "R s s1" by (rule vfs_call_R [OF _ c]) blast
  then have "R s (quarantine_file h nm t u s1)" for nm t u by (rule R_trans [OF _ R_quarantine])
  with assms s1 show ?thesis
    unfolding apply_redirection_def c prod.case by (auto split: sum.splits option.splits)
qed

lemma stream_writes_R: "stream_writes h path chunk n app s = (e, s') \<Longrightarrow> R s s'"
proof (induction n arbitrary: app s)
  case (Suc n)
  obtain q s1 where c: "vfs_call h (write_file path chunk (sh_cwd s) app) s = (q, s1)" by fastforce
  have "R s s1" by (rule vfs_call_R [OF _ c]) blast
  moreover have "R s1 s'" using Suc c by (auto simp: R_refl split: sum.splits)
  ultimately show ?case by (rule R_trans)
qed (simp add: R_refl)

lemma stream_infinite_redirect_R:
  assumes "stream_infinite_redirect h cmd tokens path app s = (r, s')"
  shows "R s s'"
  using assms unfolding stream_infinite_redirect_def Let_def
  by (auto simp: R_refl apply_redirection_R stream_writes_R
      split: option.splits sum.splits bool.splits if_splits prod.splits vfs_error.splits)

lemma dispatch_llm_R:
  assumes "dispatch_llm h command args tokens stripped stdin s = (r, s')"
  shows "R s s'"
proof -
  have "R s (tick (s\<lparr>sh_llm_calls := sh_llm_calls s @ [tokens]\<rparr>))"
    if "is_llm_eligible_command tokens" "is_safe_llm_argv tokens"
    by (rule R_trans [OF R_llm [OF that] tick_R])
  moreover have "R s (s'\<lparr>sh_llm_cache := AList.update key (to_json sim) (sh_llm_cache s')\<rparr>)"
    if "R s s'" for key sim s'
    by (rule R_trans [OF that R_cache])
  ultimately show ?thesis
    using assms unfolding dispatch_llm_def Let_def with_path_def llm_result_def
    by (auto simp: R_refl split: if_splits option.splits sum.splits)
qed

subsubsection \<open>Layers\<close>


text \<open>
  The layers above the handlers keep the relation if the recursive call does.
\<close>

definition keeps :: "(string \<Rightarrow> shell \<Rightarrow> 'a run) \<Rightarrow> bool" where
  "keeps rec \<longleftrightarrow> (\<forall>line s. R s (snd (rec line s)))"

lemma keepsD: "keeps rec \<Longrightarrow> rec line s = (r, s') \<Longrightarrow> R s s'"
  unfolding keeps_def by (metis snd_conv)

lemma run_lines_R:
  "keeps rec \<Longrightarrow> run_lines rec lines outputs r s = (q, s') \<Longrightarrow> R s s'"
proof (induction lines arbitrary: outputs r s)
  case (Cons line lines)
  obtain x s1 where c: "rec (strip_ws line) s = (x, s1)" by fastforce
  have "R s s1" using keepsD [OF Cons.prems(1) c] .
  with Cons c show ?case
    by (auto simp: Let_def split: if_splits sum.splits intro: R_trans)
qed (simp add: R_refl)

lemma execute_script_lines_R:
  assumes "keeps rec" and "execute_script_lines rec lines depth s = (q, s')"
  shows "R s s'"
proof -
  obtain x s1 where c: "run_lines rec lines [] (CommandResult [] 0) (s\<lparr>sh_script_depth := depth\<rparr>) = (x, s1)"
    by fastforce
  have "R s (s1\<lparr>sh_script_depth := sh_script_depth s\<rparr>)"
    by (rule R_depth [OF run_lines_R [OF assms(1) c]])
  with assms(2) c show ?thesis
    by (auto simp: execute_script_lines_def Let_def R_refl split: if_splits)
qed

lemma run_script_file_R:
  "keeps rec \<Longrightarrow> run_script_file rec command path depth s = (q, s') \<Longrightarrow> R s s'"
  by (auto simp: run_script_file_def Let_def with_path_def own_path_def R_refl
      split: if_splits sum.splits vfs_error.splits prod.splits intro: execute_script_lines_R)

lemma dispatch_wrapper_R:
  "keeps rec \<Longrightarrow> dispatch_wrapper rec tokens stdin depth s = (q, s') \<Longrightarrow> R s s'"
  by (auto simp: dispatch_wrapper_def with_path_def own_path_def R_refl
      split: if_splits option.splits prod.splits
      intro: execute_script_lines_R run_script_file_R keepsD)

lemma dispatch_R:
  "keeps rec \<Longrightarrow> dispatch rec h tokens stripped stdin depth s = (q, s') \<Longrightarrow> R s s'"
  unfolding dispatch_def Let_def
  by (auto simp: with_path_def own_path_def R_refl
      split: if_splits option.splits prod.splits list.splits
      intro: dispatch_wrapper_R exec_trap_R handler_R dispatch_llm_R)

lemma command_body_R:
  assumes "keeps rec" and "command_body rec h cmd stdin s = (q, path, s')"
  shows "R s s'"
proof -
  have "R s s2" if "dispatch rec h ts st stdin d s = (y, s1)" and "apply_redirection h x t a n s1 = (z, s2)"
    for ts st d y s1 x t a n z s2
    by (rule R_trans [OF dispatch_R [OF assms(1) that(1)] apply_redirection_R [OF that(2)]])
  then show ?thesis
    using assms(2) unfolding command_body_def Let_def
    by (auto simp: R_refl split: sum.splits list.splits prod.splits if_splits option.splits
        intro: stream_infinite_redirect_R dispatch_R [OF assms(1)] apply_redirection_R)
qed

lemma execute_single_command_R:
  assumes "keeps rec" and "execute_single_command rec h cmd stdin s = (q, s')"
  shows "R s s'"
proof -
  obtain x path s1 where c: "command_body rec h cmd stdin
      (s\<lparr>sh_captured_artifacts := [], sh_command_extra := []\<rparr>) = (x, path, s1)"
    by (metis prod_cases3)
  have "R s s1" by (rule R_trans [OF R_reset command_body_R [OF assms(1) c]])
  then have "R s (log_command h (strip_ws cmd) path s1)" by (rule R_trans [OF _ R_log])
  moreover from this have
    "R s ((log_command h (strip_ws cmd) path s1)\<lparr>sh_last_exit_code := code\<rparr>)" for code
    by (rule R_trans [OF _ R_code])
  ultimately show ?thesis
    using assms(2) c by (auto simp: execute_single_command_def Let_def R_refl split: if_splits sum.splits)
qed

lemma run_stages_R:
  "keeps rec \<Longrightarrow> run_stages rec h stages stdin r s = (q, s') \<Longrightarrow> R s s'"
proof (induction stages arbitrary: stdin r s)
  case (Cons stage stages)
  obtain x s1 where c: "execute_single_command rec h stage stdin s = (x, s1)" by fastforce
  have "R s s1" by (rule execute_single_command_R [OF Cons.prems(1) c])
  with Cons c show ?case by (auto split: if_splits sum.splits intro: R_trans)
qed (simp add: R_refl)

lemma run_segments_R:
  "keeps rec \<Longrightarrow> run_segments rec h segments outputs ok r s = (q, s') \<Longrightarrow> R s s'"
proof (induction segments arbitrary: outputs ok r s)
  case (Cons segment segments)
  obtain x s1 where c: "execute_pipeline rec h (seg_command segment) s = (x, s1)" by fastforce
  then have "R s s1" using run_stages_R [OF Cons.prems(1)] by (auto simp: execute_pipeline_def)
  with Cons c show ?case by (auto split: if_splits sum.splits intro: R_trans)
qed (simp add: R_refl)

lemma run_statements_R:
  "keeps rec \<Longrightarrow> run_statements rec h statements outputs r s = (q, s') \<Longrightarrow> R s s'"
proof (induction statements arbitrary: outputs r s)
  case (Cons statement statements)
  obtain x s1 where c: "execute_conditionals rec h statement s = (x, s1)" by fastforce
  then have "R s s1" using run_segments_R [OF Cons.prems(1)] by (auto simp: execute_conditionals_def)
  with Cons c show ?case by (auto split: if_splits sum.splits intro: R_trans)
qed (simp add: R_refl)

lemma execute_keeps:
  assumes "keeps rec"
  shows "keeps (execute rec h)"
  unfolding keeps_def
proof (intro allI)
  fix line s
  obtain q s' where "execute rec h line s = (q, s')" by fastforce
  then show "R s (snd (execute rec h line s))"
    by (auto simp: execute_def Let_def R_refl split: if_splits intro: run_statements_R [OF assms])
qed

lemma exec_keeps: "keeps (exec fuel h)"
proof (induction fuel)
  case (Suc fuel)
  have "keeps (execute (exec fuel h) h)" by (rule execute_keeps [OF Suc])
  then show ?case by (simp add: keeps_def)
qed (simp add: keeps_def R_refl)

text \<open>The conclusion of the interface.\<close>

lemma exec_R: "R s (snd (exec fuel h line s))"
  using exec_keeps by (simp add: keeps_def)

lemma exec_result_R: "exec fuel h line s = (r, s') \<Longrightarrow> R s s'"
  using exec_R [of s fuel line] by simp

end

end
