(* ===== verification/Shell_Invariants.thy ===== *)
theory Shell_Invariants
  imports Shell_Laws
begin

text \<open>
  The interpretations of \<^verbatim>\<open>shell_relation\<close> on the shell: what every command line keeps of the
  filesystem, the logs, the calls of the language model, the quarantine and the directories, and the
  properties of whole sessions that follow.
\<close>

text \<open>A host without a model, a disk or wide characters, for the concrete runs of the witnesses.\<close>

definition quiet_host :: host where
  "quiet_host = \<lparr>h_now = (\<lambda>n. 1000000 * int n), h_duration = (\<lambda>n. ''0.5''), h_log_ok = (\<lambda>n. True),
     h_quarantine_ok = (\<lambda>n. True), h_provider = (\<lambda>n. NullLLMProvider), h_stack = (\<lambda>n. 900), h_sha256 = (\<lambda>b. take 32 (b @ replicate 32 nl)),
     h_md5 = (\<lambda>b. []), h_decode = (\<lambda>b. b), h_bracket_ok = (\<lambda>b. True), h_wide = (\<lambda>n. ''?''),
     h_regex = (\<lambda>ignore p. RegexOk (\<lambda>line. p = line))\<rparr>"

definition tiny_shell :: shell where
  "tiny_shell = Shell tiny_vfs [] ''s1'' ''192.0.2.7'' (Some ''/tmp'') None"

definition session_run :: "nat \<Rightarrow> host \<Rightarrow> string list \<Rightarrow> shell \<Rightarrow> shell" where
  "session_run fuel h lines s = fold (\<lambda>line s. snd (exec fuel h line s)) lines s"

context shell_relation
begin

lemma session_R: "R s (session_run fuel h lines s)"
  unfolding session_run_def
  by (induction lines arbitrary: s) (auto simp: R_refl intro: R_trans exec_R)

end

text \<open>How the two steps with a library behind them change the fields.\<close>

lemma log_command_simps [simp]:
  "sh_vfs (log_command h c p s) = sh_vfs s" "sh_home (log_command h c p s) = sh_home s"
  "sh_cwd (log_command h c p s) = sh_cwd s" "sh_oldpwd (log_command h c p s) = sh_oldpwd s"
  "sh_ip_cwd (log_command h c p s) = sh_ip_cwd s" "sh_llm_calls (log_command h c p s) = sh_llm_calls s"
  "sh_quarantine (log_command h c p s) = sh_quarantine s"
  "sh_captured_artifacts (log_command h c p s) = sh_captured_artifacts s"
  "sh_session_id (log_command h c p s) = sh_session_id s"
  "sh_client_ip (log_command h c p s) = sh_client_ip s"
  "sh_script_depth (log_command h c p s) = sh_script_depth s"
  "sh_llm_cache (log_command h c p s) = sh_llm_cache s"
  by (simp_all add: log_command_def tick_def)

lemma quarantine_file_simps [simp]:
  "sh_vfs (quarantine_file h nm t u s) = sh_vfs s" "sh_home (quarantine_file h nm t u s) = sh_home s"
  "sh_cwd (quarantine_file h nm t u s) = sh_cwd s" "sh_oldpwd (quarantine_file h nm t u s) = sh_oldpwd s"
  "sh_ip_cwd (quarantine_file h nm t u s) = sh_ip_cwd s"
  "sh_llm_calls (quarantine_file h nm t u s) = sh_llm_calls s"
  "sh_logs (quarantine_file h nm t u s) = sh_logs s"
  "sh_session_id (quarantine_file h nm t u s) = sh_session_id s"
  "sh_client_ip (quarantine_file h nm t u s) = sh_client_ip s"
  "sh_script_depth (quarantine_file h nm t u s) = sh_script_depth s"
  "sh_llm_cache (quarantine_file h nm t u s) = sh_llm_cache s"
  by (auto simp: quarantine_file_def tick_def Let_def split: prod.splits option.splits)

subsection \<open>Filesystem and constant fields\<close>

lemma vfs_reachable_trans: "vfs_reachable v2 v3 \<Longrightarrow> vfs_reachable v1 v2 \<Longrightarrow> vfs_reachable v1 v3"
  by (induction rule: vfs_reachable.induct) (auto intro: vfs_reachable.call)

lemma vfs_reachable_run: "vfs_reachable v (snd (vfs_run op v))"
  by (rule vfs_reachable.call [OF vfs_reachable.start]) (rule prod.collapse [symmetric])

definition frame_step :: "shell \<Rightarrow> shell \<Rightarrow> bool" where
  "frame_step s s' \<longleftrightarrow> vfs_reachable (sh_vfs s) (sh_vfs s') \<and> sh_home s' = sh_home s \<and>
     sh_session_id s' = sh_session_id s \<and> sh_client_ip s' = sh_client_ip s \<and>
     sh_script_depth s' = sh_script_depth s"

interpretation frame: shell_relation h frame_step
  by unfold_locales
    (auto simp: frame_step_def vfs_reachable_run intro: vfs_reachable.start vfs_reachable_trans)

text \<open>
  What every filesystem of an attacker keeps of the quotas: a well-formed tree, no run-time file above
  10 MiB, a counter that exceeds neither 50 MiB nor the bytes held by run-time files; and, unless a
  removal has exceeded the recursion limit of the interpreter, a counter that is the number of these
  bytes, so that together they stay within 50 MiB.
\<close>

definition within_quota :: "vfs \<Rightarrow> bool" where
  "within_quota v \<longleftrightarrow> is_directory (vfs_root v) \<and> wf_node (vfs_root v) \<and>
     small_files (10 * 1024 * 1024) (vfs_root v) \<and>
     dynamic_bytes_used v \<le> 50 * 1024 * 1024 \<and> dynamic_bytes_used v \<le> dyn_bytes (vfs_root v) \<and>
     (\<not> removal_overflowed v \<longrightarrow>
        dynamic_bytes_used v = dyn_bytes (vfs_root v) \<and> dyn_bytes (vfs_root v) \<le> 50 * 1024 * 1024)"

lemma reachable_quota:
  assumes "vfs_reachable create_default_vfs v"
  shows "within_quota v" and "max_total_vfs_bytes v = 50 * 1024 * 1024"
    and "max_file_size_bytes v = 10 * 1024 * 1024"
proof -
  have "vfs_inv v" "config v = config create_default_vfs"
    using reachable_inv [OF assms create_default_vfs_inv] by auto
  moreover from this(2) show "max_total_vfs_bytes v = 50 * 1024 * 1024" "max_file_size_bytes v = 10 * 1024 * 1024"
    by (simp_all add: config_def create_default_vfs_def VirtualFileSystem_def MAX_TOTAL_VFS_BYTES_def
        MAX_FILE_SIZE_BYTES_def)
  ultimately show "within_quota v" by (auto simp: within_quota_def vfs_inv_def counter_ok_def)
qed

text \<open>
  C11. Whatever command lines an attacker runs in a fresh session, the filesystem keeps its quotas: the
  tree stays well formed, no run-time file is larger than 10 MiB, and the byte counter exceeds neither
  50 MiB nor the bytes held by run-time files.  As long as no removal has exceeded the recursion limit
  of the interpreter, the counter is the number of these bytes, so that together they stay within
  50 MiB.  The limits, the recursion counter of the script interpreter, the session id and the client
  address are as at the start.
\<close>

theorem session_quota:
  "let s = session_run fuel h lines (Shell create_default_vfs llm_cache sid ip cwd ip_cwd)
   in within_quota (sh_vfs s) \<and> max_total_vfs_bytes (sh_vfs s) = 50 * 1024 * 1024 \<and>
      max_file_size_bytes (sh_vfs s) = 10 * 1024 * 1024 \<and>
      sh_script_depth s = 0 \<and> sh_session_id s = sid \<and> sh_client_ip s = ip"
proof -
  define s0 where "s0 = Shell create_default_vfs llm_cache sid ip cwd ip_cwd"
  define s where "s = session_run fuel h lines s0"
  have f: "frame_step s0 s" unfolding s_def by (rule frame.session_R)
  then have "vfs_reachable create_default_vfs (sh_vfs s)"
    by (simp add: frame_step_def s0_def Shell_def Let_def)
  from reachable_quota [OF this] f show ?thesis
    unfolding Let_def s0_def [symmetric] s_def [symmetric]
    by (simp add: frame_step_def s0_def Shell_def Let_def)
qed

subsection \<open>Logs\<close>

definition log_step :: "shell \<Rightarrow> shell \<Rightarrow> bool" where
  "log_step s s' \<longleftrightarrow> sh_session_id s' = sh_session_id s \<and>
     (\<exists>new. log_text (sh_logs s') = (log_text (sh_logs s))
        (session_log_path (sh_session_id s) := log_text (sh_logs s) (session_log_path (sh_session_id s)) @ new))"

lemma log_step_same: "sh_session_id s' = sh_session_id s \<Longrightarrow> sh_logs s' = sh_logs s \<Longrightarrow> log_step s s'"
  unfolding log_step_def by (auto intro!: exI [of _ "[]"])

lemma log_step_log: "log_step s (log_command h c p s)"
proof -
  have "\<exists>new. log_text (record_command b t sid ip c p d a x l) =
      (log_text l)(session_log_path sid := log_text l (session_log_path sid) @ new)" for b t sid ip d a x l
    by (cases b) (auto simp: record_command_def Let_def log_text_append fun_eq_iff intro!: exI [of _ "[]"])
  then show ?thesis by (simp add: log_step_def log_command_def tick_def)
qed

interpretation audit: shell_relation h log_step
proof unfold_locales
  fix s s' s'' assume "log_step s s'" "log_step s' s''"
  then show "log_step s s''" by (auto simp: log_step_def intro: exI)
next
  fix s d s' assume "log_step (s\<lparr>sh_script_depth := d\<rparr>) s'"
  then show "log_step s (s'\<lparr>sh_script_depth := sh_script_depth s\<rparr>)" by (simp add: log_step_def)
qed (auto intro: log_step_log log_step_same)

text \<open>
  C29. The audit trail is append-only and private: a command line, however it ends, appends to the log
  file of its own session and changes no other file, the authentication log included.
\<close>

theorem audit_append_only:
  "\<exists>new. log_text (sh_logs (snd (exec fuel h line s))) =
     (log_text (sh_logs s))(session_log_path (sh_session_id s) :=
        log_text (sh_logs s) (session_log_path (sh_session_id s)) @ new)"
  using audit.exec_R [of s fuel h line] by (simp add: log_step_def)

subsection \<open>Calls of the language model\<close>

definition guarded :: "string list \<Rightarrow> bool" where
  "guarded tokens \<longleftrightarrow> is_llm_eligible_command tokens \<and> is_safe_llm_argv tokens"

definition llm_step :: "shell \<Rightarrow> shell \<Rightarrow> bool" where
  "llm_step s s' \<longleftrightarrow> (\<exists>new. sh_llm_calls s' = sh_llm_calls s @ new \<and> list_all guarded new)"

lemma llm_step_same: "sh_llm_calls s' = sh_llm_calls s \<Longrightarrow> llm_step s s'"
  by (simp add: llm_step_def)

interpretation gate: shell_relation h llm_step
proof unfold_locales
  fix s s' s'' assume "llm_step s s'" "llm_step s' s''"
  then show "llm_step s s''" by (auto simp: llm_step_def)
next
  fix s d s' assume "llm_step (s\<lparr>sh_script_depth := d\<rparr>) s'"
  then show "llm_step s (s'\<lparr>sh_script_depth := sh_script_depth s\<rparr>)" by (simp add: llm_step_def)
next
  fix s tokens assume "is_llm_eligible_command tokens" "is_safe_llm_argv tokens"
  then show "llm_step s (s\<lparr>sh_llm_calls := sh_llm_calls s @ [tokens]\<rparr>)" by (simp add: llm_step_def guarded_def)
qed (auto intro: llm_step_same)

lemma safe_arg_bounds:
  "safe_arg a \<Longrightarrow> length a \<le> 64 \<and> list_all (\<lambda>c. c \<notin> set UNSAFE_ARGV_CHARS) a \<and>
    (a \<noteq> ''-'' \<and> startswith a ''-'' \<or>
     a \<noteq> [] \<and> ascii_alnum (hd a) \<and> list_all (\<lambda>c. ascii_alnum c \<or> c \<in> set ''._@+-'') a)"
  by (auto simp: safe_arg_def is_identifier_def ARGV_MAX_LEN_def list_all_iff split: if_splits list.splits)

text \<open>
  C3. The gate in front of the language model: whatever the attacker types, each argument vector that
  reaches the provider during a command line names an allowlisted binary, and every argument has at
  most 64 characters, none of them a blank, tab, line feed, carriage return, question or exclamation
  mark.  An argument that does not begin with a dash, and the dash alone, must be an identifier: an
  ASCII letter or digit followed by letters, digits and the characters \<^verbatim>\<open>._@+-\<close>.  Arguments that
  begin with a dash are not restricted further.
\<close>

theorem llm_gate:
  "\<exists>new. sh_llm_calls (snd (exec fuel h line s)) = sh_llm_calls s @ new \<and>
     list_all (\<lambda>tokens. tokens \<noteq> [] \<and> strip_system_prefix (hd tokens) \<in> set LLM_ALLOWED_BINARIES \<and>
       list_all (\<lambda>a. length a \<le> 64 \<and> list_all (\<lambda>c. c \<notin> set [CHR '' '', tab, nl, cr, CHR ''?'', CHR ''!'']) a \<and>
           (a \<noteq> ''-'' \<and> startswith a ''-'' \<or>
            a \<noteq> [] \<and> ascii_alnum (hd a) \<and> list_all (\<lambda>c. ascii_alnum c \<or> c \<in> set ''._@+-'') a))
         (tl tokens)) new"
proof -
  let ?arg = "\<lambda>a. length a \<le> 64 \<and> list_all (\<lambda>c. c \<notin> set [CHR '' '', tab, nl, cr, CHR ''?'', CHR ''!'']) a \<and>
      (a \<noteq> ''-'' \<and> startswith a ''-'' \<or>
       a \<noteq> [] \<and> ascii_alnum (hd a) \<and> list_all (\<lambda>c. ascii_alnum c \<or> c \<in> set ''._@+-'') a)"
  let ?argv = "\<lambda>tokens. tokens \<noteq> [] \<and> strip_system_prefix (hd tokens) \<in> set LLM_ALLOWED_BINARIES \<and>
      list_all ?arg (tl tokens)"
  have arg: "safe_arg a \<Longrightarrow> ?arg a" for a
    using safe_arg_bounds [of a] unfolding UNSAFE_ARGV_CHARS_def by simp
  have argv: "?argv tokens" if "guarded tokens" for tokens
  proof (intro conjI)
    show "tokens \<noteq> []" "strip_system_prefix (hd tokens) \<in> set LLM_ALLOWED_BINARIES"
      using that by (cases tokens; simp add: guarded_def is_llm_eligible_command_def)+
    have "list_all safe_arg (tl tokens)"
      using that by (cases tokens) (simp_all add: guarded_def is_safe_llm_argv_def)
    then show "list_all ?arg (tl tokens)" by (rule list.pred_mono_strong) (rule arg)
  qed
  obtain new where "sh_llm_calls (snd (exec fuel h line s)) = sh_llm_calls s @ new" "list_all guarded new"
    using gate.exec_R [of s fuel h line] by (auto simp: llm_step_def)
  moreover from this(2) have "list_all ?argv new" by (rule list.pred_mono_strong) (rule argv)
  ultimately show ?thesis by blast
qed

subsection \<open>Quarantine\<close>

definition sealed :: "host \<Rightarrow> quarantine \<Rightarrow> bool" where
  "sealed h q \<longleftrightarrow> list_all (\<lambda>(digest, bytes). digest = hexdigest (h_sha256 h bytes)) q"

definition filed :: "shell \<Rightarrow> bool" where
  "filed s \<longleftrightarrow> list_all (\<lambda>a. a \<in> fst ` set (sh_quarantine s)) (sh_captured_artifacts s)"

definition vault_step :: "host \<Rightarrow> shell \<Rightarrow> shell \<Rightarrow> bool" where
  "vault_step h s s' \<longleftrightarrow>
     (sealed h (sh_quarantine s) \<longrightarrow> sealed h (sh_quarantine s')) \<and>
     fst ` set (sh_quarantine s) \<subseteq> fst ` set (sh_quarantine s') \<and> (filed s \<longrightarrow> filed s')"

lemma sealed_update:
  "sealed h q \<Longrightarrow> d = hexdigest (h_sha256 h b) \<Longrightarrow> sealed h (AList.update d b q)"
  by (induction q) (auto simp: sealed_def)

lemma vault_step_same:
  "sh_quarantine s' = sh_quarantine s \<Longrightarrow> sh_captured_artifacts s' = sh_captured_artifacts s \<or>
     sh_captured_artifacts s' = [] \<Longrightarrow> vault_step h s s'"
  by (auto simp: vault_step_def filed_def)

lemma vault_step_quarantine: "vault_step h s (quarantine_file h nm t u s)"
  by (auto simp: quarantine_file_def quarantine_artifact_def Let_def vault_step_def filed_def tick_def
      dom_update list_all_iff intro!: sealed_update)

interpretation vault: shell_relation h "vault_step h"
proof unfold_locales
  fix s s' s'' assume "vault_step h s s'" "vault_step h s' s''"
  then show "vault_step h s s''" by (auto simp: vault_step_def)
next
  fix s d s' assume "vault_step h (s\<lparr>sh_script_depth := d\<rparr>) s'"
  then show "vault_step h s (s'\<lparr>sh_script_depth := sh_script_depth s\<rparr>)" by (simp add: vault_step_def filed_def)
qed (auto intro: vault_step_quarantine vault_step_same simp: log_command_def tick_def)

subsection \<open>The records of the log\<close>

text \<open>
  The record of a command: the fields of the session, then metadata under other keys.  \<^verbatim>\<open>ledger\<close> is a
  log text made of such records, one per line, that name stored artifacts only.
\<close>

definition RECORD_KEYS :: "string list" where
  "RECORD_KEYS = [''timestamp'', ''session_id'', ''client_ip'', ''command'', ''execution_path'', ''duration_ms'',
     ''captured_artifacts'']"

definition session_record :: "string \<Rightarrow> string \<Rightarrow> string set \<Rightarrow> (string \<times> json) list \<Rightarrow> bool" where
  "session_record sid ip stored r \<longleftrightarrow>
     (\<exists>timestamp command path duration artifacts extra.
        r = command_record timestamp sid ip command path duration artifacts @ extra \<and>
        (extra = [] \<or> map fst extra = TRAP_KEYS) \<and> set artifacts \<subseteq> stored)"

definition ledger :: "string \<Rightarrow> string \<Rightarrow> string set \<Rightarrow> string \<Rightarrow> bool" where
  "ledger sid ip stored t \<longleftrightarrow>
     (\<exists>rs. t = concat (map (\<lambda>r. dumps (JObj r) @ [nl]) rs) \<and> list_all (session_record sid ip stored) rs)"

lemma ledger_Nil [simp]: "ledger sid ip stored []"
  by (auto simp: ledger_def intro: exI [of _ "[]"])

lemma ledger_append: "ledger sid ip stored t \<Longrightarrow> ledger sid ip stored u \<Longrightarrow> ledger sid ip stored (t @ u)"
  unfolding ledger_def by (elim exE conjE) (rule exI, rule conjI, simp flip: concat_append map_append, simp)

lemma session_record_mono:
  assumes "session_record sid ip stored r" and "stored \<subseteq> stored'"
  shows "session_record sid ip stored' r"
  using assms unfolding session_record_def by (elim exE conjE) (intro exI conjI, assumption+, rule subset_trans)

lemma ledger_mono:
  assumes "ledger sid ip stored t" and "stored \<subseteq> stored'"
  shows "ledger sid ip stored' t"
proof -
  from assms(1) obtain rs where t: "t = concat (map (\<lambda>r. dumps (JObj r) @ [nl]) rs)"
    and "list_all (session_record sid ip stored) rs" by (auto simp: ledger_def)
  from this(2) have "list_all (session_record sid ip stored') rs"
    by (rule list.pred_mono_strong) (rule session_record_mono [OF _ assms(2)])
  with t show ?thesis by (auto simp: ledger_def)
qed

lemma record_update_new:
  "fst ` set r \<inter> fst ` set x = {} \<Longrightarrow> distinct (map fst x) \<Longrightarrow> record_update r x = r @ x"
proof (induction x arbitrary: r)
  case (Cons kv x)
  have new: "k \<notin> fst ` set al \<Longrightarrow> AList.update k v al = al @ [(k, v)]" for k v and al :: "(string \<times> json) list"
    by (induction al) auto
  obtain k v where kv: "kv = (k, v)" by fastforce
  with Cons.prems have "k \<notin> fst ` set r" by auto
  moreover have "fst ` set (r @ [(k, v)]) \<inter> fst ` set x = {}" "distinct (map fst x)"
    using Cons.prems kv by auto
  ultimately show ?case
    using Cons.IH [of "r @ [(k, v)]"] by (simp add: record_update_def kv new)
qed (simp add: record_update_def)

lemma trap_record:
  assumes "extra = [] \<or> map fst extra = TRAP_KEYS"
  shows "record_update (command_record ts sid ip c p d a) extra = command_record ts sid ip c p d a @ extra"
proof -
  have "fst ` set extra \<subseteq> set TRAP_KEYS" "distinct (map fst extra)"
    using assms by (auto simp: TRAP_KEYS_def simp flip: set_map)
  moreover have "fst ` set (command_record ts sid ip c p d a) = set RECORD_KEYS"
    by (simp add: command_record_def RECORD_KEYS_def)
  moreover have "set RECORD_KEYS \<inter> set TRAP_KEYS = {}" by (simp add: RECORD_KEYS_def TRAP_KEYS_def)
  ultimately show ?thesis by (intro record_update_new) auto
qed

definition traced :: "shell \<Rightarrow> bool" where
  "traced s \<longleftrightarrow> filed s \<and> (sh_command_extra s = [] \<or> map fst (sh_command_extra s) = TRAP_KEYS)"

definition ledger_step :: "shell \<Rightarrow> shell \<Rightarrow> bool" where
  "ledger_step s s' \<longleftrightarrow> sh_session_id s' = sh_session_id s \<and> sh_client_ip s' = sh_client_ip s \<and>
     fst ` set (sh_quarantine s) \<subseteq> fst ` set (sh_quarantine s') \<and>
     (traced s \<longrightarrow> traced s' \<and>
        (\<exists>new. log_text (sh_logs s') (session_log_path (sh_session_id s)) =
             log_text (sh_logs s) (session_log_path (sh_session_id s)) @ new \<and>
           ledger (sh_session_id s) (sh_client_ip s) (fst ` set (sh_quarantine s')) new))"

lemma ledger_step_trans:
  assumes "ledger_step s s'" and "ledger_step s' s''"
  shows "ledger_step s s''"
proof -
  have "ledger sid ip (fst ` set (sh_quarantine s'')) (t @ u)"
    if "ledger sid ip (fst ` set (sh_quarantine s')) t" "ledger sid ip (fst ` set (sh_quarantine s'')) u" for sid ip t u
    using assms(2) that by (simp add: ledger_step_def ledger_append ledger_mono)
  moreover have "fst ` set (sh_quarantine s) \<subseteq> fst ` set (sh_quarantine s'')"
    using assms unfolding ledger_step_def by (elim conjE) (rule subset_trans)
  ultimately show ?thesis
    using assms unfolding ledger_step_def by simp (metis append_assoc)
qed

lemma ledger_step_same:
  "sh_session_id s' = sh_session_id s \<Longrightarrow> sh_client_ip s' = sh_client_ip s \<Longrightarrow> sh_logs s' = sh_logs s \<Longrightarrow>
   fst ` set (sh_quarantine s) \<subseteq> fst ` set (sh_quarantine s') \<Longrightarrow> (traced s \<Longrightarrow> traced s') \<Longrightarrow> ledger_step s s'"
  by (simp add: ledger_step_def)

lemma ledger_step_quarantine: "ledger_step s (quarantine_file h nm t u s)"
proof (rule ledger_step_same)
  have v: "vault_step h s (quarantine_file h nm t u s)" by (rule vault_step_quarantine)
  then show "fst ` set (sh_quarantine s) \<subseteq> fst ` set (sh_quarantine (quarantine_file h nm t u s))"
    by (simp add: vault_step_def)
  have "sh_command_extra (quarantine_file h nm t u s) = sh_command_extra s"
    by (auto simp: quarantine_file_def tick_def Let_def split: prod.splits option.splits)
  with v show "traced s \<Longrightarrow> traced (quarantine_file h nm t u s)" by (simp add: traced_def vault_step_def)
qed simp_all

text \<open>What the record of a command appends to the log.\<close>

definition log_line :: "host \<Rightarrow> string \<Rightarrow> string \<Rightarrow> shell \<Rightarrow> string" where
  "log_line h cmd path s =
     dumps (JObj (command_record (iso_utc_now (h_now h (sh_tick s))) (sh_session_id s) (sh_client_ip s) cmd path
       (h_duration h (sh_tick s)) (sh_captured_artifacts s) @ sh_command_extra s)) @ [nl]"

lemma log_command_line:
  assumes "sh_command_extra s = [] \<or> map fst (sh_command_extra s) = TRAP_KEYS"
  shows "log_text (sh_logs (log_command h cmd path s)) (session_log_path (sh_session_id s)) =
    log_text (sh_logs s) (session_log_path (sh_session_id s)) @
      (if h_log_ok h (sh_tick s) then log_line h cmd path s else [])"
  using trap_record [OF assms]
  by (auto simp: log_command_def tick_def record_command_def Let_def log_text_append log_line_def)

lemma ledger_log_line:
  assumes "traced s"
  shows "ledger (sh_session_id s) (sh_client_ip s) (fst ` set (sh_quarantine s)) (log_line h cmd path s)"
proof -
  let ?r = "command_record (iso_utc_now (h_now h (sh_tick s))) (sh_session_id s) (sh_client_ip s) cmd path
       (h_duration h (sh_tick s)) (sh_captured_artifacts s) @ sh_command_extra s"
  have "session_record (sh_session_id s) (sh_client_ip s) (fst ` set (sh_quarantine s)) ?r"
    unfolding session_record_def
    by (intro exI conjI, rule refl) (use assms in \<open>auto simp: traced_def filed_def list_all_iff\<close>)
  then show ?thesis
    unfolding ledger_def log_line_def by (intro exI [of _ "[?r]"]) (simp del: dumps.simps)
qed

lemma ledger_step_log: "ledger_step s (log_command h cmd path s)"
proof -
  have "sh_command_extra (log_command h cmd path s) = sh_command_extra s"
    by (simp add: log_command_def tick_def)
  then have "traced (log_command h cmd path s) = traced s" by (simp add: traced_def filed_def)
  then show ?thesis
    using log_command_line [of s h cmd path] ledger_log_line [of s h cmd path]
    by (auto simp: ledger_step_def traced_def)
qed

interpretation records: shell_relation h ledger_step
proof unfold_locales
  fix s d s' assume "ledger_step (s\<lparr>sh_script_depth := d\<rparr>) s'"
  then show "ledger_step s (s'\<lparr>sh_script_depth := sh_script_depth s\<rparr>)"
    by (simp add: ledger_step_def traced_def filed_def)
next
  fix s s' s'' assume "ledger_step s s'" "ledger_step s' s''"
  then show "ledger_step s s''" by (rule ledger_step_trans)
qed (rule ledger_step_quarantine ledger_step_log ledger_step_same;
    simp add: ledger_step_def traced_def filed_def; fail)+

text \<open>
  C14. The quarantine of a session is content addressed and complete: after any command lines of a
  fresh session every stored artifact is filed under the digest of its own bytes, the next command
  line removes none, and the log of the session consists of one record per line, each with the id and
  the address of the session, in which every artifact named is stored.
\<close>

theorem quarantine_sealed:
  "let s = session_run fuel h lines (Shell v llm_cache sid ip cwd ip_cwd); s' = snd (exec fuel h line s)
   in sealed h (sh_quarantine s') \<and> fst ` set (sh_quarantine s) \<subseteq> fst ` set (sh_quarantine s') \<and>
      (\<exists>rs. log_text (sh_logs s') (session_log_path sid) = concat (map (\<lambda>r. dumps (JObj r) @ [nl]) rs) \<and>
         list_all (session_record sid ip (fst ` set (sh_quarantine s'))) rs)"
proof -
  define s0 where "s0 = Shell v llm_cache sid ip cwd ip_cwd"
  define s where "s = session_run fuel h lines s0"
  define s' where "s' = snd (exec fuel h line s)"
  have v: "vault_step h s0 s" "vault_step h s s'"
    unfolding s_def s'_def by (rule vault.session_R, rule vault.exec_R)
  have l: "ledger_step s0 s'"
    unfolding s_def s'_def by (rule ledger_step_trans [OF records.session_R records.exec_R])
  have "sealed h (sh_quarantine s0)" "traced s0" "sh_logs s0 = []" "sh_session_id s0 = sid" "sh_client_ip s0 = ip"
    by (simp_all add: s0_def Shell_def Let_def sealed_def traced_def filed_def)
  with v l show ?thesis
    unfolding Let_def s0_def [symmetric] s_def [symmetric] s'_def [symmetric]
    by (simp add: vault_step_def ledger_step_def ledger_def log_text_def)
qed

subsection \<open>Directories\<close>

definition rooted_path :: "string \<Rightarrow> bool" where
  "rooted_path p \<longleftrightarrow> (\<exists>ps. list_all proper ps \<and> p = abs_of ps)"

definition dirs_ok :: "shell \<Rightarrow> bool" where
  "dirs_ok s \<longleftrightarrow> sh_home s \<noteq> ''-'' \<and> rooted_path (sh_cwd s) \<and>
     (case sh_oldpwd s of None \<Rightarrow> True | Some d \<Rightarrow> rooted_path d) \<and>
     (case sh_ip_cwd s of None \<Rightarrow> True | Some d \<Rightarrow> d = sh_cwd s)"

definition dir_step :: "shell \<Rightarrow> shell \<Rightarrow> bool" where
  "dir_step s s' \<longleftrightarrow> (dirs_ok s \<longrightarrow> dirs_ok s') \<and> (sh_ip_cwd s' = None) = (sh_ip_cwd s = None)"

lemma dir_step_same:
  "sh_home s' = sh_home s \<Longrightarrow> sh_cwd s' = sh_cwd s \<Longrightarrow> sh_oldpwd s' = sh_oldpwd s \<Longrightarrow>
   sh_ip_cwd s' = sh_ip_cwd s \<Longrightarrow> dir_step s s'"
  by (simp add: dir_step_def dirs_ok_def split: option.split)

lemma rooted_canonicalize: "raw \<noteq> ''-'' \<Longrightarrow> rooted_path (canonicalize raw cwd home)"
  unfolding rooted_path_def by (erule canonicalize_form) blast

interpretation dirs: shell_relation h dir_step
proof unfold_locales
  fix s :: shell and target raw
  assume "target = canonicalize raw (sh_cwd s) (sh_home s) \<and> (raw \<noteq> ''-'' \<or> raw = sh_home s) \<or>
    sh_oldpwd s = Some target"
  then show "dir_step s (s\<lparr>sh_oldpwd := Some (sh_cwd s), sh_cwd := target,
      sh_ip_cwd := map_option (\<lambda>_. target) (sh_ip_cwd s)\<rparr>)"
    by (auto simp: dir_step_def dirs_ok_def rooted_canonicalize split: option.splits)
next
  fix s s' :: shell and d assume "dir_step (s\<lparr>sh_script_depth := d\<rparr>) s'"
  then show "dir_step s (s'\<lparr>sh_script_depth := sh_script_depth s\<rparr>)" 
    by (simp add: dir_step_def dirs_ok_def split: option.splits)
next
  fix s s' s'' assume "dir_step s s'" "dir_step s' s''"
  then show "dir_step s s''" by (simp add: dir_step_def)
qed (auto intro: dir_step_same)

text \<open>
  The working directory of a session is always a rooted path of proper names, so that path
  resolution never leaves the tree, and the directory kept for the client's next connection is the
  shell's own.
\<close>

theorem session_cwd_rooted:
  "let s = session_run fuel h lines (Shell create_default_vfs llm_cache sid ip None None);
       s' = session_run fuel h lines (Shell create_default_vfs llm_cache sid ip
         (Some DEFAULT_HOME) (Some DEFAULT_HOME))
   in (\<exists>ps. list_all proper ps \<and> sh_cwd s = abs_of ps) \<and>
      (\<exists>ps. list_all proper ps \<and> sh_cwd s' = abs_of ps) \<and> sh_ip_cwd s' = Some (sh_cwd s')"
proof -
  let ?s1 = "Shell create_default_vfs llm_cache sid ip None None"
  let ?s2 = "Shell create_default_vfs llm_cache sid ip (Some DEFAULT_HOME) (Some DEFAULT_HOME)"
  have home: "vfs_home create_default_vfs = DEFAULT_HOME"
    by (simp add: create_default_vfs_def VirtualFileSystem_def)
  have "DEFAULT_HOME = abs_of [''root'']" "proper ''root''"
    by (simp_all add: DEFAULT_HOME_def abs_of_def proper_def)
  then have "rooted_path DEFAULT_HOME" unfolding rooted_path_def by (auto intro: exI [of _ "[''root'']"])
  then have "dirs_ok ?s1" "dirs_ok ?s2"
    by (simp_all add: dirs_ok_def Shell_def Let_def home) (simp_all add: DEFAULT_HOME_def)
  then have ok: "dirs_ok (session_run fuel h lines ?s1)" "dirs_ok (session_run fuel h lines ?s2)"
    using dirs.session_R unfolding dir_step_def by blast+
  have "sh_ip_cwd ?s2 \<noteq> None" by (simp add: Shell_def Let_def)
  then have "sh_ip_cwd (session_run fuel h lines ?s2) \<noteq> None"
    using dirs.session_R [of ?s2 fuel h lines] by (simp add: dir_step_def)
  with ok show ?thesis by (auto simp: Let_def dirs_ok_def rooted_path_def split: option.splits)
qed

end
