(* ===== verification/Shell_Termination.thy ===== *)
theory Shell_Termination
  imports Shell_Invariants
begin

text \<open>
  How much fuel the executor needs.  A result that is not \<^const>\<open>RecursionError\<close> does not depend on
  the fuel; a line that starts no shell needs none beyond its own; scripts given by name are cut off
  at the depth limit, scripts given on the standard input are not.
\<close>

subsection \<open>More fuel keeps a result\<close>

definition finished :: "'a run \<Rightarrow> bool" where
  "finished p \<longleftrightarrow> fst p \<noteq> Inl RecursionError"

lemma finished_simps [simp]:
  "finished (Inr x, s)" "finished (Inl e, s) \<longleftrightarrow> e \<noteq> RecursionError"
  by (auto simp: finished_def)

definition extends :: "(string \<Rightarrow> shell \<Rightarrow> 'a run) \<Rightarrow> (string \<Rightarrow> shell \<Rightarrow> 'a run) \<Rightarrow> bool" where
  "extends rec rec' \<longleftrightarrow> (\<forall>line s. finished (rec line s) \<longrightarrow> rec' line s = rec line s)"

lemma extendsD: "extends rec rec' \<Longrightarrow> rec line s = (r, s') \<Longrightarrow> finished (r, s') \<Longrightarrow> rec' line s = (r, s')"
  unfolding extends_def by force

lemma run_lines_ext:
  "extends rec rec' \<Longrightarrow> finished (run_lines rec lines outputs r s) \<Longrightarrow>
   run_lines rec' lines outputs r s = run_lines rec lines outputs r s"
proof (induction lines arbitrary: outputs r s)
  case (Cons line lines)
  obtain x s1 where c: "rec (strip_ws line) s = (x, s1)" by fastforce
  show ?case
  proof (cases "strip_ws line = [] \<or> startswith (strip_ws line) ''#''")
    case True
    with Cons show ?thesis by simp
  next
    case False
    then have "finished (x, s1)" using Cons.prems(2) c by (cases x) (auto simp: Let_def)
    then have "rec' (strip_ws line) s = (x, s1)" by (rule extendsD [OF Cons.prems(1) c])
    with False c Cons show ?thesis by (cases x) (auto simp: Let_def)
  qed
qed simp

lemma execute_script_lines_ext:
  assumes "extends rec rec'" and "finished (execute_script_lines rec lines depth s)"
  shows "execute_script_lines rec' lines depth s = execute_script_lines rec lines depth s"
proof (cases "depth > MAX_SCRIPT_DEPTH \<or> length lines > MAX_SCRIPT_LINES")
  case True
  then show ?thesis by (auto simp: execute_script_lines_def)
next
  case False
  then have "finished (run_lines rec lines [] (CommandResult [] 0) (s\<lparr>sh_script_depth := depth\<rparr>))"
    using assms(2) by (auto simp: execute_script_lines_def Let_def finished_def split: prod.splits)
  from run_lines_ext [OF assms(1) this] False show ?thesis
    by (simp add: execute_script_lines_def Let_def)
qed

lemma finished_path [simp]: "finished (own_path p) = finished p" "finished (with_path t p) = finished p"
  by (cases p; cases "fst p"; auto simp: own_path_def with_path_def finished_def)+

lemma run_script_file_ext:
  assumes "extends rec rec'" and "finished (run_script_file rec c p d s)"
  shows "run_script_file rec' c p d s = run_script_file rec c p d s"
  using assms(2) execute_script_lines_ext [OF assms(1)] unfolding run_script_file_def Let_def
  by (auto split: sum.splits vfs_error.splits if_splits)

lemma dispatch_wrapper_ext:
  assumes "extends rec rec'" and "finished (dispatch_wrapper rec tokens stdin d s)"
  shows "dispatch_wrapper rec' tokens stdin d s = dispatch_wrapper rec tokens stdin d s"
  using assms(2) execute_script_lines_ext [OF assms(1)] run_script_file_ext [OF assms(1)]
    assms(1) [unfolded extends_def] unfolding dispatch_wrapper_def
  by (auto split: option.splits if_splits)

lemma dispatch_ext:
  assumes "extends rec rec'" and "finished (dispatch rec h tokens stripped stdin d s)"
  shows "dispatch rec' h tokens stripped stdin d s = dispatch rec h tokens stripped stdin d s"
  using assms(2) dispatch_wrapper_ext [OF assms(1)] unfolding dispatch_def Let_def
  by (auto split: list.splits if_splits)

text \<open>The body sees the recursive call only through \<^verbatim>\<open>dispatch\<close>.\<close>

lemma command_body_cong:
  assumes "\<And>toks st d. dispatch rec h toks st stdin d s = dispatch rec' h toks st stdin d s"
  shows "command_body rec h cmd stdin s = command_body rec' h cmd stdin s"
  unfolding command_body_def by (simp only: assms cong: sum.case_cong list.case_cong)

lemma command_body_ext:
  assumes "extends rec rec'" and "fst (command_body rec h cmd stdin s) \<noteq> Inl RecursionError"
  shows "command_body rec' h cmd stdin s = command_body rec h cmd stdin s"
proof -
  have d: "dispatch rec' h toks st stdin d s = dispatch rec h toks st stdin d s"
    if "dispatch rec h toks st stdin d s = (Inr y, s')" for toks st d y s'
    using dispatch_ext [OF assms(1), of h toks st stdin d s] that by simp
  have e: "dispatch rec' h toks st stdin d s = dispatch rec h toks st stdin d s"
    if "dispatch rec h toks st stdin d s = (Inl y, s')" "y \<noteq> RecursionError" for toks st d y s'
    using dispatch_ext [OF assms(1), of h toks st stdin d s] that by simp
  show ?thesis
    using assms(2) unfolding command_body_def Let_def
    by (auto split: sum.splits list.splits prod.splits if_splits option.splits dest: d e)
qed

lemma execute_single_command_ext:
  assumes "extends rec rec'" and "finished (execute_single_command rec h cmd stdin s)"
  shows "execute_single_command rec' h cmd stdin s = execute_single_command rec h cmd stdin s"
proof (cases "strip_ws cmd = []")
  case False
  let ?s = "s\<lparr>sh_captured_artifacts := [], sh_command_extra := []\<rparr>"
  obtain q path s1 where c: "command_body rec h cmd stdin ?s = (q, path, s1)" by (metis prod_cases3)
  with assms(2) False have "q \<noteq> Inl RecursionError"
    by (auto simp: execute_single_command_def Let_def)
  with c have "command_body rec' h cmd stdin ?s = command_body rec h cmd stdin ?s"
    by (intro command_body_ext [OF assms(1)]) simp
  then show ?thesis by (simp add: execute_single_command_def Let_def cong: if_cong)
qed (simp add: execute_single_command_def)

lemma run_stages_ext:
  "extends rec rec' \<Longrightarrow> finished (run_stages rec h stages stdin r s) \<Longrightarrow>
   run_stages rec' h stages stdin r s = run_stages rec h stages stdin r s"
proof (induction stages arbitrary: stdin r s)
  case (Cons stage stages)
  obtain x s1 where c: "execute_single_command rec h stage stdin s = (x, s1)" by fastforce
  with Cons.prems(2) have "finished (x, s1)" by (cases x) auto
  with c execute_single_command_ext [OF Cons.prems(1)]
  have "execute_single_command rec' h stage stdin s = (x, s1)" by metis
  with c Cons show ?case by (cases x) auto
qed simp

lemma run_segments_ext:
  "extends rec rec' \<Longrightarrow> finished (run_segments rec h segments outputs ok r s) \<Longrightarrow>
   run_segments rec' h segments outputs ok r s = run_segments rec h segments outputs ok r s"
proof (induction segments arbitrary: outputs ok r s)
  case (Cons segment segments)
  show ?case
  proof (cases "seg_operator segment = ''&&'' \<and> \<not> ok \<or> seg_operator segment = ''||'' \<and> ok")
    case True
    with Cons show ?thesis by auto
  next
    case False
    obtain x s1 where c: "execute_pipeline rec h (seg_command segment) s = (x, s1)" by fastforce
    with Cons.prems(2) False have "finished (x, s1)" by (cases x) auto
    with c have "execute_pipeline rec' h (seg_command segment) s = (x, s1)"
      using run_stages_ext [OF Cons.prems(1)] by (simp add: execute_pipeline_def)
    with c Cons False show ?thesis by (cases x) auto
  qed
qed simp

lemma run_statements_ext:
  "extends rec rec' \<Longrightarrow> finished (run_statements rec h statements outputs r s) \<Longrightarrow>
   run_statements rec' h statements outputs r s = run_statements rec h statements outputs r s"
proof (induction statements arbitrary: outputs r s)
  case (Cons statement statements)
  obtain x s1 where c: "execute_conditionals rec h statement s = (x, s1)" by fastforce
  with Cons.prems(2) have "finished (x, s1)" by (cases x) auto
  with c have "execute_conditionals rec' h statement s = (x, s1)"
    using run_segments_ext [OF Cons.prems(1)] by (simp add: execute_conditionals_def)
  with c Cons show ?case by (cases x) auto
qed simp

lemma execute_ext: "extends rec rec' \<Longrightarrow> extends (execute rec h) (execute rec' h)"
  using run_statements_ext unfolding extends_def [of "execute rec h"]
  by (auto simp: execute_def Let_def)

lemma exec_ext: "extends (exec n h) (exec (n + k) h)"
proof (induction n)
  case (Suc n)
  have "extends (execute (exec n h) h) (execute (exec (n + k) h) h)" by (rule execute_ext [OF Suc])
  then show ?case by (simp add: extends_def)
qed (simp add: extends_def)

text \<open>
  The fuel of the executor does not shape its results: a command line that ends with some number of
  nested calls gives the same result, error or not, and the same state with every larger number.
\<close>

theorem exec_fuel_irrelevant:
  assumes "fst (exec n h line s) \<noteq> Inl RecursionError" and "n \<le> m"
  shows "exec m h line s = exec n h line s"
proof -
  obtain k where "m = n + k" using assms(2) le_Suc_ex by blast
  with assms(1) exec_ext [of n h k] show ?thesis by (simp add: extends_def finished_def)
qed

subsection \<open>Lines that start no shell\<close>

definition plain_stage :: "string \<Rightarrow> bool" where
  "plain_stage stage =
     (case shlex_split stage of
        Inl _ \<Rightarrow> True
      | Inr tokens \<Rightarrow>
          (case parse_redirection tokens of
             Inl _ \<Rightarrow> True
           | Inr ([], _) \<Rightarrow> True
           | Inr (t # _, _) \<Rightarrow> strip_system_prefix t \<notin> set SHELL_WRAPPERS))"

definition plain_line :: "string \<Rightarrow> bool" where
  "plain_line line =
     list_all (\<lambda>statement. list_all (\<lambda>segment. list_all plain_stage (split_pipeline (seg_command segment)))
       (split_conditionals statement)) (split_statements (strip_ws line))"

lemma wrapper_stripped: "t \<in> set SHELL_WRAPPERS \<Longrightarrow> strip_system_prefix t = t"
  by (auto simp: SHELL_WRAPPERS_def strip_system_prefix_def SYSTEM_BIN_PREFIXES_def startswith_def)

lemma each_path_not_rec: "fst (chunk_result (each_path h call message paths chunks s)) \<noteq> Inl RecursionError"
  by (auto simp: chunk_result_def split: prod.splits sum.splits)

lemma cat_paths_not_rec: "cat_paths s paths out failed \<noteq> Inl RecursionError"
  by (induction paths arbitrary: out failed) (auto split: sum.splits option.splits)

lemma grep_paths_not_rec: "grep_paths s paths texts errors \<noteq> Inl RecursionError"
  by (induction paths arbitrary: texts errors) (auto split: sum.splits option.splits)

lemma chmod_not_rec: "fst (cmd_chmod h args s) \<noteq> Inl RecursionError"
  unfolding cmd_chmod_def
  by (auto simp: chunk_result_def split: list.splits prod.splits sum.splits vfs_error.splits)

lemma download_not_rec:
  "fst (cmd_wget h args s) \<noteq> Inl RecursionError" "fst (cmd_curl h args s) \<noteq> Inl RecursionError"
  unfolding cmd_wget_def cmd_curl_def Let_def
  by (auto split: prod.splits option.splits sum.splits)

lemma resolve_case_not_rec:
  "(\<And>node. fst (f node) \<noteq> Inl RecursionError) \<Longrightarrow>
   fst (case x of Inl (FileNotFoundError _) \<Rightarrow> (Inr a, s) | Inl (NotADirectoryError _) \<Rightarrow> (Inr b, s)
     | Inl e \<Rightarrow> (Inl (UncaughtVfs e), s) | Inr node \<Rightarrow> f node) \<noteq> Inl RecursionError"
  by (simp split: sum.split vfs_error.split)

lemma ls_not_rec: "fst (cmd_ls h args s) \<noteq> Inl RecursionError"
  unfolding cmd_ls_def Let_def
  by (rule resolve_case_not_rec) (simp add: case_prod_beta split: sum.split)

lemma cd_not_rec: "fst (cmd_cd args s) \<noteq> Inl RecursionError"
proof (cases "length args > 1 \<or> (args \<noteq> [] \<and> hd args = ''-'' \<and> sh_oldpwd s = None)")
  case True
  then show ?thesis by (auto simp: cmd_cd_def)
next
  case False
  then show ?thesis
    unfolding cmd_cd_def Let_def if_not_P [OF conjunct1 [OF False [unfolded de_Morgan_disj]]]
      if_not_P [OF conjunct2 [OF False [unfolded de_Morgan_disj]]]
    by (intro resolve_case_not_rec) simp
qed

lemma handler_not_rec:
  assumes "handler h stdin command = Some f"
  shows "fst (f args s) \<noteq> Inl RecursionError"
proof -
  have "fst (cmd_cat args stdin s) \<noteq> Inl RecursionError"
    using cat_paths_not_rec by (auto simp: cmd_cat_def split: sum.splits prod.splits)
  moreover have "fst (cmd_grep h args stdin s) \<noteq> Inl RecursionError"
    using grep_paths_not_rec
    by (auto simp: cmd_grep_def Let_def split: option.splits sum.splits regex_result.splits prod.splits if_splits)
  moreover have "fst (cmd_ls h args s) \<noteq> Inl RecursionError" "fst (cmd_cd args s) \<noteq> Inl RecursionError"
    by (rule ls_not_rec) (rule cd_not_rec)
  moreover have "fst (cmd_mkdir h args s) \<noteq> Inl RecursionError" "fst (cmd_rm h args s) \<noteq> Inl RecursionError"
      "fst (cmd_rmdir h args s) \<noteq> Inl RecursionError" "fst (cmd_touch h args s) \<noteq> Inl RecursionError"
    by (simp_all add: cmd_mkdir_def cmd_rm_def cmd_rmdir_def cmd_touch_def Let_def each_path_not_rec)
  moreover have "\<exists>r. fst (g args s) = Inr r"
    if "g \<in> {cmd_pwd, cmd_echo, cmd_true, cmd_false, cmd_which, cmd_uname, cmd_env, cmd_exit, cmd_history, cmd_unset}" for g
    using that by (auto simp: cmd_pwd_def cmd_true_def cmd_false_def cmd_uname_def cmd_env_def cmd_exit_def
        cmd_history_def cmd_unset_def cmd_echo_def cmd_which_def Let_def split: prod.splits)
  ultimately show ?thesis
    using handler_cases [OF assms] chmod_not_rec download_not_rec
    by (elim disjE) (simp_all, force+)
qed

lemma steps_not_rec:
  "fst (exec_trap path s) \<noteq> Inl RecursionError"
  "fst (apply_redirection h r target app name s) \<noteq> Inl RecursionError"
  "fst (dispatch_llm h command args tokens stripped stdin s) \<noteq> Inl RecursionError"
  by (auto simp: exec_trap_def apply_redirection_def dispatch_llm_def llm_result_def with_path_def Let_def
      split: sum.split vfs_error.split option.split prod.split)

lemma stream_not_rec: "fst (stream_infinite_redirect h name tokens target app s) \<noteq> Inl RecursionError"
  unfolding stream_infinite_redirect_def Let_def
  by (auto simp: steps_not_rec split: option.split sum.split bool.split prod.split vfs_error.split)

lemma dispatch_plain:
  assumes "strip_system_prefix t \<notin> set SHELL_WRAPPERS"
  shows "dispatch rec h (t # args) stripped stdin d s = dispatch rec' h (t # args) stripped stdin d s \<and>
    finished (dispatch rec h (t # args) stripped stdin d s)"
proof -
  have n: "(if strip_system_prefix t \<noteq> t \<and> strip_system_prefix t \<in> set KNOWN_COMMANDS
      then strip_system_prefix t else t) \<notin> set SHELL_WRAPPERS"
    using assms wrapper_stripped [of t] by auto
  have "finished (own_path (exec_trap c s))" "finished (dispatch_llm h c args ts st stdin s)" for c ts st
    using steps_not_rec by (simp_all add: finished_def [of "exec_trap _ _"] finished_def [of "dispatch_llm _ _ _ _ _ _ _"])
  moreover have "finished (with_path p (f args s))" if "handler h stdin c = Some f" for p c f
    using handler_not_rec [OF that] by (simp add: finished_def [of "f args s"])
  ultimately show ?thesis
    unfolding dispatch_def list.case Let_def if_not_P [OF n]
    by (auto split: option.split)
qed

lemma command_body_plain:
  assumes "plain_stage stage"
  shows "command_body rec h stage stdin s = command_body rec' h stage stdin s \<and>
    fst (command_body rec h stage stdin s) \<noteq> Inl RecursionError"
proof (cases "shlex_split stage")
  case (Inr tokens)
  show ?thesis
  proof (cases "parse_redirection tokens")
    case (Inl e)
    with Inr show ?thesis by (cases tokens) (simp_all add: command_body_def)
  next
    case (Inr p)
    obtain ts target app where p: "p = (ts, target, app)" by (cases p)
    note pr = Inr [unfolded p]
    show ?thesis
    proof (cases "tokens = [] \<or> ts = []")
      case True
      with \<open>shlex_split stage = Inr tokens\<close> pr show ?thesis
        by (cases tokens) (auto simp: command_body_def is_infinite_cat_def steps_not_rec
            split: option.split prod.split dest: arg_cong [where f = fst])
    next
      case False
      then obtain t args where ts: "ts = t # args" by (cases ts) auto
      with assms \<open>shlex_split stage = Inr tokens\<close> pr
      have "strip_system_prefix t \<notin> set SHELL_WRAPPERS" by (simp add: plain_stage_def)
      note d = dispatch_plain [OF this]
      have d1: "dispatch rec h ts st stdin n s = dispatch rec' h ts st stdin n s" for st n
        using d ts by blast
      have d2: "dispatch rc h ts st stdin n s \<noteq> (Inl RecursionError, s')" for rc st n s'
        using d [of rc h args st stdin n s] by (auto simp: ts)
      have a: "apply_redirection h r x app name s \<noteq> (Inl RecursionError, s')" for r x app name s s'
        using steps_not_rec(2) [of h r x app name s] by auto
      have b: "stream_infinite_redirect h name toks x app s \<noteq> (Inl RecursionError, s')" for toks x app name s s'
        using stream_not_rec [of h name toks x app s] by auto
      show ?thesis
        using False \<open>shlex_split stage = Inr tokens\<close> pr ts unfolding command_body_def
        by (cases tokens) (auto simp: d1 [unfolded ts] d2 [unfolded ts] a b Let_def
            split: option.split prod.split sum.split)
    qed
  qed
qed (simp add: command_body_def)

lemma execute_single_command_plain:
  assumes "plain_stage stage"
  shows "execute_single_command rec h stage stdin s = execute_single_command rec' h stage stdin s \<and>
    finished (execute_single_command rec' h stage stdin s)"
proof -
  let ?s = "s\<lparr>sh_captured_artifacts := [], sh_command_extra := []\<rparr>"
  have "command_body rec h stage stdin ?s = command_body rec' h stage stdin ?s"
    "fst (command_body rec' h stage stdin ?s) \<noteq> Inl RecursionError"
    using command_body_plain [OF assms] by blast+
  then show ?thesis
    by (auto simp: execute_single_command_def Let_def split: prod.split sum.split)
qed

lemma run_stages_plain:
  "list_all plain_stage stages \<Longrightarrow>
   run_stages rec h stages stdin r s = run_stages rec' h stages stdin r s \<and>
   finished (run_stages rec' h stages stdin r s)"
proof (induction stages arbitrary: stdin r s)
  case (Cons stage stages)
  obtain x s1 where c: "execute_single_command rec h stage stdin s = (x, s1)" by fastforce
  then have "execute_single_command rec' h stage stdin s = (x, s1)" "finished (x, s1)"
    using execute_single_command_plain [of stage rec h stdin s rec'] Cons.prems by auto
  with c Cons show ?case by (cases x) simp_all
qed simp

lemma run_segments_plain:
  "list_all (\<lambda>seg. list_all plain_stage (split_pipeline (seg_command seg))) segments \<Longrightarrow>
   run_segments rec h segments outputs ok r s = run_segments rec' h segments outputs ok r s \<and>
   finished (run_segments rec' h segments outputs ok r s)"
proof (induction segments arbitrary: outputs ok r s)
  case (Cons segment segments)
  obtain x s1 where c: "execute_pipeline rec h (seg_command segment) s = (x, s1)" by fastforce
  then have "execute_pipeline rec' h (seg_command segment) s = (x, s1)" "finished (x, s1)"
    using run_stages_plain [of "split_pipeline (seg_command segment)" rec h "[]" "CommandResult [] 0" s rec'] Cons.prems
    unfolding execute_pipeline_def by auto
  with c Cons show ?case by (cases x) simp_all
qed simp

lemma run_statements_plain:
  "list_all (\<lambda>statement. list_all (\<lambda>seg. list_all plain_stage (split_pipeline (seg_command seg)))
     (split_conditionals statement)) statements \<Longrightarrow>
   run_statements rec h statements outputs r s = run_statements rec' h statements outputs r s \<and>
   finished (run_statements rec' h statements outputs r s)"
proof (induction statements arbitrary: outputs r s)
  case (Cons statement statements)
  obtain x s1 where c: "execute_conditionals rec h statement s = (x, s1)" by fastforce
  then have "execute_conditionals rec' h statement s = (x, s1)" "finished (x, s1)"
    using run_segments_plain [of "split_conditionals statement" rec h "[]" True "CommandResult [] 0" s rec'] Cons.prems
    unfolding execute_conditionals_def by auto
  with c Cons show ?case by (cases x) simp_all
qed simp

lemma plain_exec:
  assumes "plain_line line"
  shows "exec (Suc n) h line s = exec (Suc m) h line s \<and> fst (exec (Suc m) h line s) \<noteq> Inl RecursionError"
proof -
  have "execute rec h line s = execute rec' h line s \<and> finished (execute rec' h line s)" for rec rec'
    using run_statements_plain [of "split_statements (strip_ws line)" rec h "[]" "CommandResult [] 0" s rec'] assms
    by (simp add: execute_def plain_line_def Let_def)
  then show ?thesis by (simp add: finished_def)
qed

lemma plain_example: "plain_line ''cd /tmp; ls | grep a && echo ok''"
  by code_simp

theorem exec_fuel_irrelevant_witness:
  "exec 9 quiet_host ''cd /tmp; ls | grep a && echo ok'' tiny_shell =
   exec 2 quiet_host ''cd /tmp; ls | grep a && echo ok'' tiny_shell"
proof (rule exec_fuel_irrelevant)
  show "fst (exec 2 quiet_host ''cd /tmp; ls | grep a && echo ok'' tiny_shell) \<noteq> Inl RecursionError"
    using plain_exec [OF plain_example, of 1 quiet_host tiny_shell 1] by (simp add: numeral_2_eq_2)
qed simp

text \<open>
  C18. A command line none of whose stages starts a shell always comes back: the executor makes no
  nested call of itself, so one unit of fuel decides it and the executor never exceeds the recursion
  limit, whatever the state and the environment.  The recursions on data within a command, the removal
  of a directory tree and the JSON reader, are bounded apart: what they raise is one of the
  exceptions of the command.
\<close>

theorem plain_line_returns:
  assumes "plain_line line" and "0 < fuel"
  shows "exec fuel h line s = exec 1 h line s \<and> fst (exec fuel h line s) \<noteq> Inl RecursionError"
  using plain_exec [OF assms(1), of "fuel - 1" h s 0] plain_exec [OF assms(1), of 0 h s "fuel - 1"] assms(2)
  by simp

theorem plain_line_returns_witness:
  "plain_line ''cd /tmp; ls | grep a && echo ok'' \<and>
   exec 7 quiet_host ''cd /tmp; ls | grep a && echo ok'' tiny_shell =
     exec 1 quiet_host ''cd /tmp; ls | grep a && echo ok'' tiny_shell"
  using plain_line_returns [OF plain_example, of 7] plain_example by simp

subsection \<open>Scripts\<close>

text \<open>
  The guards of the script interpreter: a script file started at the depth limit, and a script of
  more than 50 lines, on a file or on the standard input, end with their message without running a
  line, so they need no recursive call at all.
\<close>

theorem script_guards:
  "(MAX_SCRIPT_DEPTH \<le> depth \<longrightarrow> run_script_file rec command path depth s = run_script_file rec' command path depth s) \<and>
   (MAX_SCRIPT_LINES < length lines \<longrightarrow> fst (execute_script_lines rec lines depth s) =
      Inr (if depth > 3 then fail ''bash: maximum recursion depth exceeded''
        else fail ''bash: maximum script length exceeded'')) \<and>
   (MAX_SCRIPT_DEPTH < depth \<longrightarrow> execute_script_lines rec lines depth s =
      (Inr (fail ''bash: maximum recursion depth exceeded''), s))"
proof -
  have "execute_script_lines rec ls (depth + 1) s = execute_script_lines rec' ls (depth + 1) s"
    if "MAX_SCRIPT_DEPTH \<le> depth" for ls
    using that by (simp add: execute_script_lines_def)
  then have "MAX_SCRIPT_DEPTH \<le> depth \<longrightarrow>
      run_script_file rec command path depth s = run_script_file rec' command path depth s"
    unfolding run_script_file_def by (simp cong: sum.case_cong if_cong)
  then show ?thesis by (auto simp: execute_script_lines_def MAX_SCRIPT_DEPTH_def)
qed

theorem script_guards_witness:
  "execute_script_lines (\<lambda>line s. (Inl RecursionError, s)) [''sh a''] 4 tiny_shell =
     (Inr (fail ''bash: maximum recursion depth exceeded''), tiny_shell) \<and>
   run_script_file (\<lambda>line s. (Inl RecursionError, s)) ''sh'' ''a'' 3 tiny_shell =
     run_script_file (\<lambda>line s. (Inr (CommandResult [] 0), s)) ''sh'' ''a'' 3 tiny_shell"
  using script_guards [of 4 "\<lambda>line s. (Inl RecursionError, s)" "''sh''" "''a''" tiny_shell
      "\<lambda>line s. (Inl RecursionError, s)" "[''sh a'']"]
    script_guards [of 3 "\<lambda>line s. (Inl RecursionError, s)" "''sh''" "''a''" tiny_shell
      "\<lambda>line s. (Inr (CommandResult [] 0), s)" "[]"]
  by (simp add: MAX_SCRIPT_DEPTH_def)

text \<open>The file \<^verbatim>\<open>/tmp/a\<close> holds a line that feeds itself to a shell.\<close>

definition loop_vfs :: vfs where
  "loop_vfs = VirtualFileSystem
     (directory [] [directory ''tmp'' [file_node ''a'' ''cat a | sh'' 0x1A4] 0x1FF] 0x1ED) DEFAULT_HOME"

definition looping :: "shell \<Rightarrow> bool" where
  "looping s \<longleftrightarrow> sh_vfs s = loop_vfs \<and> sh_cwd s = ''/tmp'' \<and> sh_script_depth s = 0"

lemma loop_parts:
  "split_statements ''cat a | sh'' = [''cat a | sh'']"
  "split_conditionals ''cat a | sh'' = [\<lparr>seg_command = ''cat a | sh'', seg_operator = []\<rparr>]"
  "split_pipeline ''cat a | sh'' = [''cat a'', ''sh'']"
  "strip_ws ''cat a'' = ''cat a''" "strip_ws ''sh'' = ''sh''" "strip_ws ''cat a | sh'' = ''cat a | sh''"
  "shlex_split ''cat a'' = Inr [''cat'', ''a'']" "shlex_split ''sh'' = Inr [''sh'']"
  "parse_redirection [''cat'', ''a''] = Inr ([''cat'', ''a''], None, False)"
  "parse_redirection [''sh''] = Inr ([''sh''], None, False)"
  "splitlines ''cat a | sh'' = [''cat a | sh'']" "startswith ''cat a | sh'' ''#'' = False"
  "read_file loop_vfs ''a'' ''/tmp'' = Inr ''cat a | sh''"
  "strip_system_prefix ''cat'' = ''cat''" "strip_system_prefix ''sh'' = ''sh''"
  "is_explicit_path ''cat'' = False" "(''cat'' \<in> set SHELL_WRAPPERS) = False"
  "''sh'' \<in> set SHELL_WRAPPERS" "extract_shell_c [''sh''] = None" "shell_script_operand [] = None"
  by (code_simp)+

lemma loop_cat:
  assumes "looping s"
  shows "\<exists>r s'. execute_single_command rec h ''cat a'' stdin s = (Inr r, s') \<and> looping s' \<and>
    cr_output r = ''cat a | sh'' \<and> \<not> cr_exit_session r"
  using assms
  by (simp add: execute_single_command_def loop_parts command_body_def dispatch_def handler_def cmd_cat_def
      looping_def with_path_def CommandResult_def)

lemma loop_sh:
  assumes "looping s" and "\<And>t. looping t \<Longrightarrow> fst (rec ''cat a | sh'' t) = Inl RecursionError"
  shows "fst (execute_single_command rec h ''sh'' ''cat a | sh'' s) = Inl RecursionError"
proof -
  let ?s = "s\<lparr>sh_captured_artifacts := [], sh_command_extra := [], sh_script_depth := 0\<rparr>"
  have "looping ?s" using assms(1) by (simp add: looping_def)
  then obtain s1 where "rec ''cat a | sh'' ?s = (Inl RecursionError, s1)"
    using assms(2) by (metis prod.collapse)
  with assms(1) show ?thesis
    by (simp add: execute_single_command_def loop_parts command_body_def dispatch_def dispatch_wrapper_def
        execute_script_lines_def MAX_SCRIPT_DEPTH_def MAX_SCRIPT_LINES_def own_path_def looping_def)
qed

lemma loop_exec: "looping s \<Longrightarrow> fst (exec fuel h ''cat a | sh'' s) = Inl RecursionError"
proof (induction fuel arbitrary: s)
  case (Suc fuel)
  obtain r s1 where c: "execute_single_command (exec fuel h) h ''cat a'' [] s = (Inr r, s1)" "looping s1"
      "cr_output r = ''cat a | sh''" "\<not> cr_exit_session r"
    using loop_cat [OF Suc.prems] by blast
  obtain s2 where "execute_single_command (exec fuel h) h ''sh'' ''cat a | sh'' s1 = (Inl RecursionError, s2)"
    using loop_sh [OF c(2), of "exec fuel h" h] Suc.IH by (metis prod.collapse)
  with c show ?case
    by (simp add: execute_def loop_parts execute_conditionals_def execute_pipeline_def)
qed simp

text \<open>
  C31. The depth guard does not see scripts on the standard input: with a file that holds the line
  \<^verbatim>\<open>cat a | sh\<close>, running that line recurses without end.  For every recursion limit the outcome is
  \<^verbatim>\<open>RecursionError\<close>, an exception that no handler of the shell or of the server catches.
\<close>

theorem stdin_script_recursion:
  "fst (exec fuel h ''cat a | sh'' (Shell loop_vfs llm_cache sid ip (Some ''/tmp'') None)) = Inl RecursionError"
  by (rule loop_exec) (simp add: looping_def Shell_def Let_def)

end
