(* ===== verification/Shell_Properties.thy ===== *)
theory Shell_Properties
  imports Shell_Termination
begin

unbundle bit_operations_syntax

text \<open>
  Functional properties of the shell: the operators \<^verbatim>\<open>&&\<close> and \<^verbatim>\<open>||\<close> against a reference semantics,
  redirections, the record each command leaves in the log, the execution trap, the permission column
  of \<^verbatim>\<open>ls -l\<close>, the endless devices, and the exceptions that escape.
\<close>

subsection \<open>Conditionals\<close>

text \<open>Chains of conditionals as trees: both operators associate to the left.\<close>

datatype 'a cond = Single 'a | AndThen "'a cond" 'a | OrElse "'a cond" 'a

fun cond_segments :: "('a \<Rightarrow> string) \<Rightarrow> 'a cond \<Rightarrow> chain_segment list" where
  "cond_segments text_of (Single c) = [\<lparr>seg_command = text_of c, seg_operator = []\<rparr>]"
| "cond_segments text_of (AndThen t c) = cond_segments text_of t @ [\<lparr>seg_command = text_of c, seg_operator = ''&&''\<rparr>]"
| "cond_segments text_of (OrElse t c) = cond_segments text_of t @ [\<lparr>seg_command = text_of c, seg_operator = ''||''\<rparr>]"

text \<open>Run a command after a prefix with its outputs.\<close>

definition then_run ::
  "('a \<Rightarrow> shell \<Rightarrow> command_result run) \<Rightarrow> 'a \<Rightarrow> string list \<Rightarrow> shell \<Rightarrow>
   (string list \<times> command_result) run" where
  "then_run f c outputs s =
     (case f c s of (Inl e, s') \<Rightarrow> (Inl e, s') | (Inr r, s') \<Rightarrow> (Inr (collect outputs r, r), s'))"

fun eval_cond ::
  "('a \<Rightarrow> shell \<Rightarrow> command_result run) \<Rightarrow> 'a cond \<Rightarrow> shell \<Rightarrow> (string list \<times> command_result) run" where
  "eval_cond f (Single c) s = then_run f c [] s"
| "eval_cond f (AndThen t c) s =
     (case eval_cond f t s of
        (Inl e, s') \<Rightarrow> (Inl e, s')
      | (Inr (outputs, r), s') \<Rightarrow>
          if \<not> cr_exit_session r \<and> result_ok r then then_run f c outputs s' else (Inr (outputs, r), s'))"
| "eval_cond f (OrElse t c) s =
     (case eval_cond f t s of
        (Inl e, s') \<Rightarrow> (Inl e, s')
      | (Inr (outputs, r), s') \<Rightarrow>
          if \<not> cr_exit_session r \<and> \<not> result_ok r then then_run f c outputs s' else (Inr (outputs, r), s'))"

lemma run_segments_cond:
  "run_segments rec h (cond_segments text_of t @ rest) [] True (CommandResult [] 0) s =
    (case eval_cond (\<lambda>c. execute_pipeline rec h (text_of c)) t s of
       (Inl e, s') \<Rightarrow> (Inl e, s')
     | (Inr (outputs, r), s') \<Rightarrow>
         if cr_exit_session r then (Inr (joined outputs r), s')
         else run_segments rec h rest outputs (result_ok r) r s')"
proof (induction t arbitrary: rest)
  case (Single c)
  show ?case by (simp add: then_run_def split: prod.split sum.split)
next
  case (AndThen t c)
  obtain q s1 where e: "eval_cond (\<lambda>c. execute_pipeline rec h (text_of c)) t s = (q, s1)" by fastforce
  show ?case
    by (cases q) (auto simp: AndThen e then_run_def split: prod.split sum.split)
next
  case (OrElse t c)
  obtain q s1 where e: "eval_cond (\<lambda>c. execute_pipeline rec h (text_of c)) t s = (q, s1)" by fastforce
  show ?case
    by (cases q) (auto simp: OrElse e then_run_def split: prod.split sum.split)
qed

text \<open>
  Short-circuit evaluation: a chain of \<^verbatim>\<open>&&\<close> and \<^verbatim>\<open>||\<close> runs as the left-associated tree of bash, that
  is, each command runs exactly if everything to its left, as one unit, succeeded (or failed), the
  outputs of those that ran are joined in order, the status is the last one's, an \<^verbatim>\<open>exit\<close> ends the chain
  and an exception leaves it at once.
\<close>

lemma conditionals_left_assoc:
  "run_segments rec h (cond_segments text_of t) [] True (CommandResult [] 0) s =
    (case eval_cond (\<lambda>c. execute_pipeline rec h (text_of c)) t s of
       (Inl e, s') \<Rightarrow> (Inl e, s')
     | (Inr (outputs, r), s') \<Rightarrow> (Inr (joined outputs r), s'))"
  using run_segments_cond [of rec h text_of t "[]" s] by (auto split: prod.split sum.split)

subsection \<open>Redirections\<close>

lemma reset_simps [simp]:
  "sh_vfs (s\<lparr>sh_captured_artifacts := a, sh_command_extra := x\<rparr>) = sh_vfs s"
  by simp

text \<open>
  C13. Redirection: when a command with a redirection to a plain file runs and the write is accepted, the
  command shows no output, keeps its exit status and session flag, and reading the file back gives the
  output the command would have shown, after the previous contents for \<^verbatim>\<open>>>\<close>.
\<close>

theorem redirection_captures:
  assumes "shlex_split cmd = Inr (x # xs)"
    and "parse_redirection (x # xs) = Inr (t # args, Some target, app)"
    and "\<not> is_infinite_cat (t # args) s"
    and "dispatch rec h (t # args) (join '' '' (t # args)) stdin (sh_script_depth s) s = (Inr (r, path), s1)"
    and "write_file target (cr_output r) (sh_cwd s1) app (h_now h (sh_tick s1)) (sh_vfs s1) = (Inr (), v)"
    and "plain_target (sh_vfs s1) target (sh_cwd s1)"
  shows "\<exists>s2. command_body rec h cmd stdin s = (Inr (r\<lparr>cr_output := []\<rparr>), path, s2) \<and> sh_cwd s2 = sh_cwd s1 \<and>
    read_file (sh_vfs s2) target (sh_cwd s2) =
      Inr (if app then old_content (sh_vfs s1) (location (sh_vfs s1) target (sh_cwd s1)) @ cr_output r
           else cr_output r)"
proof -
  let ?s2 = "quarantine_file h (or_else (base_name target) target) (cr_output r) []
      (tick (s1\<lparr>sh_vfs := v\<rparr>))"
  have "apply_redirection h r target app t s1 = (Inr (r\<lparr>cr_output := []\<rparr>), ?s2)"
    using assms(5) by (simp add: apply_redirection_def vfs_call_def)
  then have "command_body rec h cmd stdin s = (Inr (r\<lparr>cr_output := []\<rparr>), path, ?s2)"
    using assms(1-4) by (simp add: command_body_def)
  moreover have "read_file v target (sh_cwd s1) =
      Inr (if app then old_content (sh_vfs s1) (location (sh_vfs s1) target (sh_cwd s1)) @ cr_output r
           else cr_output r)"
    using write_file_reads [OF assms(5,6)] by (auto simp: reads_def)
  ultimately show ?thesis by (intro exI [of _ ?s2]) (simp add: tick_def)
qed

theorem redirection_captures_witness:
  "\<exists>r s2. command_body (exec 1 quiet_host) quiet_host ''echo two >> a'' [] tiny_shell = (Inr r, ''vfs'', s2) \<and>
     cr_output r = [] \<and> read_file (sh_vfs s2) ''a'' (sh_cwd s2) = Inr (''onetwo'' @ [nl])"
proof -
  have d: "dispatch (exec 1 quiet_host) quiet_host [''echo'', ''two''] (join '' '' [''echo'', ''two'']) []
      (sh_script_depth tiny_shell) tiny_shell = (Inr (CommandResult (''two'' @ [nl]) 0, ''vfs''), tiny_shell)"
    by (simp add: dispatch_def strip_system_prefix_def SYSTEM_BIN_PREFIXES_def startswith_def SHELL_WRAPPERS_def
        is_explicit_path_def handler_def cmd_echo_def with_path_def handler_path_def STATIC_HANDLER_COMMANDS_def
        prefix_def)
  have w: "write_file ''a'' (''two'' @ [nl]) ''/tmp'' True 0 tiny_vfs =
      (Inr (), snd (write_file ''a'' (''two'' @ [nl]) ''/tmp'' True 0 tiny_vfs))"
    and p: "plain_target tiny_vfs ''a'' ''/tmp''"
    and o: "old_content tiny_vfs (location tiny_vfs ''a'' ''/tmp'') = ''one''"
    and sx: "shlex_split ''echo two >> a'' = Inr [''echo'', ''two'', ''>>'', ''a'']"
    and pr: "parse_redirection [''echo'', ''two'', ''>>'', ''a''] = Inr ([''echo'', ''two''], Some ''a'', True)"
    by code_simp+
  have t: "sh_vfs tiny_shell = tiny_vfs" "sh_cwd tiny_shell = ''/tmp''" "sh_tick tiny_shell = 0"
    by (simp_all add: tiny_shell_def Shell_def Let_def)
  have i: "\<not> is_infinite_cat [''echo'', ''two''] tiny_shell"
    by (simp add: is_infinite_cat_def rsplit_last_def)
  show ?thesis
    using redirection_captures [OF sx pr i d, of "snd (write_file ''a'' (''two'' @ [nl]) ''/tmp'' True 0 tiny_vfs)"]
      w p o t by (auto simp: CommandResult_def quiet_host_def)
qed

subsection \<open>The record of a command\<close>

text \<open>
  C15. Every command is recorded, crashed ones included: when the disk accepts every write to the log,
  a single command with some text in it, run in any way and ending in a result or an exception, appends
  to the log of its session the records of the commands it ran itself, each with the id and the address
  of the session, and as the last line its own record: the time, session id, client address, the
  command's text, execution path, duration and captured artifacts, and behind them the metadata of
  the execution trap, whose keys are none of these fields.
\<close>

theorem command_recorded:
  assumes "execute_single_command (exec fuel h) h cmd stdin s = (r, s')" and "strip_ws cmd \<noteq> []"
    and "h_log_ok h = (\<lambda>n. True)"
  shows "\<exists>inner n path.
    log_text (sh_logs s') (session_log_path (sh_session_id s)) =
      log_text (sh_logs s) (session_log_path (sh_session_id s)) @
      concat (map (\<lambda>r. dumps (JObj r) @ [nl]) inner) @
      dumps (JObj (command_record (iso_utc_now (h_now h n)) (sh_session_id s) (sh_client_ip s) (strip_ws cmd)
        path (h_duration h n) (sh_captured_artifacts s') @ sh_command_extra s')) @ [nl] \<and>
    list_all (session_record (sh_session_id s) (sh_client_ip s) (fst ` set (sh_quarantine s'))) inner \<and>
    set (sh_captured_artifacts s') \<subseteq> fst ` set (sh_quarantine s') \<and>
    (sh_command_extra s' = [] \<or> map fst (sh_command_extra s') = [''target_path'', ''file_metadata'']) \<and>
    Suc n = sh_tick s' \<and> (case r of Inl e \<Rightarrow> True | Inr result \<Rightarrow> path = cr_path result)"
proof -
  let ?s = "s\<lparr>sh_captured_artifacts := [], sh_command_extra := []\<rparr>"
  obtain q path s1 where c: "command_body (exec fuel h) h cmd stdin ?s = (q, path, s1)" by (metis prod_cases3)
  have l: "ledger_step ?s s1" by (rule records.command_body_R [OF records.exec_keeps c])
  have "traced ?s" by (simp add: traced_def filed_def)
  with l have t: "traced s1" by (simp add: ledger_step_def)
  obtain inner where i: "log_text (sh_logs s1) (session_log_path (sh_session_id s)) =
      log_text (sh_logs s) (session_log_path (sh_session_id s)) @ concat (map (\<lambda>r. dumps (JObj r) @ [nl]) inner)"
    "list_all (session_record (sh_session_id s) (sh_client_ip s) (fst ` set (sh_quarantine s1))) inner"
    using l \<open>traced ?s\<close> unfolding ledger_step_def ledger_def by auto
  have ids: "sh_session_id s1 = sh_session_id s" "sh_client_ip s1 = sh_client_ip s"
    using l by (simp_all add: ledger_step_def)
  have line: "log_text (sh_logs (log_command h (strip_ws cmd) path s1)) (session_log_path (sh_session_id s)) =
      log_text (sh_logs s1) (session_log_path (sh_session_id s)) @ log_line h (strip_ws cmd) path s1"
    using log_command_line [of s1 h "strip_ws cmd" path] t assms(3) ids by (simp add: traced_def)
  have s': "sh_logs s' = sh_logs (log_command h (strip_ws cmd) path s1)" "sh_quarantine s' = sh_quarantine s1"
      "sh_captured_artifacts s' = sh_captured_artifacts s1" "sh_command_extra s' = sh_command_extra s1"
      "sh_tick s' = Suc (sh_tick s1)" "case r of Inl e \<Rightarrow> True | Inr result \<Rightarrow> path = cr_path result"
    using assms(1,2) c by (cases q; auto simp: execute_single_command_def log_command_def tick_def)+
  show ?thesis
    by (intro exI [of _ inner] exI [of _ "sh_tick s1"] exI [of _ path])
      (use i line s' t ids in \<open>auto simp: log_line_def traced_def filed_def list_all_iff TRAP_KEYS_def simp del: dumps.simps\<close>)
qed

theorem command_recorded_witness:
  "\<exists>r s' inner n path.
    execute_single_command (exec 1 quiet_host) quiet_host ''pwd'' [] tiny_shell = (r, s') \<and>
    log_text (sh_logs s') (session_log_path ''s1'') = concat (map (\<lambda>r. dumps (JObj r) @ [nl]) inner) @
      dumps (JObj (command_record (iso_utc_now (h_now quiet_host n)) ''s1'' ''192.0.2.7'' ''pwd''
        path (h_duration quiet_host n) (sh_captured_artifacts s') @ sh_command_extra s')) @ [nl]"
proof -
  obtain r s' where e: "execute_single_command (exec 1 quiet_host) quiet_host ''pwd'' [] tiny_shell = (r, s')"
    by fastforce
  have w: "strip_ws ''pwd'' = ''pwd''" "strip_ws ''pwd'' \<noteq> []" by code_simp+
  have t: "sh_session_id tiny_shell = ''s1''" "sh_client_ip tiny_shell = ''192.0.2.7''" "sh_logs tiny_shell = []"
    by (simp_all add: tiny_shell_def Shell_def Let_def)
  have "h_log_ok quiet_host = (\<lambda>n. True)" by (simp add: quiet_host_def)
  from command_recorded [OF e w(2) this, unfolded w(1) t] e show ?thesis
    by (simp add: log_text_def del: dumps.simps) blast
qed

subsection \<open>Execution of a path\<close>

lemma ensure_trailing_newline_Nil [simp]: "ensure_trailing_newline t = [] \<longleftrightarrow> t = []"
  by (simp add: ensure_trailing_newline_def)


subsection \<open>The permission column\<close>

lemma perm_bit_eq: "c \<noteq> CHR ''-'' \<Longrightarrow> perm_bit md n c = perm_bit md' n c \<longleftrightarrow> bit md n = bit md' n"
  by (auto simp: perm_bit_def)

lemma special_eq:
  assumes "low \<notin> {high, CHR ''-'', CHR ''x''}" and "high \<notin> {CHR ''-'', CHR ''x''}"
  shows "special on low high (perm_bit md n (CHR ''x'')) = special on' low high (perm_bit md' n (CHR ''x'')) \<longleftrightarrow>
    on = on' \<and> bit md n = bit md' n"
  using assms by (cases on; cases on'; cases "bit md n"; cases "bit md' n") (auto simp: special_def perm_bit_def)

lemma take_bit_eq_list_all:
  fixes a b :: int
  shows "take_bit n a = take_bit n b \<longleftrightarrow> list_all (\<lambda>i. bit a i = bit b i) [0..<n]"
proof -
  have "take_bit n a = take_bit n b \<longleftrightarrow> (\<forall>i. bit (take_bit n a) i = bit (take_bit n b) i)"
    by (auto intro: bit_eqI)
  also have "\<dots> \<longleftrightarrow> (\<forall>i<n. bit a i = bit b i)" by (auto simp: bit_take_bit_iff)
  also have "\<dots> \<longleftrightarrow> list_all (\<lambda>i. bit a i = bit b i) [0..<n]" by (auto simp: list_all_iff)
  finally show ?thesis .
qed

text \<open>
  The listing shows permissions without loss: the nine characters of the mode column determine all
  twelve permission bits, set-user-id, set-group-id and sticky included.
\<close>

theorem perm_string_faithful:
  "(perm_string md = perm_string md' \<longleftrightarrow> take_bit 12 md = take_bit 12 md') \<and> length (perm_string md) = 9"
proof -
  have "set [0..<12] = set [8, 7, 11, 6, 5, 4, 10, 3, 2, 1, 9, 0 :: nat]" by code_simp
  then have "take_bit 12 md = take_bit 12 md' \<longleftrightarrow>
      list_all (\<lambda>n. bit md n = bit md' n) [8, 7, 11, 6, 5, 4, 10, 3, 2, 1, 9, 0]"
    unfolding take_bit_eq_list_all list_all_iff by (simp only:)
  then show ?thesis by (simp add: perm_string_def special_eq perm_bit_eq)
qed

subsection \<open>Endless devices\<close>

lemma write_file_errors:
  assumes "write_file path t cwd app now v = (Inl e, v')"
  shows "\<exists>m. write_failure prog shown label e = Some m"
proof -
  have "(\<exists>p. e = FileNotFoundError p) \<or> (\<exists>p. e = NotADirectoryError p) \<or> (\<exists>p. e = IsADirectoryError p) \<or>
      e = VFSFileTooLargeError \<or> e = VFSNoSpaceError"
    using assms unfolding write_file_def Let_def account_write_def
    by (auto split: if_splits sum.splits vnode.splits option.splits dest: resolve_Inl)
  then show ?thesis by (auto simp: write_failure_def)
qed

lemma write_file_grows:
  assumes "write_file path t cwd app now v = (Inr u, v')" and "plain_target v path cwd" and "vfs_inv v"
  shows "plain_target v' path cwd \<and> vfs_inv v' \<and> config v' = config v \<and> location v' path cwd = location v path cwd \<and>
    (\<exists>md. view (vfs_root v') (location v path cwd) =
      Some (EFile md (if app then old_content v (location v path cwd) @ t else t) True False)) \<and>
    utf8_size (if app then old_content v (location v path cwd) @ t else t) \<le> max_file_size_bytes v"
proof -
  have c: "config v' = config v" using assms(1) by (rule config_write_file)
  then have l: "location v' path cwd = location v path cwd" "vfs_home v' = vfs_home v"
    by (simp_all add: config_def location_def)
  have i: "vfs_inv v'" using write_file_inv [OF assms(3,1)] .
  obtain md where vw: "view (vfs_root v') (location v path cwd) =
      Some (EFile md (if app then old_content v (location v path cwd) @ t else t) True False)"
    using write_file_view [OF assms(1,2)] by auto
  have "small_files (max_file_size_bytes v) (vfs_root v')" using i c by (simp add: vfs_inv_def config_def)
  then have "utf8_size (if app then old_content v (location v path cwd) @ t else t) \<le> max_file_size_bytes v"
    using vw unfolding small_files_def by blast
  with vw l c i assms(2) show ?thesis by (simp add: plain_target_def)
qed

text \<open>A full run of the loop: the target has grown by one chunk per round.\<close>

lemma stream_writes_None:
  assumes "stream_writes h path chunk n app s = (None, s')" and "plain_target (sh_vfs s) path (sh_cwd s)"
    and "vfs_inv (sh_vfs s)"
  defines "text \<equiv> (if app then old_content (sh_vfs s) (location (sh_vfs s) path (sh_cwd s)) else []) @
    concat (replicate n chunk)"
  shows "plain_target (sh_vfs s') path (sh_cwd s) \<and> vfs_inv (sh_vfs s') \<and> sh_cwd s' = sh_cwd s \<and>
    config (sh_vfs s') = config (sh_vfs s) \<and>
    (0 < n \<longrightarrow> (\<exists>md. view (vfs_root (sh_vfs s')) (location (sh_vfs s) path (sh_cwd s)) = Some (EFile md text True False)) \<and>
      utf8_size text \<le> max_file_size_bytes (sh_vfs s))"
  unfolding text_def using assms(1-3)
proof (induction n arbitrary: app s)
  case (Suc n)
  obtain q v where w: "write_file path chunk (sh_cwd s) app (h_now h (sh_tick s)) (sh_vfs s) = (q, v)"
    by fastforce
  define s1 where "s1 = tick (s\<lparr>sh_vfs := v\<rparr>)"
  have c: "vfs_call h (write_file path chunk (sh_cwd s) app) s = (q, s1)"
    using w by (simp add: vfs_call_def s1_def)
  have s1: "sh_vfs s1 = v" "sh_cwd s1 = sh_cwd s" by (simp_all add: s1_def tick_def)
  obtain u where q: "q = Inr u" and rest: "stream_writes h path chunk n True s1 = (None, s')"
    using Suc.prems(1) c by (cases q) auto
  note g = write_file_grows [OF w [unfolded q] Suc.prems(2,3)]
  then have p: "plain_target (sh_vfs s1) path (sh_cwd s1)" "vfs_inv (sh_vfs s1)" by (simp_all add: s1)
  have o: "old_content v (location v path (sh_cwd s)) =
      (if app then old_content (sh_vfs s) (location (sh_vfs s) path (sh_cwd s)) @ chunk else chunk)"
    using g by (auto simp: old_content_def)
  show ?case
  proof (cases n)
    case 0
    with rest have "s' = s1" by simp
    with 0 g show ?thesis by (auto simp: s1)
  next
    case (Suc k)
    with Suc.IH [OF rest p] g o show ?thesis by (auto simp: s1 config_def)
  qed
qed simp

text \<open>A run that an exception ends: some rounds succeed and the next write raises.\<close>

lemma stream_writes_Some:
  "stream_writes h path chunk n app s = (Some e, s') \<Longrightarrow>
    \<exists>k s1. k < n \<and> stream_writes h path chunk k app s = (None, s1) \<and>
      vfs_call h (write_file path chunk (sh_cwd s1) (app \<or> 0 < k)) s1 = (Inl e, s')"
proof (induction n arbitrary: app s)
  case (Suc n)
  obtain q s1 where c: "vfs_call h (write_file path chunk (sh_cwd s) app) s = (q, s1)" by fastforce
  show ?case
  proof (cases q)
    case (Inl x)
    with Suc.prems c show ?thesis by (intro exI [of _ 0] exI [of _ s]) simp
  next
    case (Inr u)
    with Suc.prems c have "stream_writes h path chunk n True s1 = (Some e, s')" by simp
    from Suc.IH [OF this] obtain k s2 where k: "k < n" "stream_writes h path chunk k True s1 = (None, s2)"
        "vfs_call h (write_file path chunk (sh_cwd s2) True) s2 = (Inl e, s')" by auto
    with c Inr show ?thesis by (intro exI [of _ "Suc k"] exI [of _ s2]) simp
  qed
qed simp

lemma concat_replicate_size: "utf8_size (concat (replicate n t)) = int n * utf8_size t"
  by (induction n) (simp_all add: utf8_size_def algebra_simps)

text \<open>A write to a file that is there fails for want of space only.\<close>

lemma write_file_full:
  assumes "write_file path t cwd app now v = (Inl e, v')" and "view (vfs_root v) (location v path cwd) = Some (EFile md c d dev)"
    and "location v path cwd \<noteq> []"
  shows "e \<in> {VFSFileTooLargeError, VFSNoSpaceError}"
proof (cases rule: location_cases [of v path cwd])
  case (below ps nm)
  from assms(2) obtain n where n: "lookup (vfs_root v) (ps @ [nm]) = Some n" "entry_of n = EFile md c d dev"
    by (auto simp: view_def below(1))
  then obtain m ch where p: "lookup (vfs_root v) ps = Some (VFSDirectory m ch)" "map_of ch nm = Some n"
    by (auto simp: lookup_snoc split: option.splits vnode.splits)
  have "resolve v (parent_path (canonicalize path cwd (vfs_home v))) ''/'' = Inr (VFSDirectory m ch)"
    using below p by (simp add: resolve_Inr)
  with assms(1) p(2) n(2) below(2,4) show ?thesis
    by (cases n) (auto simp: write_file_def Let_def account_write_def split: if_splits)
qed (use assms(3) in simp)

lemma utf8_size_pos: "t \<noteq> [] \<Longrightarrow> 1 \<le> utf8_size t"
proof (cases t)
  case (Cons c cs)
  have "0 \<le> utf8_size cs" by (auto simp: utf8_size_def intro!: sum_list_nonneg)
  with Cons show ?thesis by (simp add: utf8_size_def)
qed simp

text \<open>The rounds of the copy loop write more than the quota: \<open>m\<close> bytes in chunks of \<open>c\<close>.\<close>

lemma rounds_exceed_quota:
  fixes m c :: int
  assumes "0 \<le> m" and "1 \<le> c" and "n = nat (m div max c 1 + 2)"
  shows "n \<noteq> 0 \<and> m < int n * c"
proof -
  have "0 \<le> m div c" using assms(1,2) by (simp add: pos_imp_zdiv_nonneg_iff)
  then have n: "int n = m div c + 2" using assms(2,3) by simp
  have "m < (m div c + 1) * c"
    using div_mult_mod_eq [of m c] pos_mod_bound [of c m] assms(2) unfolding distrib_right by linarith
  with n \<open>0 \<le> m div c\<close> assms(2) show ?thesis by (auto simp: algebra_simps)
qed

lemma plain_target_no_device:
  assumes "plain_target v target cwd"
  shows "case (case resolve v target cwd of
                   Inl (FileNotFoundError _) \<Rightarrow> Inr False
                 | Inl (NotADirectoryError _) \<Rightarrow> Inr False
                 | Inl e \<Rightarrow> Inl e
                 | Inr dest \<Rightarrow> Inr (\<not> is_directory dest \<and> ino_char_device (node_meta dest))) of
             Inl e \<Rightarrow> False | Inr b \<Rightarrow> \<not> b"
proof (cases "resolve v target cwd")
  case (Inl e)
  with resolve_Inl [OF Inl] show ?thesis by auto
next
  case (Inr n)
  then have "view (vfs_root v) (location v target cwd) = Some (entry_of n)" by (simp add: resolve_Inr view_def)
  with Inr assms show ?thesis by (cases n) (auto simp: plain_target_def)
qed

text \<open>
  C17. Copying an endless device into a file ends: \<^verbatim>\<open>cat /dev/zero > f\<close> makes some number of successful
  writes, smaller than the number of rounds the code allows, and the next write raises; the command
  ends with status 1 and the message for that exception, for every size of the device's chunk.  If any
  write succeeded, the exception is one of the two quota errors and the file holds the chunks written
  (after its old contents for \<^verbatim>\<open>>>\<close>).
\<close>

theorem endless_copy_stops:
  assumes "vfs_inv (sh_vfs s)" and "max_file_size_bytes (sh_vfs s) \<le> max_total_vfs_bytes (sh_vfs s)"
    and "plain_target (sh_vfs s) target (sh_cwd s)"
    and "infinite_device s args = Some device" and "read_file (sh_vfs s) device (sh_cwd s) = Inr chunk"
    and "chunk \<noteq> []"
  shows "\<exists>k s1 e s' m. int k < max_total_vfs_bytes (sh_vfs s) div max (utf8_size chunk) 1 + 2 \<and>
    stream_writes h target chunk k app s = (None, s1) \<and>
    vfs_call h (write_file target chunk (sh_cwd s) (app \<or> 0 < k)) s1 = (Inl e, s') \<and>
    write_failure ''bash'' target (or_else name target) e = Some m \<and>
    stream_infinite_redirect h name (t # args) target app s = (Inr (fail m), s') \<and>
    (0 < k \<longrightarrow> e \<in> {VFSFileTooLargeError, VFSNoSpaceError} \<and>
       read_file (sh_vfs s') target (sh_cwd s) =
         Inr ((if app then old_content (sh_vfs s) (location (sh_vfs s) target (sh_cwd s)) else []) @
           concat (replicate k chunk))) \<and>
    vfs_inv (sh_vfs s')"
proof -
  let ?n = "nat (max_total_vfs_bytes (sh_vfs s) div max (utf8_size chunk) 1 + 2)"
  have size: "1 \<le> utf8_size chunk" by (rule utf8_size_pos) fact
  have pos: "0 \<le> max_total_vfs_bytes (sh_vfs s)" using assms(1) by (simp add: vfs_inv_def counter_ok_def)
  note rounds = rounds_exceed_quota [OF pos size refl]
  obtain e0 s0 where c: "stream_writes h target chunk ?n app s = (e0, s0)" by fastforce
  have "e0 \<noteq> None"
  proof
    assume "e0 = None"
    with stream_writes_None [OF c [unfolded this] assms(3,1)] rounds
    have "int ?n * utf8_size chunk \<le> max_file_size_bytes (sh_vfs s)"
      by (auto simp: utf8_size_append concat_replicate_size split: if_splits intro: order_trans [rotated])
    with rounds assms(2) show False by linarith
  qed
  then obtain e where e0: "e0 = Some e" by blast
  from stream_writes_Some [OF c [unfolded e0]] obtain k s1 where k: "k < ?n"
    "stream_writes h target chunk k app s = (None, s1)"
    "vfs_call h (write_file target chunk (sh_cwd s1) (app \<or> 0 < k)) s1 = (Inl e, s0)" by blast
  note g = stream_writes_None [OF k(2) assms(3,1)]
  from k(3) obtain v where w: "write_file target chunk (sh_cwd s1) (app \<or> 0 < k) (h_now h (sh_tick s1)) (sh_vfs s1) =
      (Inl e, v)" and s0: "s0 = tick (s1\<lparr>sh_vfs := v\<rparr>)"
    by (auto simp: vfs_call_def split: prod.splits)
  then have v: "sh_vfs s0 = sh_vfs s1" by (auto dest: vfs_Inl simp: tick_def)
  obtain m where m: "write_failure ''bash'' target (or_else name target) e = Some m"
    using write_file_errors [OF w] by blast
  have r: "stream_infinite_redirect h name (t # args) target app s = (Inr (fail m), s0)"
    using plain_target_no_device [OF assms(3)] assms(4-6) c e0 m unfolding stream_infinite_redirect_def Let_def
    by (auto split: sum.splits bool.splits)
  have full: "e \<in> {VFSFileTooLargeError, VFSNoSpaceError} \<and>
       read_file (sh_vfs s0) target (sh_cwd s) =
         Inr ((if app then old_content (sh_vfs s) (location (sh_vfs s) target (sh_cwd s)) else []) @
           concat (replicate k chunk))" if "0 < k"
  proof -
    have l: "location (sh_vfs s1) target (sh_cwd s) = location (sh_vfs s) target (sh_cwd s)"
      using g by (simp add: location_def config_def)
    obtain md where f: "view (vfs_root (sh_vfs s1)) (location (sh_vfs s) target (sh_cwd s)) =
        Some (EFile md ((if app then old_content (sh_vfs s) (location (sh_vfs s) target (sh_cwd s)) else []) @
          concat (replicate k chunk)) True False)"
      using g \<open>0 < k\<close> by blast
    moreover have "location (sh_vfs s) target (sh_cwd s) \<noteq> []"
    proof
      assume "location (sh_vfs s) target (sh_cwd s) = []"
      with f g show False by (cases "vfs_root (sh_vfs s1)") (auto simp: view_def vfs_inv_def)
    qed
    ultimately show ?thesis
      using write_file_full [OF w] g by (simp add: l read_file_view reads_def v)
  qed
  have "int k < max_total_vfs_bytes (sh_vfs s) div max (utf8_size chunk) 1 + 2" using k(1) by linarith
  with k(2,3) m r full g v show ?thesis by (intro exI [of _ k] exI [of _ s1] exI [of _ e] exI [of _ s0] exI [of _ m]) simp
qed

definition zero_vfs :: vfs where
  "zero_vfs = (VirtualFileSystem (directory [] [directory ''dev'' [char_device_node ''zero''] 0x1ED,
     directory ''tmp'' [] 0x1FF] 0x1ED) DEFAULT_HOME)\<lparr>max_read_chunk_bytes := 4\<rparr>"

definition zero_shell :: shell where
  "zero_shell = Shell zero_vfs [] ''s1'' ''192.0.2.7'' (Some ''/tmp'') None"

lemma zero_inv: "vfs_inv zero_vfs"
proof -
  have "good_node (directory [] [directory ''dev'' [char_device_node ''zero''] 0x1ED,
     directory ''tmp'' [] 0x1FF] 0x1ED)"
    by (intro good_directory) (simp_all add: proper_def good_directory)
  then show ?thesis
    by (simp add: zero_vfs_def VirtualFileSystem_def vfs_inv_def counter_ok_def good_node_def static_dyn_bytes
        static_small_files MAX_TOTAL_VFS_BYTES_def) (simp add: directory_def)
qed

lemma zero_shell_simps [simp]:
  "sh_vfs zero_shell = zero_vfs" "sh_cwd zero_shell = ''/tmp''"
  by (simp_all add: zero_shell_def Shell_def Let_def)

theorem endless_copy_stops_witness:
  "\<exists>k s1 s' m. stream_writes quiet_host ''big'' (replicate 4 (CHR 0x00)) k False zero_shell = (None, s1) \<and>
     stream_infinite_redirect quiet_host ''cat'' [''cat'', ''/dev/zero''] ''big'' False zero_shell = (Inr (fail m), s')"
proof -
  have "plain_target zero_vfs ''big'' ''/tmp''" "read_file zero_vfs ''/dev/zero'' ''/tmp'' = Inr (replicate 4 (CHR 0x00))"
    "max_file_size_bytes zero_vfs \<le> max_total_vfs_bytes zero_vfs"
    "infinite_device zero_shell [''/dev/zero''] = Some ''/dev/zero''"
    by code_simp+
  with endless_copy_stops [of zero_shell "''big''" "[''/dev/zero'']" "''/dev/zero''" "replicate 4 (CHR 0x00)",
      where h = quiet_host and name = "''cat''" and t = "''cat''" and app = False] zero_inv
  show ?thesis by auto
qed

subsection \<open>Exceptions that escape\<close>

lemma dispatch_handler:
  assumes "strip_system_prefix c = c" and "c \<notin> set SHELL_WRAPPERS" and "\<not> is_explicit_path c"
    and "handler h stdin c = Some f"
  shows "dispatch rec h (c # args) stripped stdin d s = with_path (handler_path c) (f args s)"
  using assms by (simp add: dispatch_def)

lemma wget_dispatch:
  "dispatch rec h (''wget'' # args) stripped stdin d s = with_path ''sinkhole'' (cmd_wget h args s)"
proof -
  have "strip_system_prefix ''wget'' = ''wget''" "''wget'' \<notin> set SHELL_WRAPPERS" "\<not> is_explicit_path ''wget''"
    "handler_path ''wget'' = ''sinkhole''"
    by code_simp+
  moreover have "handler h stdin ''wget'' = Some (cmd_wget h)" by (simp add: handler_def)
  ultimately show ?thesis by (simp add: dispatch_handler)
qed

lemma iso_utc_now_epoch: "iso_utc_now 0 = ''1970-01-01T00:00:00Z''"
  by code_simp

text \<open>
  A port out of range in a URL escapes from \<^verbatim>\<open>wget\<close>: the payload is written and quarantined, then
  building the progress text reads \<^verbatim>\<open>parsed.port\<close>, whose \<^verbatim>\<open>ValueError\<close> no handler of the shell catches, so
  the command line, and the session with it, ends in an exception.
\<close>

theorem wget_port_escapes:
  "\<exists>s'. execute_single_command rec quiet_host ''wget http://h:99999/x'' [] tiny_shell =
      (Inl (UncaughtValueError ''Port out of range 0-65535''), s') \<and>
    read_file (sh_vfs s') ''x'' ''/tmp'' =
      Inr (mocked_payload ''http://h:99999/x'' ''192.0.2.7'' ''1970-01-01T00:00:00Z'')"
proof -
  let ?u = "''http://h:99999/x''" and ?s = "tiny_shell\<lparr>sh_captured_artifacts := [], sh_command_extra := []\<rparr>"
  let ?p = "mocked_payload ?u ''192.0.2.7'' ''1970-01-01T00:00:00Z''"
  define v where "v = snd (write_file ''x'' ?p ''/tmp'' False 1000000 tiny_vfs)"
  have parts: "parse_wget_args [?u] = (Some ?u, None)" "url_filename quiet_host ?u = Inr ''x''"
    "base_name ''x'' = ''x''" "urlparse (\<lambda>_. True) ?u = Inr \<lparr>url_scheme = ''http'', url_netloc = ''h:99999'', url_path = ''/x''\<rparr>"
    "url_port \<lparr>url_scheme = ''http'', url_netloc = ''h:99999'', url_path = ''/x''\<rparr> = Inl ''Port out of range 0-65535''"
    "fst (write_file ''x'' ?p ''/tmp'' False 1000000 tiny_vfs) = Inr ()"
    and v: "read_file v ''x'' ''/tmp'' = Inr ?p" unfolding v_def
    by code_simp+
  then have "write_file ''x'' ?p ''/tmp'' False 1000000 tiny_vfs = (Inr (), v)" by (simp add: v_def prod_eq_iff)
  moreover have "sh_vfs ?s = tiny_vfs" "sh_cwd ?s = ''/tmp''" "sh_tick ?s = 0" "sh_client_ip ?s = ''192.0.2.7''"
    by (simp_all add: tiny_shell_def Shell_def Let_def)
  moreover have "h_now quiet_host n = 1000000 * int n" "h_bracket_ok quiet_host = (\<lambda>_. True)" for n
    by (simp_all add: quiet_host_def)
  ultimately obtain s' where "cmd_wget quiet_host [?u] ?s =
      (Inl (UncaughtValueError ''Port out of range 0-65535''), s')" "sh_vfs s' = v"
    using parts by (simp add: cmd_wget_def download_name_def wget_progress_def vfs_call_def tick_def
        iso_utc_now_epoch Let_def)
  moreover have "strip_ws ''wget http://h:99999/x'' = ''wget http://h:99999/x''"
    "shlex_split ''wget http://h:99999/x'' = Inr [''wget'', ''http://h:99999/x'']"
    "parse_redirection [''wget'', ''http://h:99999/x''] = Inr ([''wget'', ''http://h:99999/x''], None, False)"
    by code_simp+
  ultimately show ?thesis
    using v by (simp add: execute_single_command_def command_body_def wget_dispatch with_path_def)
qed

text \<open>
  Removing a device escapes from the copy loop: after \<^verbatim>\<open>rm /dev/zero\<close>, redirecting \<^verbatim>\<open>cat /dev/zero\<close>
  still counts as an endless copy by its path alone, and the read of the missing device is outside
  the \<^verbatim>\<open>try\<close>, so the command ends in \<^verbatim>\<open>FileNotFoundError\<close> where a shell prints a message.
\<close>

theorem removed_device_escapes:
  "fst (execute_single_command rec quiet_host ''cat /dev/zero > big'' []
     (snd (cmd_rm quiet_host [''/dev/zero''] zero_shell))) =
   Inl (UncaughtVfs (FileNotFoundError ''/dev/zero''))"
proof -
  let ?s = "(snd (cmd_rm quiet_host [''/dev/zero''] zero_shell))
      \<lparr>sh_captured_artifacts := [], sh_command_extra := []\<rparr>"
  have "is_infinite_cat [''cat'', ''/dev/zero''] ?s"
    "fst (stream_infinite_redirect quiet_host ''cat'' [''cat'', ''/dev/zero''] ''big'' False ?s) =
      Inl (UncaughtVfs (FileNotFoundError ''/dev/zero''))"
    "strip_ws ''cat /dev/zero > big'' = ''cat /dev/zero > big''"
    "shlex_split ''cat /dev/zero > big'' = Inr [''cat'', ''/dev/zero'', ''>'', ''big'']"
    "parse_redirection [''cat'', ''/dev/zero'', ''>'', ''big''] = Inr ([''cat'', ''/dev/zero''], Some ''big'', False)"
    by code_simp+
  moreover from this(2) obtain s1 where
    "stream_infinite_redirect quiet_host ''cat'' [''cat'', ''/dev/zero''] ''big'' False ?s =
      (Inl (UncaughtVfs (FileNotFoundError ''/dev/zero'')), s1)"
    by (metis prod.collapse)
  ultimately show ?thesis by (simp add: execute_single_command_def command_body_def)
qed

end
