(* ===== verification/Shell_Parse_Properties.thy ===== *)
theory Shell_Parse_Properties
  imports Shell_Parse
begin

text \<open>
  The parsing layer reads back what a client writes: printing a program (a list of statements, each a
  chain of conditionals over pipelines of commands, whose words are quoted or bare) and parsing the
  line gives the program.  The second part are concrete divergences between the splitters and the lexer.
\<close>

subsection \<open>Quoting\<close>

definition encode_quotes :: "string \<Rightarrow> string" where
  "encode_quotes w =
     concat (map (\<lambda>c. if c = squote then [squote, dquote, squote, dquote, squote] else [c]) w)"

text \<open>The quoting of \<^verbatim>\<open>shlex.quote\<close>, applied to every word.\<close>

definition quote_word :: "string \<Rightarrow> string" where
  "quote_word w = [squote] @ encode_quotes w @ [squote]"

lemma encode_quotes_simps [simp]:
  "encode_quotes [] = []"
  "encode_quotes (c # w) =
     (if c = squote then [squote, dquote, squote, dquote, squote] else [c]) @ encode_quotes w"
  by (simp_all add: encode_quotes_def)

lemma shlex_encoded:
  "shlex_run (InQuote squote) token q (encode_quotes w @ squote # rest) = shlex_run InWord (token @ w) True rest"
  by (induction w arbitrary: token q) (auto simp: lex_space_def)

lemma shlex_quote_word: "shlex_run Between [] q (quote_word w @ rest) = shlex_run InWord w True rest"
  by (simp add: quote_word_def shlex_encoded lex_space_def)

text \<open>
  A word as it is typed: in quotes, or bare when it has no white space, quote, backslash or character
  of an operator.
\<close>

datatype shell_word = Quoted string | Bare string

fun word_text :: "shell_word \<Rightarrow> string" where
  "word_text (Quoted w) = quote_word w"
| "word_text (Bare w) = w"

fun word_value :: "shell_word \<Rightarrow> string" where
  "word_value (Quoted w) = w"
| "word_value (Bare w) = w"

definition bare_char :: "char \<Rightarrow> bool" where
  "bare_char c \<longleftrightarrow> \<not> is_space c \<and> c \<notin> set [squote, dquote, bslash, CHR '';'', CHR ''&'', CHR ''|'']"

fun proper_word :: "shell_word \<Rightarrow> bool" where
  "proper_word (Quoted w) = True"
| "proper_word (Bare w) = (w \<noteq> [] \<and> list_all bare_char w)"

lemma bare_not_space: "bare_char c \<Longrightarrow> \<not> lex_space c"
proof -
  have "list_all is_space [CHR '' '', tab, cr, nl]" by code_simp
  then show "bare_char c \<Longrightarrow> \<not> lex_space c" unfolding bare_char_def lex_space_def by fastforce
qed

lemma shlex_bare: "list_all bare_char w \<Longrightarrow> shlex_run InWord token q (w @ rest) = shlex_run InWord (token @ w) q rest"
proof (induction w arbitrary: token)
  case (Cons c w)
  then have "\<not> lex_space c" "c \<notin> {squote, dquote}" "c \<noteq> bslash"
    by (simp_all add: bare_not_space) (simp_all add: bare_char_def)
  with Cons show ?case by simp
qed simp

lemma shlex_word:
  assumes "proper_word x"
  shows "\<exists>q. (word_value x \<noteq> [] \<or> q) \<and>
    shlex_run Between [] False (word_text x @ rest) = shlex_run InWord (word_value x) q rest"
proof (cases x)
  case (Bare w)
  with assms obtain c v where w: "w = c # v" "bare_char c" "list_all bare_char v" by (cases w) auto
  then have "shlex_run Between [] False (w @ rest) = shlex_run InWord w False rest"
    by (simp add: bare_not_space shlex_bare) (simp add: bare_char_def)
  with Bare w(1) show ?thesis by auto
qed (use shlex_quote_word in auto)

definition write_stage :: "shell_word list \<Rightarrow> string" where
  "write_stage ws = join '' '' (map word_text ws)"

lemma shlex_words: "ws \<noteq> [] \<Longrightarrow> list_all proper_word ws \<Longrightarrow> shlex_split (write_stage ws) = Inr (map word_value ws)"
proof (induction ws)
  case (Cons w ws)
  show ?case
  proof (cases "ws = []")
    case True
    then show ?thesis
      using shlex_word [of w "[]"] Cons.prems by (auto simp: shlex_split_def write_stage_def)
  next
    case False
    then have "write_stage (w # ws) = word_text w @ CHR '' '' # write_stage ws"
      by (simp add: write_stage_def join_Cons)
    then show ?thesis
      using Cons.IH [OF False] Cons.prems shlex_word [of w "CHR '' '' # write_stage ws"]
      by (auto simp: shlex_split_def lex_space_def)
  qed
qed simp

subsection \<open>Text the operator splitter passes over\<close>

definition opaque :: "string list \<Rightarrow> string \<Rightarrow> bool" where
  "opaque seps t \<longleftrightarrow>
     (\<forall>buf inc rest. split_from seps None buf inc (t @ rest) = split_from seps None (buf @ t) inc rest)"

lemma opaque_append: "opaque seps s \<Longrightarrow> opaque seps t \<Longrightarrow> opaque seps (s @ t)"
  by (simp add: opaque_def)

lemma opaque_Nil [simp]: "opaque seps []"
  by (simp add: opaque_def)

lemma split_encoded:
  "split_from seps (Some squote) buf inc (encode_quotes w @ squote # rest) =
    split_from seps None (buf @ encode_quotes w @ [squote]) inc rest"
  by (induction w arbitrary: buf) auto

lemma opaque_quote_word: "opaque seps (quote_word w)"
  by (simp add: opaque_def quote_word_def split_encoded)

lemma opaque_bare:
  assumes "list_all bare_char w" and "seps = ['';''] \<or> seps = [''&&'', ''||'']"
  shows "opaque seps w"
proof -
  have "split_from seps None buf inc (w @ rest) = split_from seps None (buf @ w) inc rest" for buf inc rest
    using assms(1)
  proof (induction w arbitrary: buf)
    case (Cons c w)
    then have "List.find (\<lambda>sep. startswith (c # w @ rest) sep) seps = None" "c \<noteq> bslash" "c \<notin> {squote, dquote}"
      using assms(2) by (auto simp: bare_char_def startswith_def)
    with Cons show ?case by simp
  qed simp
  then show ?thesis by (simp add: opaque_def)
qed

lemma opaque_word: "proper_word x \<Longrightarrow> seps = ['';''] \<or> seps = [''&&'', ''||''] \<Longrightarrow> opaque seps (word_text x)"
  by (cases x) (auto simp: opaque_quote_word opaque_bare)

lemma opaque_join:
  "opaque seps sep \<Longrightarrow> (\<And>x. x \<in> set xs \<Longrightarrow> opaque seps x) \<Longrightarrow> opaque seps (join sep xs)"
  by (induction sep xs rule: join.induct) (auto intro!: opaque_append)

definition opaque_pipe :: "string \<Rightarrow> bool" where
  "opaque_pipe t \<longleftrightarrow> (\<forall>buf rest. split_pipes None buf (t @ rest) = split_pipes None (buf @ t) rest)"

lemma opaque_pipe_append: "opaque_pipe s \<Longrightarrow> opaque_pipe t \<Longrightarrow> opaque_pipe (s @ t)"
  by (simp add: opaque_pipe_def)

lemma pipes_encoded:
  "split_pipes (Some squote) buf (encode_quotes w @ squote # rest) =
    split_pipes None (buf @ encode_quotes w @ [squote]) rest"
  by (induction w arbitrary: buf) auto

lemma opaque_pipe_quote_word: "opaque_pipe (quote_word w)"
  by (simp add: opaque_pipe_def quote_word_def pipes_encoded)

lemma opaque_pipe_bare: "list_all bare_char w \<Longrightarrow> opaque_pipe w"
  unfolding opaque_pipe_def by (induction w) (auto simp: bare_char_def)

lemma opaque_pipe_word: "proper_word x \<Longrightarrow> opaque_pipe (word_text x)"
  by (cases x) (auto simp: opaque_pipe_quote_word opaque_pipe_bare)

lemma opaque_pipe_join:
  "opaque_pipe sep \<Longrightarrow> (\<And>x. x \<in> set xs \<Longrightarrow> opaque_pipe x) \<Longrightarrow> opaque_pipe (join sep xs)"
  by (induction sep xs rule: join.induct) (auto simp: opaque_pipe_def)

subsection \<open>Trimming\<close>

text \<open>Text that starts and ends with a visible character.\<close>

definition tight :: "string \<Rightarrow> bool" where
  "tight t \<longleftrightarrow> t \<noteq> [] \<and> \<not> is_space (hd t) \<and> \<not> is_space (last t)"

definition blank :: "string \<Rightarrow> bool" where
  "blank s \<longleftrightarrow> list_all is_space s"

lemma dropWhile_blank: "list_all p a \<Longrightarrow> t \<noteq> [] \<Longrightarrow> \<not> p (hd t) \<Longrightarrow> dropWhile p (a @ t) = t"
  by (induction a) (cases t; auto)+

lemma strip_tight: "tight t \<Longrightarrow> blank a \<Longrightarrow> blank b \<Longrightarrow> strip_ws (a @ t @ b) = t"
proof -
  assume t: "tight t" and a: "blank a" and b: "blank b"
  have "lstrip is_space (a @ t @ b) = t @ b"
    unfolding lstrip_def using t a by (intro dropWhile_blank) (auto simp: tight_def blank_def)
  moreover have "dropWhile is_space (rev b @ rev t) = rev t"
    using t b by (intro dropWhile_blank) (auto simp: tight_def blank_def hd_rev)
  ultimately show ?thesis by (simp add: strip_def rstrip_def)
qed

lemma flush_tight: "tight t \<Longrightarrow> blank a \<Longrightarrow> blank b \<Longrightarrow> flush inc (a @ t @ b) rest = (inc, t) # rest"
  by (simp add: flush_def strip_tight Let_def) (simp add: tight_def)

lemma tight_quote_word: "tight (quote_word w)"
  by (simp add: tight_def quote_word_def is_space_def ord_def)

lemma tight_word: "proper_word x \<Longrightarrow> tight (word_text x)"
proof (cases x)
  case (Bare w)
  moreover assume "proper_word x"
  ultimately show ?thesis by (simp add: tight_def list_all_iff bare_char_def)
qed (simp add: tight_quote_word)

lemma tight_join:
  assumes "xs \<noteq> []" and "\<And>x. x \<in> set xs \<Longrightarrow> tight x"
  shows "tight (join sep xs)"
  using assms
proof (induction xs)
  case (Cons x xs)
  then show ?case by (cases "xs = []") (auto simp: join_Cons tight_def)
qed simp

subsection \<open>Splitting printed chains\<close>

definition chain :: "string \<Rightarrow> string \<Rightarrow> string \<Rightarrow> (string \<times> string) list \<Rightarrow> string" where
  "chain l r t items = t @ concat (map (\<lambda>(op, u). l @ op @ r @ u) items)"

lemma split_chain:
  assumes "opaque seps l" and "opaque seps r" and "blank l" and "blank r"
    and "blank sp" and "opaque seps t" and "tight t"
    and "\<forall>(op, u) \<in> set items. opaque seps u \<and> tight u \<and> op \<noteq> [] \<and> hd op \<notin> {bslash, squote, dquote} \<and>
      (\<forall>rest. List.find (\<lambda>sep. startswith (op @ r @ rest) sep) seps = Some op)"
  shows "split_from seps None sp inc (chain l r t items) = (inc, t) # items"
  using assms(5-8)
proof (induction items arbitrary: sp inc t)
  case Nil
  have "split_from seps None sp inc (t @ []) = split_from seps None (sp @ t) inc []"
    using Nil.prems(2) unfolding opaque_def by blast
  then show ?case
    using flush_tight [OF Nil.prems(3,1), of "[]" inc "[]"] by (simp add: chain_def blank_def)
next
  case (Cons p items)
  obtain op u where p: "p = (op, u)" by fastforce
  obtain c s where op: "op = c # s" using Cons.prems(4) p by (cases op) auto
  let ?rest = "chain l r u items"
  have "chain l r t (p # items) = t @ l @ op @ r @ ?rest" by (simp add: chain_def p)
  also have "split_from seps None sp inc \<dots> = split_from seps None (sp @ t @ l) inc (op @ r @ ?rest)"
    using Cons.prems(2) assms(1) by (simp add: opaque_def)
  also have "\<dots> = flush inc (sp @ t @ l) (split_from seps None [] op (r @ ?rest))"
    using Cons.prems(4) p op by simp
  also have "\<dots> = (inc, t) # split_from seps None [] op (r @ ?rest)"
    by (rule flush_tight [OF Cons.prems(3,1) assms(3)])
  also have "split_from seps None [] op (r @ ?rest) = split_from seps None r op ?rest"
    using assms(2) by (simp add: opaque_def)
  also have "\<dots> = (op, u) # items"
    using Cons.prems(4) p by (intro Cons.IH [OF assms(4)]) auto
  finally show ?case by (simp add: p)
qed

lemma split_pipe_chain:
  assumes "blank sp" and "opaque_pipe t" and "tight t" and "\<forall>u \<in> set us. opaque_pipe u \<and> tight u"
  shows "split_pipes None sp (join '' | '' (t # us)) = t # us"
  using assms
proof (induction us arbitrary: sp t)
  case Nil
  have "split_pipes None sp (t @ []) = split_pipes None (sp @ t) []"
    using Nil.prems(2) unfolding opaque_pipe_def by blast
  then show ?case
    using strip_tight [OF Nil.prems(3,1), of "[]"] Nil.prems(3) by (simp add: blank_def tight_def)
next
  case (Cons u us)
  let ?rest = "join '' | '' (u # us)"
  have sp: "blank '' ''" by (simp add: blank_def is_space_def ord_def)
  have "split_pipes None sp (join '' | '' (t # u # us)) = split_pipes None (sp @ t) ('' | '' @ ?rest)"
    using Cons.prems(2) by (simp add: opaque_pipe_def)
  also have "\<dots> = t # split_pipes None '' '' ?rest"
    using strip_tight [OF Cons.prems(3,1) sp] Cons.prems(3) by (simp add: startswith_def tight_def)
  also have "split_pipes None '' '' ?rest = u # us"
    using Cons.prems(4) by (intro Cons.IH [OF sp]) auto
  finally show ?case .
qed

subsection \<open>Programs\<close>

type_synonym pipeline = "shell_word list list"

text \<open>A pipeline with the operator before it (none for the first one of a statement).\<close>

type_synonym statement = "(string \<times> pipeline) list"

definition write_pipeline :: "pipeline \<Rightarrow> string" where
  "write_pipeline p = join '' | '' (map write_stage p)"

definition write_statement :: "statement \<Rightarrow> string" where
  "write_statement st =
     chain '' '' '' '' (write_pipeline (snd (hd st))) (map (\<lambda>(op, p). (op, write_pipeline p)) (tl st))"

definition write_program :: "statement list \<Rightarrow> string" where
  "write_program sts =
     chain [] '' '' (write_statement (hd sts)) (map (\<lambda>st. ('';'', write_statement st)) (tl sts))"

definition proper_pipeline :: "pipeline \<Rightarrow> bool" where
  "proper_pipeline p \<longleftrightarrow> p \<noteq> [] \<and> list_all (\<lambda>ws. ws \<noteq> [] \<and> list_all proper_word ws) p"

definition proper_statement :: "statement \<Rightarrow> bool" where
  "proper_statement st \<longleftrightarrow> st \<noteq> [] \<and> fst (hd st) = [] \<and>
     list_all (\<lambda>(op, p). op \<in> {''&&'', ''||''}) (tl st) \<and> list_all (\<lambda>(op, p). proper_pipeline p) st"

text \<open>What the shell makes of a line: statements, segments with their operator, stages, words.\<close>

definition parse_program :: "string \<Rightarrow> (string \<times> (string + string list) list) list list" where
  "parse_program line =
     map (\<lambda>st. map (\<lambda>seg. (seg_operator seg, map shlex_split (split_pipeline (seg_command seg))))
       (split_conditionals st)) (split_statements line)"

lemma blank_space: "blank '' ''" "blank []"
  by (simp_all add: blank_def is_space_def ord_def)

lemma tight_stage: "ws \<noteq> [] \<Longrightarrow> list_all proper_word ws \<Longrightarrow> tight (write_stage ws)"
  unfolding write_stage_def by (rule tight_join) (auto simp: tight_word list_all_iff)

lemma tight_pipeline: "proper_pipeline p \<Longrightarrow> tight (write_pipeline p)"
  unfolding write_pipeline_def
  by (rule tight_join) (auto simp: proper_pipeline_def list_all_iff intro: tight_stage)

lemma opaque_semicolon: "opaque ['';''] '' ''" "opaque ['';''] '' | ''" "opaque ['';''] '' && ''" "opaque ['';''] '' || ''"
  by (simp_all add: opaque_def startswith_def)

lemma opaque_conditional: "opaque [''&&'', ''||''] '' ''" "opaque [''&&'', ''||''] '' | ''"
  by (simp_all add: opaque_def startswith_def)

lemma opaque_stage:
  "list_all proper_word ws \<Longrightarrow> seps = ['';''] \<or> seps = [''&&'', ''||''] \<Longrightarrow> opaque seps (write_stage ws)"
  unfolding write_stage_def
  by (rule opaque_join) (auto simp: list_all_iff opaque_semicolon opaque_conditional intro: opaque_word)

lemma opaque_pipeline:
  "proper_pipeline p \<Longrightarrow> seps = ['';''] \<or> seps = [''&&'', ''||''] \<Longrightarrow> opaque seps (write_pipeline p)"
  unfolding write_pipeline_def
  by (rule opaque_join)
    (auto simp: proper_pipeline_def list_all_iff opaque_semicolon opaque_conditional intro!: opaque_stage)

lemma opaque_pipe_stage: "list_all proper_word ws \<Longrightarrow> opaque_pipe (write_stage ws)"
  unfolding write_stage_def
  by (rule opaque_pipe_join) (auto simp: list_all_iff opaque_pipe_def [of "'' ''"] intro: opaque_pipe_word)

lemma sorted_operators:
  "split_operators line ['';''] = split_from ['';''] None [] [] line"
  "split_operators line [''&&'', ''||''] = split_from [''&&'', ''||''] None [] [] line"
  by (simp_all add: split_operators_def)

lemma chain_Cons: "chain l r t ((op, u) # items) = t @ l @ op @ r @ chain l r u items"
  by (simp add: chain_def)

lemma opaque_chain:
  assumes "opaque seps t" and "\<forall>(op, u) \<in> set items. opaque seps (l @ op @ r) \<and> opaque seps u"
  shows "opaque seps (chain l r t items)"
  using assms
proof (induction items arbitrary: t)
  case (Cons p items)
  obtain op u where p: "p = (op, u)" by fastforce
  have "opaque seps (chain l r u items)" using Cons p by auto
  then have "opaque seps ((t @ (l @ op @ r)) @ chain l r u items)"
    by (intro opaque_append [of seps "t @ l @ op @ r"] opaque_append [of seps t]) (use Cons.prems p in auto)
  then show ?case by (simp add: p chain_Cons)
qed (simp add: chain_def)

lemma tight_chain: "tight t \<Longrightarrow> \<forall>(op, u) \<in> set items. tight u \<Longrightarrow> tight (chain l r t items)"
proof (induction items arbitrary: t)
  case (Cons p items)
  obtain op u where p: "p = (op, u)" by fastforce
  then have "tight (chain l r u items)" using Cons by auto
  then show ?case using Cons.prems(1) by (auto simp: p chain_Cons tight_def)
qed (simp add: chain_def)

lemma proper_statement_parts:
  assumes "proper_statement st"
  obtains p items where "st = ([], p) # items" and "proper_pipeline p"
    and "\<forall>(op, q) \<in> set items. (op = ''&&'' \<or> op = ''||'') \<and> proper_pipeline q"
  using assms that by (cases st) (fastforce simp: proper_statement_def list_all_iff)+

lemma statement_shape:
  assumes "proper_statement st"
  shows "opaque ['';''] (write_statement st) \<and> tight (write_statement st)"
proof -
  obtain p items where st: "st = ([], p) # items" "proper_pipeline p"
    "\<forall>(op, q) \<in> set items. (op = ''&&'' \<or> op = ''||'') \<and> proper_pipeline q"
    using assms by (rule proper_statement_parts)
  note semi = opaque_semicolon opaque_pipeline [where seps = "['';'']"]
  show ?thesis
    unfolding write_statement_def
  proof
    show "opaque ['';''] (chain '' '' '' '' (write_pipeline (snd (hd st))) (map (\<lambda>(op, p). (op, write_pipeline p)) (tl st)))"
      using st(2,3) semi by (intro opaque_chain) (auto simp: st(1))
    show "tight (chain '' '' '' '' (write_pipeline (snd (hd st))) (map (\<lambda>(op, p). (op, write_pipeline p)) (tl st)))"
      using st(2,3) by (intro tight_chain) (auto simp: st(1) tight_pipeline)
  qed
qed

lemma parse_pipeline:
  assumes "proper_pipeline p"
  shows "map shlex_split (split_pipeline (write_pipeline p)) = map (Inr \<circ> map word_value) p"
proof -
  obtain ws p' where p: "p = ws # p'" using assms by (cases p) (auto simp: proper_pipeline_def)
  have "split_pipeline (write_pipeline p) = map write_stage p"
    unfolding split_pipeline_def write_pipeline_def p list.map
    by (rule split_pipe_chain)
      (use assms p in \<open>auto simp: blank_space opaque_pipe_stage proper_pipeline_def list_all_iff intro: tight_stage\<close>)
  then show ?thesis
    using assms by (simp add: proper_pipeline_def list_all_iff shlex_words)
qed

lemma split_statement:
  assumes "proper_statement st"
  shows "split_conditionals (write_statement st) =
    map (\<lambda>(op, p). \<lparr>seg_command = write_pipeline p, seg_operator = op\<rparr>) st"
proof -
  obtain p items where st: "st = ([], p) # items" "proper_pipeline p"
    "\<forall>(op, q) \<in> set items. (op = ''&&'' \<or> op = ''||'') \<and> proper_pipeline q"
    using assms by (rule proper_statement_parts)
  note cond = opaque_conditional opaque_pipeline [where seps = "[''&&'', ''||'']"]
  have "split_from [''&&'', ''||''] None [] [] (write_statement st) =
      ([], write_pipeline p) # map (\<lambda>(op, q). (op, write_pipeline q)) items"
    unfolding write_statement_def st(1) list.sel snd_conv
    by (rule split_chain)
      (use st cond in \<open>auto simp: blank_space tight_pipeline startswith_def\<close>)
  then show ?thesis
    by (simp add: split_conditionals_def sorted_operators st(1) case_prod_beta comp_def)
qed

lemma parse_statement:
  assumes "proper_statement st"
  shows "map (\<lambda>seg. (seg_operator seg, map shlex_split (split_pipeline (seg_command seg))))
      (split_conditionals (write_statement st)) = map (\<lambda>(op, p). (op, map (Inr \<circ> map word_value) p)) st"
proof -
  have "\<forall>(op, p) \<in> set st. proper_pipeline p" using assms by (simp add: proper_statement_def list_all_iff)
  then show ?thesis unfolding split_statement [OF assms] by (auto simp: parse_pipeline)
qed

lemma split_program:
  assumes "prog \<noteq> []" and "list_all proper_statement prog"
  shows "split_statements (write_program prog) = map write_statement prog" and "tight (write_program prog)"
proof -
  obtain st sts where prog: "prog = st # sts" using assms(1) by (cases prog) auto
  have ok: "\<forall>s \<in> set prog. proper_statement s" using assms(2) by (simp add: list_all_iff)
  have "split_from ['';''] None [] [] (write_program prog) =
      ([], write_statement st) # map (\<lambda>s. ('';'', write_statement s)) sts"
    unfolding write_program_def prog list.sel
    by (rule split_chain)
      (use ok prog in \<open>auto simp: blank_space opaque_semicolon statement_shape startswith_def\<close>)
  then show "split_statements (write_program prog) = map write_statement prog"
    by (simp add: split_statements_def sorted_operators prog)
  show "tight (write_program prog)"
    unfolding write_program_def using ok by (intro tight_chain) (auto simp: prog statement_shape)
qed

subsection \<open>Properties\<close>

text \<open>
  C27. The command line is faithful: for every program (statements of pipelines joined by \<^verbatim>\<open>&&\<close> and
  \<^verbatim>\<open>||\<close>, over commands with arbitrary words), the line that writes each word bare, or in quotes when
  it holds quotes, operators, white space or nothing, is split and tokenized into exactly that program.
\<close>

theorem command_line_roundtrip:
  assumes "prog \<noteq> []" and "list_all proper_statement prog"
  shows "parse_program (write_program prog) = map (map (\<lambda>(op, p). (op, map (Inr \<circ> map word_value) p))) prog"
  using assms(2) unfolding parse_program_def split_program(1) [OF assms]
  by (simp add: parse_statement list_all_iff)

theorem command_line_roundtrip_witness:
  "let prog = [[([], [[Bare ''echo'', Quoted (''a; b'' @ [squote])], [Bare ''sh'']])],
     [([], [[Bare ''cd'', Quoted ''/x y'']]), (''||'', [[Bare ''ls'', Quoted []]])]]
   in parse_program (write_program prog) = map (map (\<lambda>(op, p). (op, map (Inr \<circ> map word_value) p))) prog"
  unfolding Let_def
  by (rule command_line_roundtrip) (simp_all add: proper_statement_def proper_pipeline_def bare_char_def is_space_def ord_def)

text \<open>
  Where the splitters diverge from the lexer and from their description: a backslash inside double
  quotes does not protect the quote from the statement splitter, so one word (for the lexer) is cut
  into two statements with unbalanced quotes; and \<^verbatim>\<open>split_pipeline\<close> does not leave \<^verbatim>\<open>||\<close> intact but
  cuts at its second bar.
\<close>

theorem splitter_divergence:
  "shlex_split (''echo '' @ [dquote] @ ''a'' @ [bslash, dquote] @ ''; b'' @ [dquote]) =
     Inr [''echo'', ''a'' @ [dquote] @ ''; b''] \<and>
   split_statements (''echo '' @ [dquote] @ ''a'' @ [bslash, dquote] @ ''; b'' @ [dquote]) =
     [''echo '' @ [dquote] @ ''a'' @ [bslash, dquote], ''b'' @ [dquote]] \<and>
   split_pipeline ''a || b'' = [''a |'', ''b'']"
  by (intro conjI; code_simp)

end
