(* ===== verification/Shell_Scenarios.thy ===== *)
theory Shell_Scenarios
  imports Shell_Properties Shell_Parse_Properties
begin

text \<open>
  Whole command lines, from the text that is typed to the output and the filesystem: how a line that
  writes one pipeline runs, and what it means to write a file and to read it back.
\<close>

subsection \<open>Lines of one pipeline\<close>

lemma joined_single [simp]: "joined (collect [] r) r = r"
  by (simp add: joined_def collect_def join_outputs_def)

lemma joined_own [simp]: "joined [] (CommandResult [] 0) = CommandResult [] 0"
  by (simp add: joined_def join_outputs_def CommandResult_def)

lemma single_pipeline:
  assumes "proper_pipeline p"
  shows "strip_ws (write_pipeline p) = write_pipeline p" and "write_pipeline p \<noteq> []"
    and "split_statements (write_pipeline p) = [write_pipeline p]"
    and "split_conditionals (write_pipeline p) = [\<lparr>seg_command = write_pipeline p, seg_operator = []\<rparr>]"
    and "split_pipeline (write_pipeline p) = map write_stage p"
proof -
  have t: "tight (write_pipeline p)" using assms by (rule tight_pipeline)
  show "strip_ws (write_pipeline p) = write_pipeline p"
    using strip_tight [OF t, of "[]" "[]"] by (simp add: blank_space)
  show "write_pipeline p \<noteq> []" using t by (simp add: tight_def)
  have one: "split_from seps None [] [] (write_pipeline p) = [([], write_pipeline p)]"
    if "seps = ['';''] \<or> seps = [''&&'', ''||'']" for seps
  proof -
    have "opaque seps (write_pipeline p)" using assms that by (rule opaque_pipeline)
    then have "split_from seps None [] [] (write_pipeline p @ []) = split_from seps None (write_pipeline p) [] []"
      unfolding opaque_def by (metis append_Nil)
    then show ?thesis using flush_tight [OF t, of "[]" "[]" "[]" "[]"] by (simp add: blank_space)
  qed
  then show "split_statements (write_pipeline p) = [write_pipeline p]"
    and "split_conditionals (write_pipeline p) = [\<lparr>seg_command = write_pipeline p, seg_operator = []\<rparr>]"
    by (simp_all add: split_statements_def split_conditionals_def sorted_operators)
  obtain ws p' where p: "p = ws # p'" using assms by (cases p) (auto simp: proper_pipeline_def)
  show "split_pipeline (write_pipeline p) = map write_stage p"
    unfolding split_pipeline_def write_pipeline_def p list.map
    by (rule split_pipe_chain)
      (use assms p in \<open>auto simp: blank_space opaque_pipe_stage proper_pipeline_def list_all_iff intro: tight_stage\<close>)
qed

lemma exec_pipeline:
  assumes "proper_pipeline p"
  shows "exec (Suc fuel) h (write_pipeline p) s =
    run_stages (exec fuel h) h (map write_stage p) [] (CommandResult [] 0) s"
proof -
  note single = single_pipeline [OF assms]
  show ?thesis
    by (cases "run_stages (exec fuel h) h (map write_stage p) [] (CommandResult [] 0) s";
        cases "fst (run_stages (exec fuel h) h (map write_stage p) [] (CommandResult [] 0) s)")
      (auto simp: execute_def single execute_conditionals_def execute_pipeline_def Let_def)
qed

subsection \<open>Programs\<close>

text \<open>
  A reference interpreter on the syntax tree of a line.  A statement is the left-associated tree of its
  pipelines; statements run in order; each result carries the outputs of its parts.
\<close>

definition eval_pipeline ::
  "(string \<Rightarrow> shell \<Rightarrow> command_result run) \<Rightarrow> host \<Rightarrow> pipeline \<Rightarrow> shell \<Rightarrow> command_result run" where
  "eval_pipeline rec h p s = run_stages rec h (map write_stage p) [] (CommandResult [] 0) s"

fun cond_from :: "'a cond \<Rightarrow> (string \<times> 'a) list \<Rightarrow> 'a cond" where
  "cond_from t [] = t"
| "cond_from t ((op, c) # items) = cond_from (if op = ''&&'' then AndThen t c else OrElse t c) items"

definition statement_cond :: "statement \<Rightarrow> pipeline cond" where
  "statement_cond st = cond_from (Single (snd (hd st))) (tl st)"

fun eval_program ::
  "(string \<Rightarrow> shell \<Rightarrow> command_result run) \<Rightarrow> host \<Rightarrow> statement list \<Rightarrow> string list \<Rightarrow> command_result \<Rightarrow>
   shell \<Rightarrow> command_result run" where
  "eval_program rec h [] outputs r s = (Inr (joined outputs r), s)"
| "eval_program rec h (st # sts) outputs r s =
     (case eval_cond (eval_pipeline rec h) (statement_cond st) s of
        (Inl e, s') \<Rightarrow> (Inl e, s')
      | (Inr (inner, r'), s') \<Rightarrow>
          (let r' = joined inner r' in
           if cr_exit_session r' then (Inr (joined (collect outputs r') r'), s')
           else eval_program rec h sts (collect outputs r') r' s'))"

lemma cond_from_segments:
  "\<forall>(op, c) \<in> set items. op = ''&&'' \<or> op = ''||'' \<Longrightarrow>
   cond_segments f (cond_from t items) =
     cond_segments f t @ map (\<lambda>(op, c). \<lparr>seg_command = f c, seg_operator = op\<rparr>) items"
  by (induction t items rule: cond_from.induct) auto

lemma eval_cond_cong:
  "(\<And>c s. c \<in> set_cond t \<Longrightarrow> f c s = g c s) \<Longrightarrow> eval_cond f t s = eval_cond g t s"
  by (induction t arbitrary: s) (auto simp: then_run_def split: prod.split sum.split)

lemma set_cond_from: "set_cond (cond_from t items) = set_cond t \<union> snd ` set items"
  by (induction t items rule: cond_from.induct) auto

lemma run_statement:
  assumes "proper_statement st"
  shows "execute_conditionals rec h (write_statement st) s =
    (case eval_cond (eval_pipeline rec h) (statement_cond st) s of
       (Inl e, s') \<Rightarrow> (Inl e, s') | (Inr (inner, r), s') \<Rightarrow> (Inr (joined inner r), s'))"
proof -
  obtain p items where st: "st = ([], p) # items" "proper_pipeline p"
    "\<forall>(op, q) \<in> set items. (op = ''&&'' \<or> op = ''||'') \<and> proper_pipeline q"
    using assms by (rule proper_statement_parts)
  have ops: "\<forall>(op, c) \<in> set items. op = ''&&'' \<or> op = ''||''" using st(3) by auto
  have segs: "split_conditionals (write_statement st) = cond_segments write_pipeline (statement_cond st)"
    unfolding split_statement [OF assms] statement_cond_def
    using cond_from_segments [OF ops, of write_pipeline "Single p"] by (simp add: st(1))
  have "eval_cond (\<lambda>c. execute_pipeline rec h (write_pipeline c)) (statement_cond st) s =
      eval_cond (eval_pipeline rec h) (statement_cond st) s"
  proof (rule eval_cond_cong)
    fix c s assume "c \<in> set_cond (statement_cond st)"
    then have "proper_pipeline c" using st by (auto simp: statement_cond_def set_cond_from)
    from single_pipeline(5) [OF this] show "execute_pipeline rec h (write_pipeline c) s = eval_pipeline rec h c s"
      by (simp add: execute_pipeline_def eval_pipeline_def)
  qed
  then show ?thesis unfolding execute_conditionals_def segs conditionals_left_assoc by simp
qed

lemma run_program:
  "list_all proper_statement prog \<Longrightarrow>
   run_statements rec h (map write_statement prog) outputs r s = eval_program rec h prog outputs r s"
  by (induction prog arbitrary: outputs r s) (auto simp: run_statement Let_def split: prod.split sum.split)

text \<open>
  C10. What is typed runs as a program.  For every program over statements, \<^verbatim>\<open>&&\<close>, \<^verbatim>\<open>||\<close>, pipelines and
  words, bare or quoted, executing its text is evaluating its tree: statements in order, conditionals
  by the status of everything to their left, stages fed with the output of the stage before; outputs
  are joined in order, the last result gives the status, \<^verbatim>\<open>exit\<close> ends the line and an exception leaves it.
\<close>

theorem program_semantics:
  assumes "prog \<noteq> []" and "list_all proper_statement prog"
  shows "exec (Suc fuel) h (write_program prog) s =
    eval_program (exec fuel h) h prog [] (CommandResult [] 0) s"
proof -
  have t: "tight (write_program prog)" using split_program(2) [OF assms] .
  have "strip_ws (write_program prog) = write_program prog" "write_program prog \<noteq> []"
    using strip_tight [OF t, of "[]" "[]"] t by (simp_all add: blank_space tight_def)
  then show ?thesis
    using assms(2) by (simp add: execute_def split_program(1) [OF assms] run_program)
qed

theorem program_semantics_witness:
  "let prog = [[([], [[Bare ''cd'', Quoted ''/x y'']]), (''||'', [[Bare ''echo'', Quoted ''a; b''], [Bare ''cat'']])],
     [([], [[Bare ''pwd'']])]]
   in write_program prog = ''cd '' @ [squote] @ ''/x y'' @ [squote] @ '' || echo '' @ [squote] @ ''a; b'' @ [squote] @ '' | cat; pwd'' \<and>
      exec 3 quiet_host (write_program prog) tiny_shell =
        eval_program (exec 2 quiet_host) quiet_host prog [] (CommandResult [] 0) tiny_shell"
proof -
  let ?prog = "[[([], [[Bare ''cd'', Quoted ''/x y'']]), (''||'', [[Bare ''echo'', Quoted ''a; b''], [Bare ''cat'']])],
     [([], [[Bare ''pwd'']])]]"
  have "list_all proper_statement ?prog"
    by (simp add: proper_statement_def proper_pipeline_def bare_char_def is_space_def ord_def)
  from program_semantics [OF _ this, of 2 quiet_host tiny_shell]
  have "exec 3 quiet_host (write_program ?prog) tiny_shell =
        eval_program (exec 2 quiet_host) quiet_host ?prog [] (CommandResult [] 0) tiny_shell"
    by (simp add: numeral_3_eq_3 numeral_2_eq_2)
  moreover have "write_program ?prog = ''cd '' @ [squote] @ ''/x y'' @ [squote] @ '' || echo '' @ [squote] @ ''a; b'' @ [squote] @ '' | cat; pwd''"
    by code_simp
  ultimately show ?thesis unfolding Let_def by blast
qed

subsection \<open>Commands\<close>

text \<open>Words that the redirection parser passes over; it does not see quotes.\<close>

definition plain_token :: "string \<Rightarrow> bool" where
  "plain_token t \<longleftrightarrow> t \<notin> {''>'', ''>>''} \<and> \<not> startswith t ''2>'' \<and> t \<notin> set STDERR_REDIRECTS"

lemma parse_plain:
  "list_all plain_token ts \<Longrightarrow> parse_redirection_from command path app (ts @ rest) =
     parse_redirection_from (command @ ts) path app rest"
  by (induction ts arbitrary: command) (auto simp: plain_token_def startswith_def)

lemma plain_names: "list_all plain_token [''echo'', ''cat'']"
  by code_simp

lemma command_names:
  "strip_system_prefix ''cat'' = ''cat''" "strip_system_prefix ''echo'' = ''echo''"
  "is_explicit_path ''cat'' = False" "is_explicit_path ''echo'' = False"
  "(''cat'' \<in> set SHELL_WRAPPERS) = False" "(''echo'' \<in> set SHELL_WRAPPERS) = False"
  by (code_simp)+

lemma dispatch_cat:
  "dispatch rec h (''cat'' # args) stripped stdin depth s = with_path (handler_path ''cat'') (cmd_cat args stdin s)"
  by (simp add: dispatch_def command_names handler_def)

lemma dispatch_echo:
  "dispatch rec h (''echo'' # args) stripped stdin depth s = with_path (handler_path ''echo'') (cmd_echo args s)"
  by (simp add: dispatch_def command_names handler_def)

definition echoed :: "string \<Rightarrow> shell \<Rightarrow> string" where
  "echoed w s = replace ''$?'' (str_int (sh_last_exit_code s)) w @ [nl]"

lemma cmd_echo_word: "w \<noteq> ''-n'' \<Longrightarrow> cmd_echo [w] s = (Inr (CommandResult (echoed w s) 0), s)"
  by (simp add: cmd_echo_def echoed_def)

abbreviation stage_start :: "shell \<Rightarrow> shell" where
  "stage_start s \<equiv> s\<lparr>sh_captured_artifacts := [], sh_command_extra := []\<rparr>"

lemma stage_lexed:
  assumes "ws \<noteq> []" and "list_all proper_word ws"
  shows "strip_ws (write_stage ws) = write_stage ws" "write_stage ws \<noteq> []"
    "shlex_split (write_stage ws) = Inr (map word_value ws)"
proof -
  have t: "tight (write_stage ws)" using assms by (rule tight_stage)
  show "strip_ws (write_stage ws) = write_stage ws" using strip_tight [OF t, of "[]" "[]"] by (simp add: blank_space)
  show "write_stage ws \<noteq> []" using t by (simp add: tight_def)
  show "shlex_split (write_stage ws) = Inr (map word_value ws)" using assms by (rule shlex_words)
qed

text \<open>The state that a command without redirection leaves, apart from its own changes.\<close>

lemma echo_stage:
  assumes "proper_word x" and "word_value x \<noteq> ''-n''" and "plain_token (word_value x)"
  shows "\<exists>s'. execute_single_command rec h (write_stage [Bare ''echo'', x]) stdin s =
      (Inr ((CommandResult (echoed (word_value x) s) 0)\<lparr>cr_path := handler_path ''echo''\<rparr>), s') \<and>
    sh_vfs s' = sh_vfs s \<and> sh_cwd s' = sh_cwd s"
proof -
  let ?ws = "[Bare ''echo'', x]"
  have "list_all proper_word ?ws" using assms(1) by (simp add: bare_char_def is_space_def ord_def)
  from stage_lexed [OF _ this] have lx: "strip_ws (write_stage ?ws) = write_stage ?ws" "write_stage ?ws \<noteq> []"
    "shlex_split (write_stage ?ws) = Inr [''echo'', word_value x]" by simp_all
  have pr: "parse_redirection [''echo'', word_value x] = Inr ([''echo'', word_value x], None, False)"
    using parse_plain [of "[''echo'', word_value x]" "[]" None False "[]"] assms(3) plain_names
    by (simp add: parse_redirection_def)
  have "echoed (word_value x) (stage_start s) = echoed (word_value x) s" by (simp add: echoed_def)
  then show ?thesis
    using assms(2)
    by (auto simp: execute_single_command_def lx command_body_def pr dispatch_echo cmd_echo_word with_path_def
        log_command_def tick_def)
qed

lemma cat_stage:
  assumes "proper_word y" and "plain_token (word_value y)" and "read_file (sh_vfs s) (word_value y) (sh_cwd s) = Inr t"
  shows "\<exists>s'. execute_single_command rec h (write_stage [Bare ''cat'', y]) stdin s =
      (Inr ((CommandResult t 0)\<lparr>cr_path := handler_path ''cat''\<rparr>), s') \<and>
    sh_vfs s' = sh_vfs s \<and> sh_cwd s' = sh_cwd s"
proof -
  let ?ws = "[Bare ''cat'', y]"
  have "list_all proper_word ?ws" using assms(1) by (simp add: bare_char_def is_space_def ord_def)
  from stage_lexed [OF _ this] have lx: "strip_ws (write_stage ?ws) = write_stage ?ws" "write_stage ?ws \<noteq> []"
    "shlex_split (write_stage ?ws) = Inr [''cat'', word_value y]" by simp_all
  have pr: "parse_redirection [''cat'', word_value y] = Inr ([''cat'', word_value y], None, False)"
    using parse_plain [of "[''cat'', word_value y]" "[]" None False "[]"] assms(2) plain_names
    by (simp add: parse_redirection_def)
  show ?thesis
    using assms(3)
    by (simp add: execute_single_command_def lx command_body_def pr dispatch_cat cmd_cat_def with_path_def
        log_command_def tick_def)
qed

lemma redirect_stage:
  assumes "proper_word x" and "word_value x \<noteq> ''-n''" and "plain_token (word_value x)" and "proper_word y"
    and "write_file (word_value y) (echoed (word_value x) s) (sh_cwd s) app (h_now h (sh_tick s)) (sh_vfs s) = (Inr (), v)"
  shows "\<exists>s'. execute_single_command rec h
      (write_stage [Bare ''echo'', x, Bare (if app then ''>>'' else ''>''), y]) stdin s =
      (Inr ((CommandResult [] 0)\<lparr>cr_path := handler_path ''echo''\<rparr>), s') \<and>
    sh_vfs s' = v \<and> sh_cwd s' = sh_cwd s"
proof -
  let ?op = "if app then ''>>'' else ''>''"
  let ?ws = "[Bare ''echo'', x, Bare ?op, y]"
  let ?w = "word_value x" and ?f = "word_value y"
  have "list_all proper_word ?ws" using assms(1,4) by (simp add: bare_char_def is_space_def ord_def)
  from stage_lexed [OF _ this] have lx: "strip_ws (write_stage ?ws) = write_stage ?ws" "write_stage ?ws \<noteq> []"
    "shlex_split (write_stage ?ws) = Inr [''echo'', ?w, ?op, ?f]" by simp_all
  have "''>'' \<notin> set STDERR_REDIRECTS" "''>>'' \<notin> set STDERR_REDIRECTS" by code_simp+
  then have pr: "parse_redirection [''echo'', ?w, ?op, ?f] = Inr ([''echo'', ?w], Some ?f, app)"
    using parse_plain [of "[''echo'', ?w]" "[]" None False "[?op, ?f]"] assms(3) plain_names
    by (simp add: parse_redirection_def startswith_def)
  have "\<not> is_infinite_cat [''echo'', ?w] s" for s by (simp add: is_infinite_cat_def rsplit_last_def)
  moreover have "echoed ?w (stage_start s) = echoed ?w s" by (simp add: echoed_def)
  ultimately show ?thesis
    using assms(2,5)
    by (simp add: execute_single_command_def lx(1,2) command_body_def lx(3) pr dispatch_echo cmd_echo_word with_path_def
        apply_redirection_def vfs_call_def log_command_def tick_def CommandResult_def)
qed

lemma one_stage: "write_stage ws = write_pipeline [ws]"
  by (simp add: write_pipeline_def)

lemma exec_stage:
  assumes "ws \<noteq> []" and "list_all proper_word ws" and "0 < fuel"
    and "\<And>rec. \<exists>s'. execute_single_command rec h (write_stage ws) [] s = (Inr r, s') \<and> P s'"
  shows "\<exists>s'. exec fuel h (write_stage ws) s = (Inr r, s') \<and> P s'"
proof -
  obtain n where n: "fuel = Suc n" using assms(3) by (cases fuel) auto
  have "proper_pipeline [ws]" using assms(1,2) by (simp add: proper_pipeline_def)
  from exec_pipeline [OF this, of n h s] assms(4) [of "exec n h"] show ?thesis
    by (auto simp: n one_stage)
qed

subsection \<open>Properties\<close>

text \<open>
  C12. From the text that is typed to the filesystem and back: for every word \<^verbatim>\<open>x\<close> and file name \<^verbatim>\<open>y\<close>, bare
  or quoted, that are not themselves redirections, if the file is a plain one and the quotas accept
  the write, the line \<^verbatim>\<open>echo x > y\<close> (or \<^verbatim>\<open>>>\<close>) succeeds and prints nothing, and the line \<^verbatim>\<open>cat y\<close> after it
  succeeds and prints, after the previous contents for \<^verbatim>\<open>>>\<close>, the word with \<^verbatim>\<open>$?\<close> expanded and a
  line end.
\<close>

theorem shell_file_roundtrip:
  assumes "proper_word x" and "plain_token (word_value x)" and "word_value x \<noteq> ''-n''"
    and "proper_word y" and "plain_token (word_value y)" and "0 < fuel"
    and "plain_target (sh_vfs s) (word_value y) (sh_cwd s)"
    and "write_file (word_value y) (echoed (word_value x) s) (sh_cwd s) app (h_now h (sh_tick s)) (sh_vfs s) = (Inr (), v)"
  shows "\<exists>r1 s1 r2 s2.
    exec fuel h (write_stage [Bare ''echo'', x, Bare (if app then ''>>'' else ''>''), y]) s = (Inr r1, s1) \<and>
    cr_output r1 = [] \<and> cr_exit_code r1 = 0 \<and>
    exec fuel h (write_stage [Bare ''cat'', y]) s1 = (Inr r2, s2) \<and> cr_exit_code r2 = 0 \<and>
    cr_output r2 = (if app then old_content (sh_vfs s) (location (sh_vfs s) (word_value y) (sh_cwd s)) else []) @
      echoed (word_value x) s"
proof -
  let ?t = "(if app then old_content (sh_vfs s) (location (sh_vfs s) (word_value y) (sh_cwd s)) else []) @
      echoed (word_value x) s"
  have names: "list_all proper_word [Bare ''echo'', Bare ''cat'', Bare ''>'', Bare ''>>'']"
    by (simp add: bare_char_def is_space_def ord_def)
  have "\<exists>s1. exec fuel h (write_stage [Bare ''echo'', x, Bare (if app then ''>>'' else ''>''), y]) s =
      (Inr ((CommandResult [] 0)\<lparr>cr_path := handler_path ''echo''\<rparr>), s1) \<and> sh_vfs s1 = v \<and> sh_cwd s1 = sh_cwd s"
    by (rule exec_stage [OF _ _ assms(6) redirect_stage [OF assms(1,3,2,4,8)]]) (use assms(1,4) names in auto)
  then obtain s1 where s1: "exec fuel h (write_stage [Bare ''echo'', x, Bare (if app then ''>>'' else ''>''), y]) s =
      (Inr ((CommandResult [] 0)\<lparr>cr_path := handler_path ''echo''\<rparr>), s1)" "sh_vfs s1 = v" "sh_cwd s1 = sh_cwd s"
    by blast
  have "read_file v (word_value y) (sh_cwd s) = Inr ?t"
    using write_file_reads [OF assms(8,7)] by (auto simp: reads_def)
  then have "\<exists>s2. exec fuel h (write_stage [Bare ''cat'', y]) s1 =
      (Inr ((CommandResult ?t 0)\<lparr>cr_path := handler_path ''cat''\<rparr>), s2) \<and> sh_vfs s2 = sh_vfs s1 \<and> sh_cwd s2 = sh_cwd s1"
    by (intro exec_stage cat_stage) (use assms(4,5,6) names s1 in auto)
  with s1(1) show ?thesis by (fastforce simp: CommandResult_def)
qed

theorem shell_file_roundtrip_witness:
  "\<exists>r1 s1 r2 s2. exec 1 quiet_host ''echo 'rm; $? 2' >> a'' tiny_shell = (Inr r1, s1) \<and> cr_output r1 = [] \<and>
     exec 1 quiet_host ''cat a'' s1 = (Inr r2, s2) \<and> cr_output r2 = ''onerm; 0 2'' @ [nl]"
proof -
  let ?x = "Quoted ''rm; $? 2''" and ?y = "Bare ''a''"
  have t: "sh_vfs tiny_shell = tiny_vfs" "sh_cwd tiny_shell = ''/tmp''" "sh_tick tiny_shell = 0" "sh_last_exit_code tiny_shell = 0"
    by (simp_all add: tiny_shell_def Shell_def Let_def)
  moreover have "replace ''$?'' (str_int 0) ''rm; $? 2'' = ''rm; 0 2''" by code_simp
  ultimately have e: "echoed (word_value ?x) tiny_shell = ''rm; 0 2'' @ [nl]" by (simp add: echoed_def)
  have w: "write_file ''a'' (''rm; 0 2'' @ [nl]) ''/tmp'' True 0 tiny_vfs =
      (Inr (), snd (write_file ''a'' (''rm; 0 2'' @ [nl]) ''/tmp'' True 0 tiny_vfs))"
    and p: "plain_target tiny_vfs ''a'' ''/tmp''"
    and o: "old_content tiny_vfs (location tiny_vfs ''a'' ''/tmp'') = ''one''"
    and l: "write_stage [Bare ''echo'', ?x, Bare ''>>'', ?y] = ''echo 'rm; $? 2' >> a''"
      "write_stage [Bare ''cat'', ?y] = ''cat a''"
    and g: "proper_word ?x \<and> plain_token (word_value ?x) \<and> word_value ?x \<noteq> ''-n'' \<and> proper_word ?y \<and> plain_token (word_value ?y)"
    by code_simp+
  show ?thesis
    using shell_file_roundtrip [of ?x ?y 1 tiny_shell True quiet_host
        "snd (write_file ''a'' (''rm; 0 2'' @ [nl]) ''/tmp'' True 0 tiny_vfs)"] g w p o t e l
    by (auto simp: quiet_host_def)
qed

text \<open>
  C20. A listing shows the directory: \<^verbatim>\<open>ls\<close> of a path that is a directory prints exactly the names that
  exist below it, without those that start with a dot, each once and in order, and changes nothing.
\<close>

theorem ls_lists_view:
  fixes s path
  defines "v \<equiv> sh_vfs s" and "here \<equiv> location (sh_vfs s) path (sh_cwd s)"
  assumes "vfs_inv v" and "view (vfs_root v) here = Some (EDir md)" and "\<not> is_option path"
  shows "\<exists>names. cmd_ls h [path] s = (Inr (CommandResult (join ''  '' names) 0), s) \<and> sorted names \<and> distinct names \<and>
    set names = {nm. view (vfs_root v) (here @ [nm]) \<noteq> None \<and> \<not> startswith nm ''.''}"
proof -
  obtain m ch where l: "lookup (vfs_root v) here = Some (VFSDirectory m ch)"
    using assms(4) unfolding view_def
    by (cases "lookup (vfs_root v) here"; cases "the (lookup (vfs_root v) here)") auto
  then have r: "resolve v path (sh_cwd s) = Inr (VFSDirectory m ch)"
    unfolding v_def here_def by (simp add: resolve_Inr)
  have d: "distinct (map fst ch)"
    using wf_lookup [OF _ l] assms(3) by (simp add: vfs_inv_def)
  let ?visible = "filter (\<lambda>(nm, child). \<not> startswith nm ''.'') ch"
  let ?names = "map fst (sort_key fst ?visible)"
  have "cmd_ls h [path] s = (Inr (CommandResult (join ''  '' ?names) 0), s)"
    using r assms(5) by (simp add: cmd_ls_def v_def format_ls_dir_def ls_entries_def)
  moreover have "sorted ?names" by (rule sorted_sort_key)
  moreover have "distinct ?names"
  proof -
    have "distinct (map fst ?visible)" using d by (rule distinct_map_filter)
    then show ?thesis by (simp add: distinct_map)
  qed
  moreover have "set ?names = {nm. map_of ch nm \<noteq> None \<and> \<not> startswith nm ''.''}"
    by (force simp: map_of_eq_None_iff)
  moreover have "view (vfs_root v) (here @ [nm]) \<noteq> None \<longleftrightarrow> map_of ch nm \<noteq> None" for nm
    using l by (simp add: view_None_iff lookup_snoc)
  ultimately show ?thesis by (intro exI [of _ ?names]) auto
qed

theorem ls_lists_view_witness:
  "\<exists>names. cmd_ls quiet_host [''/tmp''] tiny_shell = (Inr (CommandResult (join ''  '' names) 0), tiny_shell) \<and>
     set names = {nm. view (vfs_root tiny_vfs) [''tmp'', nm] \<noteq> None \<and> \<not> startswith nm ''.''}"
proof -
  have t: "sh_vfs tiny_shell = tiny_vfs" "sh_cwd tiny_shell = ''/tmp''"
    by (simp_all add: tiny_shell_def Shell_def Let_def)
  have "location tiny_vfs ''/tmp'' ''/tmp'' = [''tmp'']" "view (vfs_root tiny_vfs) [''tmp''] = Some (EDir 0x1FF)"
    "\<not> is_option ''/tmp''"
    by code_simp+
  with ls_lists_view [of tiny_shell "''/tmp''" "0x1FF" quiet_host] t tiny_inv show ?thesis by auto
qed

end
