(* ===== verification/Ordered_Dict.thy ===== *)
theory Ordered_Dict
  imports Prelude
begin

text \<open>
  Python's \<^verbatim>\<open>OrderedDict\<close> as the two managers use it (\<^verbatim>\<open>src/auth.py\<close> and
  \<^verbatim>\<open>src/session_manager.py\<close>): an association list from the least to the most recently used
  key, with \<^verbatim>\<open>move_to_end\<close>, the eviction loop over \<^verbatim>\<open>popitem(last=False)\<close> and the purge of
  entries whose \<^verbatim>\<open>last_seen\<close> is too old.  Clock readings are integers (ticks).  The locale
  \<^verbatim>\<open>stamped\<close> is the interface of the records stored: a time stamp that can be read and set;
  inside it the bounded recency cache is proved once for the password pins, the attempt counters
  and the sessions.
\<close>

subsection \<open>Definitions\<close>

definition move_to_end :: "'k \<Rightarrow> ('k \<times> 'v) list \<Rightarrow> ('k \<times> 'v) list" where
  "move_to_end k d =
     (case map_of d k of None \<Rightarrow> d | Some v \<Rightarrow> AList.delete k d @ [(k, v)])"

text \<open>
  \<^verbatim>\<open>while len(d) >= cap: d.popitem(last=False)\<close>.  Popping an empty dictionary would raise
  \<^verbatim>\<open>KeyError\<close>; the constructors of both managers reject a capacity below one, and then the
  guard is false on the empty dictionary.
\<close>

fun evict :: "int \<Rightarrow> ('k \<times> 'v) list \<Rightarrow> ('k \<times> 'v) list" where
  "evict cap [] = []"
| "evict cap (p # d) = (if int (length (p # d)) \<ge> cap then evict cap d else p # d)"

text \<open>
  \<^verbatim>\<open>expired = [key for key, r in d.items() if now - r.last_seen > ttl]\<close>, then deletion of those keys.
\<close>

definition purge :: "('v \<Rightarrow> int) \<Rightarrow> int \<Rightarrow> int \<Rightarrow> ('k \<times> 'v) list \<Rightarrow> ('k \<times> 'v) list" where
  "purge seen ttl now d =
     (let expired = map fst (filter (\<lambda>p. now - seen (snd p) > ttl) d)
      in fold AList.delete expired d)"

subsection \<open>Generic lemmas\<close>

lemma fold_delete: "fold AList.delete ks d = filter (\<lambda>p. fst p \<notin> set ks) d"
proof (induction ks arbitrary: d)
  case (Cons k ks)
  then show ?case by (auto simp: AList.delete_eq intro!: filter_cong)
qed simp

lemma purge_eq:
  assumes "distinct (map fst d)"
  shows "purge seen ttl now d = filter (\<lambda>p. now - seen (snd p) \<le> ttl) d"
proof -
  have "fst p \<notin> set (map fst (filter (\<lambda>p. now - seen (snd p) > ttl) d)) \<longleftrightarrow>
      now - seen (snd p) \<le> ttl" if "p \<in> set d" for p
    using that assms by (auto simp: not_le) (metis eq_key_imp_eq_value prod.collapse not_le)
  then show ?thesis
    unfolding purge_def Let_def fold_delete by (rule filter_cong [OF refl])
qed

lemma distinct_purge: "distinct (map fst d) \<Longrightarrow> distinct (map fst (purge seen ttl now d))"
  by (simp add: purge_def Let_def fold_delete distinct_map_filter)

lemma length_purge_le: "length (purge seen ttl now d) \<le> length d"
  by (simp add: purge_def Let_def fold_delete)

lemma set_purge: "set (purge seen ttl now d) \<subseteq> set d"
  by (auto simp: purge_def Let_def fold_delete)

lemma map_of_filter_distinct:
  "distinct (map fst d) \<Longrightarrow> map_of (filter P d) k =
    (case map_of d k of None \<Rightarrow> None | Some v \<Rightarrow> if P (k, v) then Some v else None)"
  by (induction d) (auto split: option.splits simp: map_of_eq_None_iff)

lemma map_of_purge:
  "distinct (map fst d) \<Longrightarrow> map_of (purge seen ttl now d) k =
    (case map_of d k of None \<Rightarrow> None | Some v \<Rightarrow> if now - seen v \<le> ttl then Some v else None)"
  by (simp add: purge_eq map_of_filter_distinct split: option.split)

lemma evict_suffix: "suffix (evict cap d) d"
  by (induction d) (auto intro: suffix_ConsI)

lemma evict_drop: "1 \<le> cap \<Longrightarrow> evict cap d = drop (length d - nat (cap - 1)) d"
proof (induction d)
  case (Cons p d)
  then show ?case by (cases "int (length (p # d)) \<ge> cap") (auto simp: Suc_diff_le nat_le_iff)
qed simp

lemma length_evict: "1 \<le> cap \<Longrightarrow> int (length (evict cap d)) < cap"
  by (simp add: evict_drop)

lemma evict_id: "int (length d) < cap \<Longrightarrow> evict cap d = d"
  by (cases d) auto

lemma distinct_suffix_keys: "suffix e d \<Longrightarrow> distinct (map fst d) \<Longrightarrow> distinct (map fst e)"
  by (auto simp: suffix_def)

lemma keys_move_to_end: "set (map fst (move_to_end k d)) = set (map fst d)"
  by (auto simp: move_to_end_def AList.delete_eq split: option.splits dest: map_of_SomeD)
    (metis (no_types, lifting) image_eqI fst_conv map_of_SomeD)

lemma distinct_move_to_end: "distinct (map fst d) \<Longrightarrow> distinct (map fst (move_to_end k d))"
  by (auto simp: move_to_end_def AList.delete_eq distinct_map_filter split: option.splits)

lemma map_of_move_to_end: "distinct (map fst d) \<Longrightarrow> map_of (move_to_end k d) = map_of d"
  by (auto simp: move_to_end_def fun_eq_iff map_add_def split: option.splits)

lemma length_move_to_end: "distinct (map fst d) \<Longrightarrow> length (move_to_end k d) = length d"
  by (metis distinct_card distinct_move_to_end keys_move_to_end length_map)

lemma length_update_present:
  "map_of d k \<noteq> None \<Longrightarrow> length (AList.update k v d) = length d"
  by (metis keys_update_present length_map)

lemma set_move_to_end: "distinct (map fst d) \<Longrightarrow> set (move_to_end k d) = set d"
  by (auto simp: move_to_end_def AList.delete_eq split: option.splits dest: map_of_SomeD)
    (metis eq_key_imp_eq_value map_of_SomeD)

subsection \<open>Bounded recency caches\<close>

definition cache_ok :: "int \<Rightarrow> ('k \<times> 'v) list \<Rightarrow> bool" where
  "cache_ok cap d \<longleftrightarrow> distinct (map fst d) \<and> int (length d) \<le> cap"

text \<open>\<^verbatim>\<open>record.last_seen = now; d.move_to_end(key)\<close> on a present key.\<close>

definition refresh :: "(int \<Rightarrow> 'v \<Rightarrow> 'v) \<Rightarrow> int \<Rightarrow> 'k \<Rightarrow> ('k \<times> 'v) list \<Rightarrow> ('k \<times> 'v) list" where
  "refresh stamp now k d =
     (case map_of d k of
        None \<Rightarrow> d
      | Some v \<Rightarrow> move_to_end k (AList.update k (stamp now v) d))"

text \<open>The eviction loop followed by \<^verbatim>\<open>d[key] = record\<close>.\<close>

definition insert_new :: "int \<Rightarrow> 'k \<Rightarrow> 'v \<Rightarrow> ('k \<times> 'v) list \<Rightarrow> ('k \<times> 'v) list" where
  "insert_new cap k v d = AList.update k v (evict cap d)"

lemma cache_ok_Nil [simp]: "0 \<le> cap \<Longrightarrow> cache_ok cap []"
  by (simp add: cache_ok_def)

lemma cache_ok_purge: "cache_ok cap d \<Longrightarrow> cache_ok cap (purge seen ttl now d)"
  using length_purge_le [of seen ttl now d] by (auto simp: cache_ok_def distinct_purge)

lemma cache_ok_delete: "cache_ok cap d \<Longrightarrow> cache_ok cap (AList.delete k d)"
  using length_delete_le [of k d] by (auto simp: cache_ok_def distinct_keys_delete)

lemma cache_ok_update: "cache_ok cap d \<Longrightarrow> map_of d k \<noteq> None \<Longrightarrow> cache_ok cap (AList.update k v d)"
  by (simp add: cache_ok_def keys_update_present length_update_present)

lemma cache_ok_move: "cache_ok cap d \<Longrightarrow> cache_ok cap (move_to_end k d)"
  by (simp add: cache_ok_def distinct_move_to_end length_move_to_end)

lemma cache_ok_refresh: "cache_ok cap d \<Longrightarrow> cache_ok cap (refresh stamp now k d)"
  by (simp add: refresh_def cache_ok_move cache_ok_update split: option.splits)

lemma cache_ok_insert:
  assumes "1 \<le> cap" and "cache_ok cap d" and "map_of d k = None"
  shows "cache_ok cap (insert_new cap k v d)"
proof -
  have "map_of (evict cap d) k = None"
    using assms(3) set_mono_suffix [OF evict_suffix [of cap d]] by (auto simp: map_of_eq_None_iff)
  moreover have "distinct (map fst (evict cap d))"
    using assms(2) evict_suffix [of cap d] by (auto simp: cache_ok_def intro: distinct_suffix_keys)
  ultimately show ?thesis
    using length_evict [OF assms(1), of d]
    by (auto simp: insert_new_def cache_ok_def keys_update_absent map_of_eq_None_iff)
qed

lemma map_of_insert_new:
  "map_of (insert_new cap k v d) j = (if j = k then Some v else map_of (evict cap d) j)"
  by (simp add: insert_new_def)

lemma last_insert_new:
  assumes "map_of d k = None"
  shows "last (insert_new cap k v d) = (k, v)"
proof -
  have "k \<notin> fst ` set (evict cap d)"
    using assms set_mono_suffix [OF evict_suffix [of cap d]] by (auto simp: map_of_eq_None_iff)
  then show ?thesis by (simp add: insert_new_def keys_update_absent map_of_eq_None_iff)
qed

lemma map_of_refresh:
  "distinct (map fst d) \<Longrightarrow>
    map_of (refresh stamp now k d) j =
      (if j = k then map_option (stamp now) (map_of d k) else map_of d j)"
  by (auto simp: refresh_def map_of_move_to_end distinct_keys_update split: option.splits)

lemma map_of_evict_cases:
  "distinct (map fst d) \<Longrightarrow> map_of (evict cap d) j = None \<or> map_of (evict cap d) j = map_of d j"
proof -
  assume d: "distinct (map fst d)"
  obtain e where e: "d = e @ evict cap d" using evict_suffix [of cap d] by (auto simp: suffix_def)
  have "map_of (evict cap d) j = Some v \<Longrightarrow> map_of (e @ evict cap d) j = Some v" for v
    using d e by (metis Un_iff map_of_SomeD map_of_is_SomeI set_append)
  then show ?thesis using e by (cases "map_of (evict cap d) j") auto
qed

text \<open>The most recently used key is the last one.\<close>

lemma last_refresh: "map_of d k = Some v \<Longrightarrow> last (refresh stamp now k d) = (k, stamp now v)"
  by (simp add: refresh_def move_to_end_def)

subsection \<open>Properties of all stored records\<close>

definition all_values :: "('v \<Rightarrow> bool) \<Rightarrow> ('k \<times> 'v) list \<Rightarrow> bool" where
  "all_values P d \<longleftrightarrow> list_all (\<lambda>(k, v). P v) d"

lemma all_values_subset: "all_values P d \<Longrightarrow> set e \<subseteq> set d \<Longrightarrow> all_values P e"
  by (auto simp: all_values_def list_all_iff)

lemma all_values_Nil [simp]: "all_values P []"
  by (simp add: all_values_def)

lemma all_values_lookup: "all_values P d \<Longrightarrow> map_of d k = Some v \<Longrightarrow> P v"
  by (auto simp: all_values_def list_all_iff dest: map_of_SomeD)

lemma all_values_purge: "all_values P d \<Longrightarrow> all_values P (purge seen ttl now d)"
  by (erule all_values_subset) (rule set_purge)

lemma all_values_delete: "all_values P d \<Longrightarrow> all_values P (AList.delete k d)"
  by (erule all_values_subset) (auto simp: AList.delete_eq)

lemma all_values_update: "all_values P d \<Longrightarrow> P v \<Longrightarrow> all_values P (AList.update k v d)"
  by (induction d) (auto simp: all_values_def)

lemma all_values_evict: "all_values P d \<Longrightarrow> all_values P (evict cap d)"
  by (erule all_values_subset) (rule set_mono_suffix [OF evict_suffix])

lemma all_values_insert: "all_values P d \<Longrightarrow> P v \<Longrightarrow> all_values P (insert_new cap k v d)"
  by (simp add: insert_new_def all_values_update all_values_evict)

lemma all_values_move: "all_values P d \<Longrightarrow> all_values P (move_to_end k d)"
  by (auto simp: move_to_end_def all_values_lookup intro: all_values_delete split: option.split)
    (simp add: all_values_def list_all_iff AList.delete_eq, metis all_values_def list_all_iff map_of_SomeD case_prodD)

lemma all_values_refresh:
  "all_values P d \<Longrightarrow> (\<And>v. P v \<Longrightarrow> P (stamp now v)) \<Longrightarrow> all_values P (refresh stamp now k d)"
  by (auto simp: refresh_def split: option.split
      intro!: all_values_move all_values_update dest: all_values_lookup)

lemmas all_values_intros = all_values_purge all_values_delete all_values_update all_values_insert
  all_values_move all_values_refresh

subsection \<open>Recency\<close>

text \<open>
  \<^verbatim>\<open>recent S k v d\<close>: the dictionary stores \<^verbatim>\<open>v\<close> under \<^verbatim>\<open>k\<close>, and every entry used after it has a
  key in \<^verbatim>\<open>S\<close>.  This is what protects an entry from eviction while few other keys are in use.
\<close>

definition recent :: "'k set \<Rightarrow> 'k \<Rightarrow> 'v \<Rightarrow> ('k \<times> 'v) list \<Rightarrow> bool" where
  "recent S k v d \<longleftrightarrow> (\<exists>xs ys. d = xs @ (k, v) # ys \<and> fst ` set ys \<subseteq> S)"

lemma recent_lookup: "recent S k v d \<Longrightarrow> distinct (map fst d) \<Longrightarrow> map_of d k = Some v"
  by (auto simp: recent_def)

lemma recent_mono: "recent S k v d \<Longrightarrow> S \<subseteq> T \<Longrightarrow> recent T k v d"
  unfolding recent_def by blast

lemma recent_filter: "recent S k v d \<Longrightarrow> P (k, v) \<Longrightarrow> recent S k v (filter P d)"
  unfolding recent_def by fastforce

lemma recent_last: "recent S k v (d @ [(k, v)])"
  unfolding recent_def by force

lemma update_split:
  "j \<noteq> k \<Longrightarrow> AList.update j w (xs @ (k, v) # ys) =
    (if j \<in> fst ` set xs then AList.update j w xs @ (k, v) # ys
     else xs @ (k, v) # AList.update j w ys)"
  by (induction xs) auto

lemma recent_update:
  assumes "recent S k v d" and "j \<in> S - {k}"
  shows "recent S k v (AList.update j w d)"
proof -
  obtain xs ys where d: "d = xs @ (k, v) # ys" "fst ` set ys \<subseteq> S"
    using assms(1) by (auto simp: recent_def)
  have "fst ` set (AList.update j w ys) \<subseteq> S"
    using d(2) assms(2) by (simp add: dom_update)
  moreover have "j \<noteq> k" using assms(2) by simp
  ultimately show ?thesis
    using d unfolding recent_def d(1) update_split [OF \<open>j \<noteq> k\<close>] by (cases "j \<in> fst ` set xs") auto
qed

lemma recent_move:
  assumes "recent S k v d" and "j \<in> S - {k}"
  shows "recent S k v (move_to_end j d)"
proof (cases "map_of d j")
  case None
  then show ?thesis using assms by (simp add: move_to_end_def)
next
  case (Some w)
  have "recent S k v (AList.delete j d)"
    unfolding AList.delete_eq by (rule recent_filter [OF assms(1)]) (use assms(2) in auto)
  then obtain xs ys where d: "AList.delete j d = xs @ (k, v) # ys" "fst ` set ys \<subseteq> S"
    by (auto simp: recent_def)
  then have "move_to_end j d = xs @ (k, v) # (ys @ [(j, w)])" using Some by (simp add: move_to_end_def)
  moreover have "fst ` set (ys @ [(j, w)]) \<subseteq> S" using d(2) assms(2) by auto
  ultimately show ?thesis unfolding recent_def by blast
qed

lemma recent_refresh: "recent S k v d \<Longrightarrow> j \<in> S - {k} \<Longrightarrow> recent S k v (refresh stamp now j d)"
  by (simp add: refresh_def recent_move recent_update split: option.split)

lemma recent_evict:
  assumes "recent S k v d" and "distinct (map fst d)" and "finite S" and "int (card S) < cap - 1"
  shows "recent S k v (evict cap d)"
proof -
  obtain xs ys where d: "d = xs @ (k, v) # ys" "fst ` set ys \<subseteq> S"
    using assms(1) by (auto simp: recent_def)
  have "distinct (map fst ys)" using assms(2) d(1) by simp
  then have "length ys = card (fst ` set ys)" by (metis distinct_card length_map set_map)
  also have "\<dots> \<le> card S" using d(2) assms(3) by (rule card_mono [rotated])
  finally have "length d - nat (cap - 1) \<le> length xs" using assms(4) d(1) by auto
  then have "evict cap d = drop (length d - nat (cap - 1)) xs @ (k, v) # ys"
    using assms(4) d(1) by (simp add: evict_drop)
  with d(2) show ?thesis unfolding recent_def by blast
qed

text \<open>A key that is absent is not among the keys used since: the room one insertion needs.\<close>

lemma recent_absent: "recent S k v d \<Longrightarrow> map_of d j = None \<Longrightarrow> recent (S - {j}) k v d"
  unfolding recent_def map_of_eq_None_iff
  by (elim exE conjE, intro exI conjI) (assumption, auto)

lemma recent_insert:
  assumes "recent S k v d" and "j \<in> S - {k}" and "distinct (map fst d)" and "finite S"
    and "int (card S) < cap" and "map_of d j = None"
  shows "recent S k v (insert_new cap j w d)"
proof -
  have "card S > 0" using assms(2,4) by (auto simp: card_gt_0_iff)
  then have "int (card (S - {j})) < cap - 1" using assms(2,4,5) by (simp add: card_Diff_singleton)
  then have "recent (S - {j}) k v (evict cap d)"
    using recent_evict [OF recent_absent [OF assms(1,6)] assms(3)] assms(4) by simp
  then have "recent S k v (evict cap d)" by (rule recent_mono) auto
  then show ?thesis unfolding insert_new_def by (rule recent_update [OF _ assms(2)])
qed

locale stamped =
  fixes seen :: "'v \<Rightarrow> int"
    and stamp :: "int \<Rightarrow> 'v \<Rightarrow> 'v"
  assumes seen_stamp: "seen (stamp t v) = t"
begin

text \<open>
  The common shape of \<^verbatim>\<open>get_or_pin_password\<close> and \<^verbatim>\<open>get_or_create\<close>: purge, then refresh a
  present key or make room and insert.
\<close>

lemma access_ok:
  assumes "1 \<le> cap" and "cache_ok cap d"
  shows "cache_ok cap
    (case map_of (purge seen ttl now d) k of
       Some v \<Rightarrow> refresh stamp now k (purge seen ttl now d)
     | None \<Rightarrow> insert_new cap k v (purge seen ttl now d))"
  using assms
  by (auto split: option.splits intro: cache_ok_refresh cache_ok_insert cache_ok_purge)

text \<open>
  A key accessed at time \<^verbatim>\<open>t\<close> is found again by a purge at any time within the TTL, with its
  stored value.
\<close>

lemma access_fresh:
  assumes "cache_ok cap d" and "map_of d k = Some (stamp t v)" and "now - t \<le> ttl"
  shows "map_of (purge seen ttl now d) k = Some (stamp t v)"
  using assms by (simp add: cache_ok_def map_of_purge seen_stamp)

lemma access_stale:
  assumes "cache_ok cap d" and "map_of d k = Some (stamp t v)" and "now - t > ttl"
  shows "map_of (purge seen ttl now d) k = None"
  using assms by (simp add: cache_ok_def map_of_purge seen_stamp)

text \<open>After a purge every remaining entry was seen within the TTL.\<close>

lemma purge_all_fresh:
  assumes "cache_ok cap d" and "(k, v) \<in> set (purge seen ttl now d)"
  shows "now - seen v \<le> ttl"
  using assms by (auto simp: cache_ok_def purge_eq)

text \<open>
  Least-recently-used protection: while the other keys in use number fewer than the capacity,
  neither the purge within the TTL nor an access under another key (refresh, or eviction and
  insertion) loses the entry.
\<close>

lemma recent_purge:
  assumes "recent S k v d" and "distinct (map fst d)" and "now - seen v \<le> ttl"
  shows "recent S k v (purge seen ttl now d)"
  unfolding purge_eq [OF assms(2)] by (rule recent_filter [OF assms(1)]) (simp add: assms(3))

lemma access_recent:
  assumes "recent S k v d" and "distinct (map fst d)" and "j \<in> S - {k}" and "finite S"
    and "int (card S) < cap" and "now - seen v \<le> ttl"
  shows "recent S k v
    (case map_of (purge seen ttl now d) j of
       Some _ \<Rightarrow> refresh stamp now j (purge seen ttl now d)
     | None \<Rightarrow> insert_new cap j w (purge seen ttl now d))"
  using recent_purge [OF assms(1,2,6)] distinct_purge [OF assms(2)] assms(3-5)
  by (simp add: recent_refresh recent_insert split: option.split)

end

end
