(* ===== verification/Session_Manager.thy ===== *)
theory Session_Manager
  imports Ordered_Dict Vfs_Properties
begin

text \<open>
  \<^verbatim>\<open>src/session_manager.py\<close>: the bounded store of per-address sessions.  The factory for new
  filesystems and the clock are arguments.  A method returns its value and the manager afterwards.
\<close>

subsection \<open>Definitions\<close>

record ip_session =
  ses_vfs :: vfs
  ses_llm_cache :: "(string \<times> string) list"
  ses_last_seen :: int
  ses_cwd :: string

record session_manager =
  max_sessions :: int
  ses_ttl_seconds :: int
  sessions :: "(string \<times> ip_session) list"

definition SessionManager :: "int \<Rightarrow> int \<Rightarrow> string + session_manager" where
  "SessionManager max_s ttl =
     (if max_s < 1 then Inl ''max_sessions must be at least 1''
      else if ttl < 0 then Inl ''ttl_seconds must be non-negative''
      else Inr \<lparr>max_sessions = max_s, ses_ttl_seconds = ttl, sessions = []\<rparr>)"

definition ses_len :: "session_manager \<Rightarrow> int" where
  "ses_len sm = int (length (sessions sm))"

definition ses_contains :: "session_manager \<Rightarrow> string \<Rightarrow> bool" where
  "ses_contains sm ip \<longleftrightarrow> map_of (sessions sm) ip \<noteq> None"

definition ses_purge :: "int \<Rightarrow> session_manager \<Rightarrow> session_manager" where
  "ses_purge now sm = sm\<lparr>sessions := purge ses_last_seen (ses_ttl_seconds sm) now (sessions sm)\<rparr>"

abbreviation ses_stamp :: "int \<Rightarrow> ip_session \<Rightarrow> ip_session" where
  "ses_stamp now s \<equiv> s\<lparr>ses_last_seen := now\<rparr>"

definition IpSession :: "vfs \<Rightarrow> int \<Rightarrow> ip_session" where
  "IpSession v now = \<lparr>ses_vfs = v, ses_llm_cache = [], ses_last_seen = now, ses_cwd = DEFAULT_HOME\<rparr>"

definition get_or_create :: "string \<Rightarrow> int \<Rightarrow> vfs \<Rightarrow> session_manager \<Rightarrow> ip_session \<times> session_manager" where
  "get_or_create ip now fresh_vfs sm =
     (let sm = ses_purge now sm in
      case map_of (sessions sm) ip of
        Some session \<Rightarrow>
          (ses_stamp now session, sm\<lparr>sessions := refresh ses_stamp now ip (sessions sm)\<rparr>)
      | None \<Rightarrow>
          (let session = IpSession fresh_vfs now
           in (session, sm\<lparr>sessions := insert_new (max_sessions sm) ip session (sessions sm)\<rparr>)))"

definition ses_touch :: "string \<Rightarrow> int \<Rightarrow> session_manager \<Rightarrow> session_manager" where
  "ses_touch ip now sm =
     (case map_of (sessions sm) ip of
        None \<Rightarrow> sm
      | Some _ \<Rightarrow> sm\<lparr>sessions := refresh ses_stamp now ip (sessions sm)\<rparr>)"

definition ses_sweep :: "int \<Rightarrow> session_manager \<Rightarrow> int \<times> session_manager" where
  "ses_sweep now sm =
     (let before = int (length (sessions sm)); sm = ses_purge now sm
      in (before - int (length (sessions sm)), sm))"

subsection \<open>Invariant\<close>

interpretation session_cache: stamped ses_last_seen ses_stamp
  by unfold_locales simp

definition ses_inv :: "session_manager \<Rightarrow> bool" where
  "ses_inv sm \<longleftrightarrow> 1 \<le> max_sessions sm \<and> 0 \<le> ses_ttl_seconds sm \<and>
     cache_ok (max_sessions sm) (sessions sm)"

lemma SessionManager_inv: "SessionManager m t = Inr sm \<Longrightarrow> ses_inv sm"
  by (auto simp: SessionManager_def ses_inv_def split: if_splits)

lemma ses_purge_simps [simp]:
  "max_sessions (ses_purge now sm) = max_sessions sm"
  "ses_ttl_seconds (ses_purge now sm) = ses_ttl_seconds sm"
  by (simp_all add: ses_purge_def)

lemma ses_purge_inv: "ses_inv sm \<Longrightarrow> ses_inv (ses_purge now sm)"
  by (simp add: ses_inv_def ses_purge_def cache_ok_purge)

lemma get_or_create_inv: "ses_inv sm \<Longrightarrow> ses_inv (snd (get_or_create ip now v sm))"
  using ses_purge_inv [of sm now]
  by (auto simp: get_or_create_def Let_def ses_inv_def cache_ok_refresh cache_ok_insert
      split: option.splits)

lemma ses_touch_inv: "ses_inv sm \<Longrightarrow> ses_inv (ses_touch ip now sm)"
  by (auto simp: ses_touch_def ses_inv_def cache_ok_refresh split: option.splits)

lemma ses_sweep_inv: "ses_inv sm \<Longrightarrow> ses_inv (snd (ses_sweep now sm))"
  by (simp add: ses_sweep_def Let_def ses_purge_inv)

datatype ses_op = GetOrCreate string int vfs | SesTouch string int | SesSweep int

fun ses_step :: "ses_op \<Rightarrow> session_manager \<Rightarrow> session_manager" where
  "ses_step (GetOrCreate ip now v) sm = snd (get_or_create ip now v sm)"
| "ses_step (SesTouch ip now) sm = ses_touch ip now sm"
| "ses_step (SesSweep now) sm = snd (ses_sweep now sm)"

interpretation session_steps: invariant_steps ses_inv ses_step
proof unfold_locales
  fix s op assume "ses_inv s"
  then show "ses_inv (ses_step op s)"
    by (cases op) (auto intro: get_or_create_inv ses_touch_inv ses_sweep_inv)
qed

lemma ses_step_max: "max_sessions (ses_step op sm) = max_sessions sm"
  by (cases op) (auto simp: get_or_create_def ses_touch_def ses_sweep_def Let_def split: option.splits)

lemma ses_run_max: "max_sessions (fold ses_step ops sm) = max_sessions sm"
  by (induction ops arbitrary: sm) (simp_all add: ses_step_max)

text \<open>The addresses an operation serves and the clock reading it makes.\<close>

fun op_addrs :: "ses_op \<Rightarrow> string set" where
  "op_addrs (GetOrCreate ip now v) = {ip}"
| "op_addrs (SesTouch ip now) = {ip}"
| "op_addrs (SesSweep now) = {}"

fun op_time :: "ses_op \<Rightarrow> int" where
  "op_time (GetOrCreate ip now v) = now"
| "op_time (SesTouch ip now) = now"
| "op_time (SesSweep now) = now"

lemma ses_step_recent:
  assumes "ses_inv sm" and "recent S ip s (sessions sm)" and "op_addrs op \<subseteq> S - {ip}"
    and "finite S" and "int (card S) < max_sessions sm"
    and "op_time op - ses_last_seen s \<le> ses_ttl_seconds sm"
  shows "recent S ip s (sessions (ses_step op sm))"
proof (cases op)
  case (GetOrCreate j now v)
  have "distinct (map fst (sessions sm))" using assms(1) by (simp add: ses_inv_def cache_ok_def)
  from session_cache.access_recent [OF assms(2) this, of j "max_sessions sm" now "ses_ttl_seconds sm"]
  show ?thesis using assms GetOrCreate
    by (auto simp: get_or_create_def ses_purge_def Let_def split: option.splits)
next
  case (SesTouch j now)
  then show ?thesis using assms by (auto simp: ses_touch_def intro: recent_refresh split: option.splits)
next
  case (SesSweep now)
  then show ?thesis using assms
    by (auto simp: ses_sweep_def ses_purge_def Let_def ses_inv_def cache_ok_def
        intro!: session_cache.recent_purge)
qed

lemma ses_step_ttl: "ses_ttl_seconds (ses_step op sm) = ses_ttl_seconds sm"
  by (cases op) (auto simp: get_or_create_def ses_touch_def ses_sweep_def Let_def split: option.splits)

lemma ses_run_recent:
  assumes "ses_inv sm" and "recent S ip s (sessions sm)"
    and "\<forall>op\<in>set ops. op_addrs op \<subseteq> S - {ip} \<and> op_time op - ses_last_seen s \<le> ses_ttl_seconds sm"
    and "finite S" and "int (card S) < max_sessions sm"
  shows "recent S ip s (sessions (fold ses_step ops sm)) \<and> ses_inv (fold ses_step ops sm) \<and>
    ses_ttl_seconds (fold ses_step ops sm) = ses_ttl_seconds sm"
  using assms
proof (induction ops arbitrary: sm)
  case (Cons op ops)
  have "recent S ip s (sessions (ses_step op sm))"
    by (rule ses_step_recent) (use Cons.prems in auto)
  with Cons.IH [of "ses_step op sm"] Cons.prems session_steps.step_inv [of sm op]
  show ?case by (simp add: ses_step_ttl ses_step_max)
qed simp

lemma get_or_create_recent:
  assumes "ses_inv sm" and "get_or_create ip t fresh sm = (s, sm1)"
  shows "ses_last_seen s = t \<and> recent S ip s (sessions sm1)"
proof (cases "map_of (sessions (ses_purge t sm)) ip")
  case None
  then have "map_of (evict (max_sessions sm) (sessions (ses_purge t sm))) ip = None"
    using set_mono_suffix [OF evict_suffix [of "max_sessions sm" "sessions (ses_purge t sm)"]]
    by (auto simp: map_of_eq_None_iff)
  then show ?thesis
    using assms(2) None
    by (auto simp: get_or_create_def Let_def insert_new_def keys_update_absent recent_last IpSession_def)
next
  case (Some w)
  then show ?thesis
    using assms(2) by (auto simp: get_or_create_def Let_def refresh_def move_to_end_def recent_last)
qed

lemma get_or_create_within:
  assumes "recent S ip s (sessions sm)" and "ses_inv sm"
    and "now - ses_last_seen s \<le> ses_ttl_seconds sm"
  shows "fst (get_or_create ip now fresh sm) = ses_stamp now s"
proof -
  have d: "distinct (map fst (sessions sm))" using assms(2) by (simp add: ses_inv_def cache_ok_def)
  show ?thesis
    using recent_lookup [OF assms(1) d] assms(3)
    by (simp add: get_or_create_def Let_def ses_purge_def map_of_purge [OF d])
qed

subsection \<open>Properties\<close>

text \<open>
  Bounded sessions: starting from a freshly constructed manager, no sequence of connections,
  disconnections and sweeps (at any clock readings, from any addresses) holds more than
  \<^verbatim>\<open>max_sessions\<close> sessions, or two sessions for one address.
\<close>

theorem sessions_bounded:
  assumes "SessionManager m ttl = Inr sm"
  shows "ses_len (fold ses_step ops sm) \<le> m \<and> distinct (map fst (sessions (fold ses_step ops sm)))"
proof -
  have "max_sessions sm = m" using assms by (auto simp: SessionManager_def split: if_splits)
  then show ?thesis
    using session_steps.run_inv [OF SessionManager_inv [OF assms], of ops]
    by (simp add: ses_inv_def cache_ok_def ses_len_def ses_run_max)
qed

theorem sessions_bounded_witness:
  "SessionManager 1 10 = Inr \<lparr>max_sessions = 1, ses_ttl_seconds = 10, sessions = []\<rparr> \<and>
   ses_len (fold ses_step [GetOrCreate ''a'' 0 tiny_vfs, GetOrCreate ''b'' 1 tiny_vfs]
     \<lparr>max_sessions = 1, ses_ttl_seconds = 10, sessions = []\<rparr>) \<le> 1"
proof -
  have "SessionManager 1 10 = Inr \<lparr>max_sessions = 1, ses_ttl_seconds = 10, sessions = []\<rparr>"
    by (simp add: SessionManager_def)
  from this sessions_bounded [OF this] show ?thesis by blast
qed

text \<open>
  Reconnecting: an address that comes back within the TTL of its last use gets its session
  back, filesystem, LLM cache and working directory included, with only the time stamp renewed;
  it is then the most recently used one.  After the TTL it gets a fresh session in the home
  directory, on the filesystem the factory makes.
\<close>

theorem get_or_create_persistent:
  assumes "ses_inv sm" and "map_of (sessions sm) ip = Some s"
  shows "(let (s', sm') = get_or_create ip now fresh sm in
      s' = (if now - ses_last_seen s \<le> ses_ttl_seconds sm then ses_stamp now s
            else IpSession fresh now) \<and>
      last (sessions sm') = (ip, s') \<and> map_of (sessions sm') ip = Some s')"
proof -
  have d: "distinct (map fst (sessions sm))" using assms(1) by (simp add: ses_inv_def cache_ok_def)
  note m = map_of_purge [OF d, of ses_last_seen "ses_ttl_seconds sm" now ip] assms(2)
  show ?thesis
  proof (cases "now - ses_last_seen s \<le> ses_ttl_seconds sm")
    case True
    then show ?thesis
      using m by (simp add: get_or_create_def ses_purge_def last_refresh map_of_refresh distinct_purge d)
  next
    case False
    then show ?thesis
      using m by (simp add: get_or_create_def ses_purge_def Let_def map_of_insert_new last_insert_new)
  qed
qed

theorem get_or_create_persistent_witness:
  "let s = \<lparr>ses_vfs = tiny_vfs, ses_llm_cache = [(''id'', ''uid=0'')], ses_last_seen = 5,
            ses_cwd = ''/tmp''\<rparr>;
       sm = \<lparr>max_sessions = 2, ses_ttl_seconds = 10, sessions = [(''a'', s), (''b'', s)]\<rparr>
   in fst (get_or_create ''a'' 15 tiny_vfs sm) = ses_stamp 15 s"
proof -
  define s where "s = \<lparr>ses_vfs = tiny_vfs, ses_llm_cache = [(''id'', ''uid=0'')], ses_last_seen = 5,
            ses_cwd = ''/tmp''\<rparr>"
  define sm where "sm = \<lparr>max_sessions = 2, ses_ttl_seconds = 10, sessions = [(''a'', s), (''b'', s)]\<rparr>"
  have "ses_inv sm" "map_of (sessions sm) ''a'' = Some s"
    by (simp_all add: sm_def ses_inv_def cache_ok_def)
  from get_or_create_persistent [OF this, of 15 tiny_vfs] show ?thesis
    by (auto simp: s_def sm_def case_prod_beta Let_def)
qed

text \<open>
  C21. Persistence under load: after a connection from an address, as long as fewer than
  \<^verbatim>\<open>max_sessions\<close> other addresses connect, disconnect or are swept, all within the TTL, the address
  gets the very same session (filesystem, cache, directory) when it returns within the TTL: the
  eviction of least recently used sessions never reaches it.
\<close>

theorem session_survives:
  assumes "ses_inv sm" and "get_or_create ip t fresh sm = (s, sm1)"
    and "\<forall>op\<in>set ops. ip \<notin> op_addrs op \<and> op_time op - t \<le> ses_ttl_seconds sm"
    and "int (card (\<Union> (op_addrs ` set ops))) < max_sessions sm"
    and "now - t \<le> ses_ttl_seconds sm"
  shows "fst (get_or_create ip now fresh' (fold ses_step ops sm1)) = ses_stamp now s"
proof -
  define S where "S = \<Union> (op_addrs ` set ops)"
  have sm1: "ses_inv sm1" "ses_ttl_seconds sm1 = ses_ttl_seconds sm" "max_sessions sm1 = max_sessions sm"
    using get_or_create_inv [OF assms(1), of ip t fresh] assms(2)
      ses_step_ttl [of "GetOrCreate ip t fresh" sm] ses_step_max [of "GetOrCreate ip t fresh" sm] by auto
  have "finite (op_addrs op)" for op by (cases op) auto
  then have fin: "finite S" unfolding S_def by simp
  have s: "ses_last_seen s = t" and r: "recent S ip s (sessions sm1)"
    using get_or_create_recent [OF assms(1,2)] by auto
  have "recent S ip s (sessions (fold ses_step ops sm1)) \<and> ses_inv (fold ses_step ops sm1) \<and>
      ses_ttl_seconds (fold ses_step ops sm1) = ses_ttl_seconds sm1"
    by (rule ses_run_recent [OF sm1(1) r _ fin]) (use assms(3,4) sm1 s in \<open>auto simp: S_def\<close>)
  then show ?thesis
    using get_or_create_within [of S ip s "fold ses_step ops sm1" now "fresh'"] assms(5) s sm1(2) by simp
qed

theorem session_survives_witness:
  "let sm = \<lparr>max_sessions = 2, ses_ttl_seconds = 10, sessions = []\<rparr>;
       (s, sm1) = get_or_create ''a'' 0 tiny_vfs sm
   in fst (get_or_create ''a'' 9 tiny_vfs
        (fold ses_step [GetOrCreate ''b'' 3 tiny_vfs, SesTouch ''b'' 5, SesSweep 7] sm1)) = ses_stamp 9 s"
proof -
  define sm where "sm = \<lparr>max_sessions = 2, ses_ttl_seconds = 10, sessions = []\<rparr>"
  obtain s sm1 where g: "get_or_create ''a'' 0 tiny_vfs sm = (s, sm1)" by fastforce
  have inv: "ses_inv sm" by (simp add: sm_def ses_inv_def)
  have "fst (get_or_create ''a'' 9 tiny_vfs
        (fold ses_step [GetOrCreate ''b'' 3 tiny_vfs, SesTouch ''b'' 5, SesSweep 7] sm1)) = ses_stamp 9 s"
    by (rule session_survives [OF inv g]) (simp_all add: sm_def)
  with g show ?thesis by (simp add: sm_def)
qed

end
