(* ===== verification/Auth.thy ===== *)
theory Auth
  imports Ordered_Dict Telemetry Interfaces
begin

text \<open>
  \<^verbatim>\<open>src/auth.py\<close>: password pinning, failure counting and lockout per client address.  The clock,
  \<^verbatim>\<open>secrets.choice\<close> (an index into the password list) and the success of the host's log writes are
  inputs.  Each method returns its value with the manager afterwards.  The awaits of
  \<^verbatim>\<open>validate_login\<close> (the log write and the tarpit) come after its last change of the manager, so a
  call is one step of the manager; the seconds slept are part of its result.
\<close>

subsection \<open>Definitions\<close>

definition DEFAULT_WEAK_PASSWORDS :: "string list" where
  "DEFAULT_WEAK_PASSWORDS = [''123456'', ''admin'', ''password'', ''toor'', ''root'', ''ubuntu'']"

definition ALLOWED_USERNAME :: string where
  "ALLOWED_USERNAME = ''root''"

record pin_record =
  pin_password :: string
  pin_last_seen :: int

record attempt_record =
  att_count :: int
  att_last_seen :: int

record auth_manager =
  au_passwords :: "string list"
  au_tarpit_seconds :: int
  au_max_attempts :: int
  au_max_pins :: int
  au_ttl_seconds :: int
  au_attempt_ttl_seconds :: int
  au_pins :: "(string \<times> pin_record) list"
  au_attempts :: "(string \<times> attempt_record) list"

datatype auth_error = AuthAttemptLimitExceeded string

definition AuthManager ::
  "string list \<Rightarrow> int \<Rightarrow> int \<Rightarrow> int \<Rightarrow> int \<Rightarrow> int \<Rightarrow> string + auth_manager" where
  "AuthManager passwords tarpit max_att max_p ttl attempt_ttl =
     (if passwords = [] then Inl ''password list must not be empty''
      else if max_att < 1 then Inl ''max_attempts must be at least 1''
      else if max_p < 1 then Inl ''max_pins must be at least 1''
      else if ttl < 0 then Inl ''ttl_seconds must be non-negative''
      else if attempt_ttl < 0 then Inl ''attempt_ttl_seconds must be non-negative''
      else Inr \<lparr>au_passwords = passwords, au_tarpit_seconds = tarpit, au_max_attempts = max_att,
                au_max_pins = max_p, au_ttl_seconds = ttl, au_attempt_ttl_seconds = attempt_ttl,
                au_pins = [], au_attempts = []\<rparr>)"

definition auth_len :: "auth_manager \<Rightarrow> int" where
  "auth_len am = int (length (au_pins am))"

definition auth_contains :: "auth_manager \<Rightarrow> string \<Rightarrow> bool" where
  "auth_contains am ip \<longleftrightarrow> map_of (au_pins am) ip \<noteq> None"

definition auth_purge :: "int \<Rightarrow> auth_manager \<Rightarrow> auth_manager" where
  "auth_purge now am =
     am\<lparr>au_pins := purge pin_last_seen (au_ttl_seconds am) now (au_pins am),
        au_attempts := purge att_last_seen (au_attempt_ttl_seconds am) now (au_attempts am)\<rparr>"

abbreviation pin_stamp :: "int \<Rightarrow> pin_record \<Rightarrow> pin_record" where
  "pin_stamp now p \<equiv> p\<lparr>pin_last_seen := now\<rparr>"

definition choice :: "nat \<Rightarrow> 'a list \<Rightarrow> 'a" where
  "choice pick xs = xs ! (pick mod length xs)"

definition get_or_pin_password :: "string \<Rightarrow> int \<Rightarrow> nat \<Rightarrow> auth_manager \<Rightarrow> string \<times> auth_manager" where
  "get_or_pin_password client_ip now pick am =
     (let am = auth_purge now am in
      case map_of (au_pins am) client_ip of
        Some pin \<Rightarrow> (pin_password pin, am\<lparr>au_pins := refresh pin_stamp now client_ip (au_pins am)\<rparr>)
      | None \<Rightarrow>
          (let password = choice pick (au_passwords am)
           in (password,
               am\<lparr>au_pins := insert_new (au_max_pins am) client_ip
                    \<lparr>pin_password = password, pin_last_seen = now\<rparr> (au_pins am)\<rparr>)))"

definition create_session :: "string \<Rightarrow> int \<Rightarrow> nat \<Rightarrow> string \<Rightarrow> auth_manager \<Rightarrow> string \<times> auth_manager" where
  "create_session client_ip now pick uuid am = (uuid, snd (get_or_pin_password client_ip now pick am))"

definition locked :: "auth_manager \<Rightarrow> string \<Rightarrow> bool" where
  "locked am client_ip \<longleftrightarrow>
     (case map_of (au_attempts am) client_ip of
        None \<Rightarrow> False
      | Some record \<Rightarrow> att_count record \<ge> au_max_attempts am)"

definition is_locked_out :: "string \<Rightarrow> int \<Rightarrow> auth_manager \<Rightarrow> bool \<times> auth_manager" where
  "is_locked_out client_ip now am = (let am = auth_purge now am in (locked am client_ip, am))"

text \<open>
  \<^verbatim>\<open>secrets.compare_digest\<close> on strings raises \<^verbatim>\<open>TypeError\<close> unless both are ASCII.
\<close>

definition compare_digest :: "string \<Rightarrow> string \<Rightarrow> string + bool" where
  "compare_digest a b =
     (if list_all (\<lambda>c. ord c < 128) a \<and> list_all (\<lambda>c. ord c < 128) b then Inr (a = b)
      else Inl ''TypeError'')"

definition register_failure :: "string \<Rightarrow> int \<Rightarrow> auth_manager \<Rightarrow> int \<times> auth_manager" where
  "register_failure client_ip now am =
     (let attempts =
        (case map_of (au_attempts am) client_ip of
           None \<Rightarrow> insert_new (au_max_pins am) client_ip \<lparr>att_count = 0, att_last_seen = now\<rparr> (au_attempts am)
         | Some _ \<Rightarrow> au_attempts am);
          count = (case map_of attempts client_ip of None \<Rightarrow> 0 | Some r \<Rightarrow> att_count r) + 1;
          attempts = AList.update client_ip \<lparr>att_count = count, att_last_seen = now\<rparr> attempts
      in (count, am\<lparr>au_attempts := move_to_end client_ip attempts\<rparr>))"

text \<open>The inputs of one login: the two clock readings, the random index, the log's time stamp.\<close>

record login_env =
  env_now_pin :: int
  env_now :: int
  env_pick :: nat
  env_timestamp :: string
  env_io_ok :: bool

record login_result =
  lr_outcome :: "auth_error + bool"
  lr_slept :: int
  lr_event :: auth_event
  lr_logs :: logs

definition credentials_ok ::
  "login_env \<Rightarrow> string \<Rightarrow> string \<Rightarrow> string \<Rightarrow> auth_manager \<Rightarrow> bool \<times> auth_manager" where
  "credentials_ok env client_ip username password am =
     (if username \<noteq> ALLOWED_USERNAME then (False, am)
      else
        (let (pinned, am) = get_or_pin_password client_ip (env_now_pin env) (env_pick env) am
         in ((case compare_digest password pinned of Inl _ \<Rightarrow> False | Inr b \<Rightarrow> b), am)))"

text \<open>The part of \<^verbatim>\<open>validate_login\<close> under the lock: attempt count, limit flag, verdict.\<close>

definition settle_attempt ::
  "int \<Rightarrow> string \<Rightarrow> bool \<Rightarrow> auth_manager \<Rightarrow> (int \<times> bool \<times> bool) \<times> auth_manager" where
  "settle_attempt now client_ip success am =
     (let am = auth_purge now am in
      case map_of (au_attempts am) client_ip of
        Some record \<Rightarrow>
          if att_count record \<ge> au_max_attempts am then ((att_count record, True, False), am)
          else if success then
            ((0, False, True), am\<lparr>au_attempts := AList.delete client_ip (au_attempts am)\<rparr>)
          else
            (let (count, am') = register_failure client_ip now am
             in ((count, count \<ge> au_max_attempts am, False), am'))
      | None \<Rightarrow>
          if success then ((0, False, True), am)
          else
            (let (count, am') = register_failure client_ip now am
             in ((count, count \<ge> au_max_attempts am, False), am')))"

definition record_attempt :: "login_env \<Rightarrow> auth_event \<Rightarrow> logs \<Rightarrow> logs" where
  "record_attempt env ev l = record_auth_attempt (env_io_ok env) (env_timestamp env) ev l"

definition validate_login ::
  "login_env \<Rightarrow> string \<Rightarrow> string \<Rightarrow> string \<Rightarrow> string \<Rightarrow> auth_manager \<Rightarrow> logs \<Rightarrow> login_result \<times> auth_manager" where
  "validate_login env client_ip session_id username password am l =
     (let (success, am) = credentials_ok env client_ip username password am;
          ((attempt_count, limit_exceeded, accepted), am) =
            settle_attempt (env_now env) client_ip success am;
          ev = \<lparr>ev_session_id = session_id, ev_client_ip = client_ip, ev_username = username,
                ev_password = password, ev_success = accepted, ev_attempt_count = attempt_count,
                ev_limit_exceeded = (if accepted then False else limit_exceeded)\<rparr>
      in (\<lparr>lr_outcome =
             (if accepted then Inr True
              else if limit_exceeded then Inl (AuthAttemptLimitExceeded session_id) else Inr False),
           lr_slept = (if accepted then 0 else au_tarpit_seconds am),
           lr_event = ev,
           lr_logs = record_attempt env ev l\<rparr>,
          am))"

definition release_session :: "string \<Rightarrow> auth_manager \<Rightarrow> auth_manager" where
  "release_session session_id am = am"

definition auth_sweep :: "int \<Rightarrow> auth_manager \<Rightarrow> int \<times> auth_manager" where
  "auth_sweep now am =
     (let before = int (length (au_pins am)); am = auth_purge now am
      in (before - int (length (au_pins am)), am))"

subsection \<open>Invariant\<close>

interpretation pin_cache: stamped pin_last_seen pin_stamp
  by unfold_locales simp

interpretation attempt_cache: stamped att_last_seen "\<lambda>now r. r\<lparr>att_last_seen := now\<rparr>"
  by unfold_locales simp

definition auth_inv :: "auth_manager \<Rightarrow> bool" where
  "auth_inv am \<longleftrightarrow> au_passwords am \<noteq> [] \<and> 1 \<le> au_max_attempts am \<and> 1 \<le> au_max_pins am \<and>
     cache_ok (au_max_pins am) (au_pins am) \<and> cache_ok (au_max_pins am) (au_attempts am) \<and>
     all_values (\<lambda>p. pin_password p \<in> set (au_passwords am)) (au_pins am) \<and>
     all_values (\<lambda>r. 1 \<le> att_count r \<and> att_count r \<le> au_max_attempts am) (au_attempts am)"

text \<open>The settings of a manager, which no operation changes.\<close>

definition auth_config :: "auth_manager \<Rightarrow> string list \<times> int \<times> int \<times> int \<times> int \<times> int" where
  "auth_config am = (au_passwords am, au_tarpit_seconds am, au_max_attempts am, au_max_pins am,
     au_ttl_seconds am, au_attempt_ttl_seconds am)"

lemma auth_config_simps:
  assumes "auth_config a = auth_config b"
  shows "au_passwords a = au_passwords b" "au_tarpit_seconds a = au_tarpit_seconds b"
    "au_max_attempts a = au_max_attempts b" "au_max_pins a = au_max_pins b"
    "au_ttl_seconds a = au_ttl_seconds b" "au_attempt_ttl_seconds a = au_attempt_ttl_seconds b"
  using assms by (simp_all add: auth_config_def)

lemma auth_config_upd [simp]:
  "auth_config (am\<lparr>au_pins := x\<rparr>) = auth_config am"
  "auth_config (am\<lparr>au_attempts := y\<rparr>) = auth_config am"
  "auth_config (auth_purge now am) = auth_config am"
  by (simp_all add: auth_config_def auth_purge_def)

lemma AuthManager_inv: "AuthManager ps tp ma mp ttl att = Inr am \<Longrightarrow> auth_inv am"
  by (auto simp: AuthManager_def auth_inv_def split: if_splits)

lemma auth_purge_inv: "auth_inv am \<Longrightarrow> auth_inv (auth_purge now am)"
  by (simp add: auth_inv_def auth_purge_def cache_ok_purge all_values_purge)

lemma choice_in: "xs \<noteq> [] \<Longrightarrow> choice pick xs \<in> set xs"
  by (simp add: choice_def)

lemma get_or_pin_password_inv:
  assumes "auth_inv am"
  shows "auth_inv (snd (get_or_pin_password ip now pick am)) \<and>
    auth_config (snd (get_or_pin_password ip now pick am)) = auth_config am \<and>
    au_attempts (snd (get_or_pin_password ip now pick am)) = au_attempts (auth_purge now am)"
proof -
  define bm where "bm = auth_purge now am"
  have bm: "auth_inv bm" "auth_config bm = auth_config am"
    using auth_purge_inv [OF assms] by (simp_all add: bm_def)
  then show ?thesis
    unfolding get_or_pin_password_def Let_def bm_def [symmetric]
    by (auto simp: auth_inv_def cache_ok_refresh cache_ok_insert choice_in
        intro!: all_values_intros split: option.split)
qed

lemma register_failure_attempts:
  assumes "auth_inv am"
  shows "register_failure ip now am =
    (let n = (case map_of (au_attempts am) ip of None \<Rightarrow> 0 | Some r \<Rightarrow> att_count r) + 1;
         d = (case map_of (au_attempts am) ip of
                None \<Rightarrow> insert_new (au_max_pins am) ip \<lparr>att_count = 0, att_last_seen = now\<rparr> (au_attempts am)
              | Some r \<Rightarrow> au_attempts am)
     in (n, am\<lparr>au_attempts := move_to_end ip
              (AList.update ip \<lparr>att_count = n, att_last_seen = now\<rparr> d)\<rparr>))"
  by (simp add: register_failure_def Let_def map_of_insert_new split: option.split)

lemma register_failure_inv:
  assumes "auth_inv am" and "\<not> locked am ip"
  shows "auth_inv (snd (register_failure ip now am)) \<and>
    auth_config (snd (register_failure ip now am)) = auth_config am \<and>
    au_pins (snd (register_failure ip now am)) = au_pins am"
proof -
  let ?d = "case map_of (au_attempts am) ip of
      None \<Rightarrow> insert_new (au_max_pins am) ip \<lparr>att_count = 0, att_last_seen = now\<rparr> (au_attempts am)
    | Some r \<Rightarrow> au_attempts am"
  let ?n = "(case map_of (au_attempts am) ip of None \<Rightarrow> 0 | Some r \<Rightarrow> att_count r) + 1"
  let ?P = "\<lambda>r. 1 \<le> att_count r \<and> att_count r \<le> au_max_attempts am"
  have n: "1 \<le> ?n" "?n \<le> au_max_attempts am"
  proof -
    have "all_values ?P (au_attempts am)" and "1 \<le> au_max_attempts am"
      using assms(1) by (simp_all add: auth_inv_def)
    then have "1 \<le> ?n \<and> ?n \<le> au_max_attempts am"
      using assms(2) by (cases "map_of (au_attempts am) ip") (auto simp: locked_def dest!: all_values_lookup)
    then show "1 \<le> ?n" "?n \<le> au_max_attempts am" by simp_all
  qed
  have d: "cache_ok (au_max_pins am) ?d" "map_of ?d ip \<noteq> None"
    using assms(1) by (auto simp: auth_inv_def cache_ok_insert map_of_insert_new split: option.split)
  have "all_values ?P (AList.update ip \<lparr>att_count = ?n, att_last_seen = now\<rparr> ?d)"
  proof (cases "map_of (au_attempts am) ip")
    case None
    have "all_values ?P (AList.update ip \<lparr>att_count = 1, att_last_seen = now\<rparr>
        (evict (au_max_pins am) (au_attempts am)))"
      using assms(1) by (auto simp: auth_inv_def intro!: all_values_update all_values_evict)
    then show ?thesis using None by (simp add: insert_new_def)
  next
    case (Some r)
    then show ?thesis using assms(1) n by (auto simp: auth_inv_def intro!: all_values_update)
  qed
  then show ?thesis
    using assms(1) d unfolding register_failure_attempts [OF assms(1)] Let_def
    by (auto simp: auth_inv_def intro!: all_values_move cache_ok_move cache_ok_update)
qed

end
