(* ===== verification/Auth_Properties.thy ===== *)
theory Auth_Properties
  imports Auth
begin

text \<open>
  What the authentication manager guarantees over whole runs: bounded memory, the exact decision of
  every login, the lockout after consecutive failures and the stability of pinned passwords.
\<close>

subsection \<open>Steps of the manager\<close>

lemma settle_attempt_inv:
  assumes "auth_inv am"
  shows "auth_inv (snd (settle_attempt now ip ok am)) \<and>
    auth_config (snd (settle_attempt now ip ok am)) = auth_config am \<and>
    au_pins (snd (settle_attempt now ip ok am)) = au_pins (auth_purge now am)"
proof -
  define bm where "bm = auth_purge now am"
  have bm: "auth_inv bm" "auth_config bm = auth_config am"
    using auth_purge_inv [OF assms] by (simp_all add: bm_def)
  have del: "auth_inv (bm\<lparr>au_attempts := AList.delete ip (au_attempts bm)\<rparr>)"
    using bm(1) by (simp add: auth_inv_def cache_ok_delete all_values_delete)
  show ?thesis
    using register_failure_inv [OF bm(1), of ip now] bm del
    unfolding settle_attempt_def Let_def bm_def [symmetric]
    by (cases "map_of (au_attempts bm) ip") (auto simp: locked_def case_prod_beta)
qed

lemma credentials_ok_inv:
  assumes "auth_inv am"
  shows "auth_inv (snd (credentials_ok env ip u p am)) \<and>
    auth_config (snd (credentials_ok env ip u p am)) = auth_config am"
  using assms get_or_pin_password_inv [OF assms, of ip "env_now_pin env" "env_pick env"]
  by (simp add: credentials_ok_def case_prod_beta)

lemma validate_login_state:
  "snd (validate_login env ip sid u p am l) =
    (let (ok, bm) = credentials_ok env ip u p am in snd (settle_attempt (env_now env) ip ok bm))"
  by (simp add: validate_login_def Let_def case_prod_beta)

lemma validate_login_inv:
  assumes "auth_inv am"
  shows "auth_inv (snd (validate_login env ip sid u p am l)) \<and>
    auth_config (snd (validate_login env ip sid u p am l)) = auth_config am"
  using credentials_ok_inv [OF assms, of env ip u p] settle_attempt_inv
  by (simp add: validate_login_state case_prod_beta)

datatype auth_op =
    Connect string int nat string
  | Login login_env string string string string
  | LockedOut string int
  | AuthSweep int

fun auth_step :: "auth_op \<Rightarrow> auth_manager \<Rightarrow> auth_manager" where
  "auth_step (Connect ip now pick uuid) am = snd (create_session ip now pick uuid am)"
| "auth_step (Login env ip sid u p) am = snd (validate_login env ip sid u p am [])"
| "auth_step (LockedOut ip now) am = snd (is_locked_out ip now am)"
| "auth_step (AuthSweep now) am = snd (auth_sweep now am)"

lemma auth_step_inv:
  assumes "auth_inv am"
  shows "auth_inv (auth_step op am) \<and> auth_config (auth_step op am) = auth_config am"
  using get_or_pin_password_inv [OF assms] validate_login_inv [OF assms] auth_purge_inv [OF assms]
  by (cases op) (simp_all add: create_session_def is_locked_out_def auth_sweep_def Let_def)

interpretation auth_steps: invariant_steps "\<lambda>am. auth_inv am \<and> auth_config am = c" auth_step for c
  by unfold_locales (simp add: auth_step_inv)

subsection \<open>Failure counters\<close>

text \<open>The failures that count at time \<^verbatim>\<open>now\<close>: those of a record seen within the attempt TTL.\<close>

definition failures :: "auth_manager \<Rightarrow> string \<Rightarrow> int \<Rightarrow> int" where
  "failures am ip now =
     (case map_of (au_attempts am) ip of
        None \<Rightarrow> 0
      | Some r \<Rightarrow> if now - att_last_seen r \<le> au_attempt_ttl_seconds am then att_count r else 0)"

lemma attempts_purge:
  assumes "auth_inv am"
  shows "map_of (au_attempts (auth_purge now am)) ip =
    (case map_of (au_attempts am) ip of
       None \<Rightarrow> None
     | Some r \<Rightarrow> if now - att_last_seen r \<le> au_attempt_ttl_seconds am then Some r else None)"
  using assms by (simp add: auth_inv_def cache_ok_def auth_purge_def map_of_purge)

lemma failures_purge:
  assumes "auth_inv am" and "t \<le> now"
  shows "failures (auth_purge t am) ip now = failures am ip now"
  using assms attempts_purge [OF assms(1), of t ip]
  by (auto simp: failures_def auth_purge_def split: option.splits)

lemma failures_bounds:
  assumes "auth_inv am"
  shows "0 \<le> failures am ip now \<and> failures am ip now \<le> au_max_attempts am"
  using assms unfolding auth_inv_def failures_def
  by (cases "map_of (au_attempts am) ip") (auto dest: all_values_lookup)

lemma register_failure_count:
  assumes "auth_inv am"
  shows "fst (register_failure ip now am) = (case map_of (au_attempts am) ip of None \<Rightarrow> 0 | Some r \<Rightarrow> att_count r) + 1
    \<and> map_of (au_attempts (snd (register_failure ip now am))) ip =
        Some \<lparr>att_count = fst (register_failure ip now am), att_last_seen = now\<rparr>"
proof (cases "map_of (au_attempts am) ip")
  case None
  have "distinct (map fst (insert_new (au_max_pins am) ip \<lparr>att_count = 0, att_last_seen = now\<rparr> (au_attempts am)))"
    using cache_ok_insert [of "au_max_pins am" "au_attempts am" ip] assms None
    by (simp add: auth_inv_def cache_ok_def)
  then show ?thesis
    using None unfolding register_failure_attempts [OF assms] Let_def
    by (simp add: map_of_move_to_end distinct_keys_update)
next
  case (Some r)
  then show ?thesis
    using assms unfolding register_failure_attempts [OF assms] Let_def
    by (simp add: map_of_move_to_end distinct_keys_update auth_inv_def cache_ok_def)
qed

lemma settle_attempt_decision:
  fixes am ip now
  assumes "auth_inv am"
  defines "f \<equiv> failures am ip now" and "m \<equiv> au_max_attempts am"
  shows "fst (settle_attempt now ip ok am) =
      (if f \<ge> m then (f, True, False) else if ok then (0, False, True) else (f + 1, f + 1 \<ge> m, False))"
    and "map_of (au_attempts (snd (settle_attempt now ip ok am))) ip =
      (if f \<ge> m then map_of (au_attempts am) ip
       else if ok then None else Some \<lparr>att_count = f + 1, att_last_seen = now\<rparr>)"
proof -
  define bm where "bm = auth_purge now am"
  have inv: "auth_inv bm" and m: "au_max_attempts bm = m" "1 \<le> m"
    using auth_purge_inv [OF assms(1)] assms(1)
    by (simp_all add: bm_def m_def auth_purge_def auth_inv_def)
  have look: "map_of (au_attempts bm) ip =
      (case map_of (au_attempts am) ip of None \<Rightarrow> None
       | Some r \<Rightarrow> if now - att_last_seen r \<le> au_attempt_ttl_seconds am then Some r else None)"
    unfolding bm_def by (rule attempts_purge [OF assms(1)])
  then have f: "f = (case map_of (au_attempts bm) ip of None \<Rightarrow> 0 | Some r \<Rightarrow> att_count r)"
    by (simp add: f_def failures_def split: option.split)
  have same: "f \<ge> m \<Longrightarrow> map_of (au_attempts bm) ip = map_of (au_attempts am) ip"
    using look m(2) f by (auto split: option.splits if_splits)
  have del: "map_of (AList.delete ip (au_attempts bm)) ip = None" by simp
  note reg = register_failure_count [OF inv, of ip now]
  show "fst (settle_attempt now ip ok am) =
      (if f \<ge> m then (f, True, False) else if ok then (0, False, True) else (f + 1, f + 1 \<ge> m, False))"
    using reg f m unfolding settle_attempt_def Let_def bm_def [symmetric]
    by (cases "map_of (au_attempts bm) ip") (simp_all add: case_prod_beta)
  show "map_of (au_attempts (snd (settle_attempt now ip ok am))) ip =
      (if f \<ge> m then map_of (au_attempts am) ip
       else if ok then None else Some \<lparr>att_count = f + 1, att_last_seen = now\<rparr>)"
    using reg f m same unfolding settle_attempt_def Let_def bm_def [symmetric]
    by (cases "map_of (au_attempts bm) ip") (simp_all add: case_prod_beta)
qed

text \<open>The user name and password the client must present: \<^verbatim>\<open>root\<close> with the pinned password.\<close>

definition accepts :: "login_env \<Rightarrow> string \<Rightarrow> string \<Rightarrow> string \<Rightarrow> auth_manager \<Rightarrow> bool" where
  "accepts env ip u p am \<longleftrightarrow> u = ''root'' \<and> list_all (\<lambda>c. ord c < 128) p \<and>
     p = fst (get_or_pin_password ip (env_now_pin env) (env_pick env) am)"

lemma credentials_ok_accepts: "fst (credentials_ok env ip u p am) = accepts env ip u p am"
  by (auto simp: credentials_ok_def accepts_def ALLOWED_USERNAME_def compare_digest_def case_prod_beta)

lemma failures_cong:
  "auth_config a = auth_config b \<Longrightarrow> au_attempts a = au_attempts b \<Longrightarrow> failures a ip t = failures b ip t"
  by (simp add: failures_def auth_config_def cong: option.case_cong)

lemma credentials_failures:
  assumes "auth_inv am" and "env_now_pin env \<le> env_now env"
  shows "failures (snd (credentials_ok env ip u p am)) j (env_now env) = failures am j (env_now env)"
proof (cases "u = ALLOWED_USERNAME")
  case True
  have "failures (snd (credentials_ok env ip u p am)) j (env_now env) =
      failures (auth_purge (env_now_pin env) am) j (env_now env)"
    using get_or_pin_password_inv [OF assms(1), of ip "env_now_pin env" "env_pick env"] True
    by (intro failures_cong) (simp_all add: credentials_ok_def case_prod_beta)
  then show ?thesis using failures_purge [OF assms] by simp
qed (simp add: credentials_ok_def)

lemma validate_login_outcome:
  "lr_outcome (fst (validate_login env ip sid u p am l)) =
    (let (ok, bm) = credentials_ok env ip u p am;
         (n, lim, acc) = fst (settle_attempt (env_now env) ip ok bm)
     in if acc then Inr True else if lim then Inl (AuthAttemptLimitExceeded sid) else Inr False)"
  by (simp add: validate_login_def Let_def case_prod_beta)

lemma login_outcome:
  fixes am env ip
  assumes "auth_inv am" and "env_now_pin env \<le> env_now env"
  defines "f \<equiv> failures am ip (env_now env)" and "m \<equiv> au_max_attempts am"
  shows "lr_outcome (fst (validate_login env ip sid u p am l)) =
    (if f \<ge> m then Inl (AuthAttemptLimitExceeded sid)
     else if accepts env ip u p am then Inr True
     else if f + 1 \<ge> m then Inl (AuthAttemptLimitExceeded sid) else Inr False)"
proof -
  obtain ok bm where c: "credentials_ok env ip u p am = (ok, bm)" by fastforce
  have "auth_inv bm" "au_max_attempts bm = m" "failures bm ip (env_now env) = f"
    using credentials_ok_inv [OF assms(1), of env ip u p] credentials_failures [OF assms(1,2), of ip u p ip] c
    by (auto simp: m_def f_def dest: auth_config_simps)
  with settle_attempt_decision(1) [of bm "env_now env" ip ok] c credentials_ok_accepts [of env ip u p am]
  show ?thesis by (simp add: validate_login_outcome)
qed

text \<open>A record that still counts survives the purges of a login.\<close>

lemma credentials_record:
  assumes "auth_inv am" and "env_now_pin env \<le> env_now env" and "failures am ip (env_now env) > 0"
  shows "map_of (au_attempts (snd (credentials_ok env ip u p am))) ip = map_of (au_attempts am) ip"
proof -
  have "map_of (au_attempts (auth_purge (env_now_pin env) am)) ip = map_of (au_attempts am) ip"
    using assms by (auto simp: attempts_purge [OF assms(1)] failures_def split: option.splits if_splits)
  then show ?thesis
    using get_or_pin_password_inv [OF assms(1), of ip "env_now_pin env" "env_pick env"]
    by (simp add: credentials_ok_def case_prod_beta)
qed

lemma login_record:
  fixes am env ip u p
  assumes "auth_inv am" and "env_now_pin env \<le> env_now env"
  defines "f \<equiv> failures am ip (env_now env)"
  shows "map_of (au_attempts (snd (validate_login env ip sid u p am l))) ip =
    (if f \<ge> au_max_attempts am then map_of (au_attempts am) ip
     else if accepts env ip u p am then None
     else Some \<lparr>att_count = f + 1, att_last_seen = env_now env\<rparr>)"
proof -
  obtain ok bm where c: "credentials_ok env ip u p am = (ok, bm)" by fastforce
  have bm: "auth_inv bm" "au_max_attempts bm = au_max_attempts am" "failures bm ip (env_now env) = f"
    using credentials_ok_inv [OF assms(1), of env ip u p] credentials_failures [OF assms(1,2), of ip u p ip] c
    by (auto simp: f_def dest: auth_config_simps)
  have "f \<ge> au_max_attempts am \<Longrightarrow> map_of (au_attempts bm) ip = map_of (au_attempts am) ip"
    using credentials_record [OF assms(1,2), of ip u p] c assms(1) by (simp add: f_def auth_inv_def)
  with settle_attempt_decision(2) [OF bm(1), of "env_now env" ip ok] bm c
    credentials_ok_accepts [of env ip u p am]
  show ?thesis by (simp add: validate_login_state)
qed

lemma login_report:
  assumes "validate_login env ip sid u p am l = (r, am')"
  shows "lr_slept r = (if lr_outcome r = Inr True then 0 else au_tarpit_seconds am') \<and>
    (ev_success (lr_event r) \<longleftrightarrow> lr_outcome r = Inr True) \<and>
    (ev_limit_exceeded (lr_event r) \<longleftrightarrow> lr_outcome r = Inl (AuthAttemptLimitExceeded sid))"
proof -
  obtain ok bm where c: "credentials_ok env ip u p am = (ok, bm)" by fastforce
  obtain n lim acc cm where s: "settle_attempt (env_now env) ip ok bm = ((n, lim, acc), cm)"
    by (metis prod.collapse)
  show ?thesis using assms by (cases acc; cases lim) (auto simp: validate_login_def c s Let_def)
qed

subsection \<open>The logins of one address among other operations\<close>

type_synonym attempt = "login_env \<times> string \<times> string \<times> string"

text \<open>The logins of an address in a run of the manager, and their outcomes in it.\<close>

fun own_attempt :: "string \<Rightarrow> auth_op \<Rightarrow> attempt list" where
  "own_attempt ip (Login env j sid u p) = (if j = ip then [(env, sid, u, p)] else [])"
| "own_attempt ip _ = []"

fun login_outcomes :: "string \<Rightarrow> auth_op list \<Rightarrow> auth_manager \<Rightarrow> (auth_error + bool) list" where
  "login_outcomes ip [] am = []"
| "login_outcomes ip (op # ops) am =
     map (\<lambda>(env, sid, u, p). lr_outcome (fst (validate_login env ip sid u p am []))) (own_attempt ip op) @
     login_outcomes ip ops (auth_step op am)"

text \<open>The addresses whose logins a run holds, and the readings of the clock of an operation.\<close>

fun login_addrs :: "auth_op \<Rightarrow> string set" where
  "login_addrs (Login env j sid u p) = {j}"
| "login_addrs _ = {}"

fun in_window :: "int \<Rightarrow> int \<Rightarrow> auth_op \<Rightarrow> bool" where
  "in_window t w (Connect ip now pick uuid) \<longleftrightarrow> now \<le> t + w"
| "in_window t w (Login env ip sid u p) \<longleftrightarrow> env_now_pin env \<le> env_now env \<and> t \<le> env_now env \<and> env_now env \<le> t + w"
| "in_window t w (LockedOut ip now) \<longleftrightarrow> now \<le> t + w"
| "in_window t w (AuthSweep now) \<longleftrightarrow> now \<le> t + w"

definition limit_outcome :: "int \<Rightarrow> nat \<times> attempt \<Rightarrow> auth_error + bool" where
  "limit_outcome m = (\<lambda>(i, env, sid, u, p).
     if int i + 1 < m then Inr False else Inl (AuthAttemptLimitExceeded sid))"

text \<open>
  The address has \<^verbatim>\<open>k\<close> failures that count throughout the window starting at \<^verbatim>\<open>t\<close>, and its record is
  followed only by records of addresses in \<^verbatim>\<open>S\<close>.
\<close>

definition tracked :: "string set \<Rightarrow> (string \<times> attempt_record) list \<Rightarrow> string \<Rightarrow> int \<Rightarrow> int \<Rightarrow> bool" where
  "tracked S d ip t k \<longleftrightarrow>
     (if k = 0 then map_of d ip = None
      else \<exists>r. recent S ip r d \<and> att_count r = k \<and> t \<le> att_last_seen r)"

lemma auth_attempts_distinct: "auth_inv am \<Longrightarrow> distinct (map fst (au_attempts am))"
  by (simp add: auth_inv_def cache_ok_def)

lemma tracked_failures:
  assumes "auth_inv am" and "tracked S (au_attempts am) ip t k" and "now \<le> t + au_attempt_ttl_seconds am"
  shows "failures am ip now = k"
proof (cases "k = 0")
  case False
  with assms(2) obtain r where "recent S ip r (au_attempts am)" "att_count r = k" "t \<le> att_last_seen r"
    by (auto simp: tracked_def)
  with recent_lookup [OF this(1) auth_attempts_distinct [OF assms(1)]] assms(3) show ?thesis
    by (simp add: failures_def)
qed (use assms(2) in \<open>simp add: failures_def tracked_def\<close>)

lemma tracked_purge:
  assumes "auth_inv am" and "tracked S (au_attempts am) ip t k" and "now \<le> t + au_attempt_ttl_seconds am"
  shows "tracked S (au_attempts (auth_purge now am)) ip t k"
proof (cases "k = 0")
  case True
  with assms(2) attempts_purge [OF assms(1), of now ip] show ?thesis by (simp add: tracked_def)
next
  case False
  with assms(2) obtain r where r: "recent S ip r (au_attempts am)" "att_count r = k" "t \<le> att_last_seen r"
    by (auto simp: tracked_def)
  have "recent S ip r (au_attempts (auth_purge now am))"
    using attempt_cache.recent_purge [OF r(1) auth_attempts_distinct [OF assms(1)], of now "au_attempt_ttl_seconds am"]
      r(3) assms(3) by (simp add: auth_purge_def)
  with r False show ?thesis by (auto simp: tracked_def)
qed

lemma tracked_credentials:
  assumes "auth_inv am" and "tracked S (au_attempts am) ip t k" and "env_now_pin env \<le> t + au_attempt_ttl_seconds am"
  shows "tracked S (au_attempts (snd (credentials_ok env j u p am))) ip t k"
  using assms tracked_purge [OF assms] get_or_pin_password_inv [OF assms(1), of j "env_now_pin env" "env_pick env"]
  by (simp add: credentials_ok_def case_prod_beta)

lemma tracked_delete: "tracked S d ip t k \<Longrightarrow> j \<noteq> ip \<Longrightarrow> tracked S (AList.delete j d) ip t k"
  by (auto simp: tracked_def AList.delete_eq map_of_eq_None_iff intro!: recent_filter split: if_splits)

lemma absent_move_update:
  assumes "ip \<notin> fst ` set d" and "j \<noteq> ip"
  shows "map_of (move_to_end j (AList.update j x d)) ip = None"
proof -
  have "ip \<notin> fst ` set (AList.update j x d)" using assms by (simp add: dom_update)
  then have "ip \<notin> fst ` set (AList.delete j (AList.update j x d))" by (auto simp: AList.delete_eq)
  with assms show ?thesis by (simp add: move_to_end_def map_of_eq_None_iff)
qed

lemma tracked_register:
  assumes "auth_inv am" and "tracked S (au_attempts am) ip t k" and "j \<in> S - {ip}" and "finite S"
    and "int (card S) < au_max_pins am"
  shows "tracked S (au_attempts (snd (register_failure j now am))) ip t k"
proof -
  let ?d = "case map_of (au_attempts am) j of
      None \<Rightarrow> insert_new (au_max_pins am) j \<lparr>att_count = 0, att_last_seen = now\<rparr> (au_attempts am)
    | Some r \<Rightarrow> au_attempts am"
  note dist = auth_attempts_distinct [OF assms(1)]
  show ?thesis
  proof (cases "k = 0")
    case True
    with assms(2) have "ip \<notin> fst ` set (au_attempts am)" by (simp add: tracked_def map_of_eq_None_iff)
    then have "ip \<notin> fst ` set ?d"
      using set_mono_suffix [OF evict_suffix [of "au_max_pins am" "au_attempts am"]] assms(3)
      by (auto simp: insert_new_def dom_update split: option.split)
    then have "map_of (move_to_end j (AList.update j x ?d)) ip = None" for x
      using assms(3) by (intro absent_move_update) simp_all
    with True show ?thesis unfolding register_failure_attempts [OF assms(1)] Let_def tracked_def by simp
  next
    case False
    with assms(2) obtain r where r: "recent S ip r (au_attempts am)" "att_count r = k" "t \<le> att_last_seen r"
      by (auto simp: tracked_def)
    have "recent S ip r ?d"
      using recent_insert [OF r(1) assms(3) dist assms(4,5)] r(1) by (auto split: option.split)
    then have "recent S ip r (move_to_end j (AList.update j x ?d))" for x
      by (intro recent_move recent_update assms(3))
    with r False show ?thesis unfolding register_failure_attempts [OF assms(1)] Let_def tracked_def by auto
  qed
qed

lemma tracked_settle_other:
  assumes "auth_inv am" and "tracked S (au_attempts am) ip t k" and "j \<in> S - {ip}" and "finite S"
    and "int (card S) < au_max_pins am" and "now \<le> t + au_attempt_ttl_seconds am"
  shows "tracked S (au_attempts (snd (settle_attempt now j ok am))) ip t k"
proof -
  define bm where "bm = auth_purge now am"
  have bm: "auth_inv bm" "tracked S (au_attempts bm) ip t k" "int (card S) < au_max_pins bm"
    using auth_purge_inv [OF assms(1)] tracked_purge [OF assms(1,2,6)] assms(5)
    by (simp_all add: bm_def) (simp add: auth_purge_def)
  show ?thesis
    using bm(2) tracked_delete [OF bm(2), of j] tracked_register [OF bm(1,2) assms(3,4) bm(3)] assms(3)
    unfolding settle_attempt_def Let_def bm_def [symmetric]
    by (auto simp: case_prod_beta split: option.split)
qed

lemma tracked_settle_own:
  fixes am now k
  assumes "auth_inv am" and "tracked S (au_attempts am) ip t k" and "t \<le> now"
    and "now \<le> t + au_attempt_ttl_seconds am" and "\<not> (k < au_max_attempts am \<and> ok)"
  shows "tracked S (au_attempts (snd (settle_attempt now ip ok am))) ip t (min (k + 1) (au_max_attempts am))"
proof -
  define bm where "bm = auth_purge now am"
  define m where "m = au_max_attempts am"
  have bm: "auth_inv bm" "tracked S (au_attempts bm) ip t k" "au_max_attempts bm = m" "1 \<le> m"
    using auth_purge_inv [OF assms(1)] tracked_purge [OF assms(1,2,4)] assms(1)
    by (simp_all add: bm_def m_def auth_inv_def) (simp add: auth_purge_def)
  have f: "failures am ip now = k" using tracked_failures [OF assms(1,2,4)] .
  then have k: "0 \<le> k" "k \<le> m" using failures_bounds [OF assms(1), of ip now] by (simp_all add: m_def)
  have look: "(case map_of (au_attempts bm) ip of None \<Rightarrow> 0 | Some r \<Rightarrow> att_count r) = k"
    using f attempts_purge [OF assms(1), of now ip] by (auto simp: bm_def failures_def split: option.splits)
  show ?thesis
  proof (cases "k = m")
    case True
    then have "snd (settle_attempt now ip ok am) = bm"
      using look bm(3,4) unfolding settle_attempt_def Let_def bm_def [symmetric] by (auto split: option.splits)
    with True bm(2) show ?thesis by (simp add: m_def)
  next
    case False
    then have "snd (settle_attempt now ip ok am) = snd (register_failure ip now bm)"
      using look bm(3) k assms(5) unfolding settle_attempt_def Let_def bm_def [symmetric]
      by (auto simp: case_prod_beta m_def split: option.splits)
    moreover have "recent S ip \<lparr>att_count = k + 1, att_last_seen = now\<rparr> (au_attempts (snd (register_failure ip now bm)))"
      unfolding register_failure_attempts [OF bm(1)] Let_def look by (simp add: move_to_end_def recent_last)
    ultimately show ?thesis using k False assms(3) by (auto simp: tracked_def m_def)
  qed
qed

lemma tracked_step:
  assumes "auth_inv am" and "tracked S (au_attempts am) ip t k" and "finite S" and "int (card S) < au_max_pins am"
    and "in_window t (au_attempt_ttl_seconds am) op" and "login_addrs op - {ip} \<subseteq> S" and "own_attempt ip op = []"
  shows "tracked S (au_attempts (auth_step op am)) ip t k"
proof (cases op)
  case (Connect j now pick uuid)
  then show ?thesis
    using tracked_purge [OF assms(1,2), of now] assms(5) get_or_pin_password_inv [OF assms(1), of j now pick]
    by (simp add: create_session_def)
next
  case (Login env j sid u p)
  let ?bm = "snd (credentials_ok env j u p am)"
  have j: "j \<in> S - {ip}" using assms(6,7) Login by (auto split: if_splits)
  have bm: "auth_inv ?bm" "auth_config ?bm = auth_config am" using credentials_ok_inv [OF assms(1)] by simp_all
  have "tracked S (au_attempts ?bm) ip t k"
    by (rule tracked_credentials [OF assms(1,2)]) (use assms(5) Login in simp)
  from tracked_settle_other [OF bm(1) this j assms(3), of "env_now env"] assms(4,5) Login auth_config_simps [OF bm(2)]
  show ?thesis by (simp add: validate_login_state case_prod_beta)
next
  case (LockedOut j now)
  then show ?thesis using tracked_purge [OF assms(1,2)] assms(5) by (simp add: is_locked_out_def Let_def)
next
  case (AuthSweep now)
  then show ?thesis using tracked_purge [OF assms(1,2)] assms(5) by (simp add: auth_sweep_def Let_def)
qed

lemma tracked_own:
  assumes "auth_inv am" and "tracked S (au_attempts am) ip t k"
    and "in_window t (au_attempt_ttl_seconds am) (Login env ip sid u p)"
    and "\<not> (k < au_max_attempts am \<and> accepts env ip u p am)"
  shows "tracked S (au_attempts (auth_step (Login env ip sid u p) am)) ip t (min (k + 1) (au_max_attempts am))"
proof -
  let ?bm = "snd (credentials_ok env ip u p am)"
  have bm: "auth_inv ?bm" "auth_config ?bm = auth_config am" using credentials_ok_inv [OF assms(1)] by simp_all
  have "tracked S (au_attempts ?bm) ip t k"
    by (rule tracked_credentials [OF assms(1,2)]) (use assms(3) in simp)
  from tracked_settle_own [OF bm(1) this, of "env_now env" "fst (credentials_ok env ip u p am)"]
    assms(3,4) auth_config_simps [OF bm(2)] credentials_ok_accepts [of env ip u p am]
  show ?thesis by (simp add: validate_login_state case_prod_beta)
qed

lemma lockout_run:
  assumes "auth_inv am" and "tracked S (au_attempts am) ip t (min (int n) (au_max_attempts am))"
    and "list_all (\<lambda>op. in_window t (au_attempt_ttl_seconds am) op \<and> login_addrs op - {ip} \<subseteq> S) ops"
    and "finite S" and "int (card S) < au_max_pins am"
    and "Inr True \<notin> set (take (nat (au_max_attempts am - int n)) (login_outcomes ip ops am))"
  shows "login_outcomes ip ops am =
    map (limit_outcome (au_max_attempts am)) (enumerate n (concat (map (own_attempt ip) ops)))"
  using assms(1-3,5,6)
proof (induction ops arbitrary: am n)
  case (Cons op ops)
  define m where "m = au_max_attempts am"
  define am' where "am' = auth_step op am"
  have win: "in_window t (au_attempt_ttl_seconds am) op" "login_addrs op - {ip} \<subseteq> S" using Cons.prems(3) by simp_all
  have am': "auth_inv am'" "au_max_attempts am' = m" "au_attempt_ttl_seconds am' = au_attempt_ttl_seconds am"
    "au_max_pins am' = au_max_pins am"
    using auth_step_inv [OF Cons.prems(1), of op] by (auto simp: am'_def m_def dest: auth_config_simps)
  have rest: "list_all (\<lambda>op. in_window t (au_attempt_ttl_seconds am') op \<and> login_addrs op - {ip} \<subseteq> S) ops"
    using Cons.prems(3) am'(3) by simp
  show ?case
  proof (cases "own_attempt ip op")
    case Nil
    have "tracked S (au_attempts am') ip t (min (int n) m)"
      unfolding am'_def m_def by (rule tracked_step [OF Cons.prems(1,2) assms(4) Cons.prems(4) win Nil])
    with Cons.IH [of am' n] Cons.prems am' rest Nil show ?thesis by (simp add: m_def am'_def)
  next
    case (Cons a as)
    then obtain env sid u p where op: "op = Login env ip sid u p" by (cases op) (auto split: if_splits)
    define o1 where "o1 = lr_outcome (fst (validate_login env ip sid u p am []))"
    have f: "failures am ip (env_now env) = min (int n) m"
      using tracked_failures [OF Cons.prems(1,2)] win(1) op by (simp add: m_def)
    have out: "o1 = (if min (int n) m \<ge> m then Inl (AuthAttemptLimitExceeded sid)
         else if accepts env ip u p am then Inr True
         else if min (int n) m + 1 \<ge> m then Inl (AuthAttemptLimitExceeded sid) else Inr False)"
      using login_outcome [OF Cons.prems(1), of env ip sid u p "[]"] win(1) op f by (simp add: o1_def m_def)
    have run: "login_outcomes ip (op # ops) am = o1 # login_outcomes ip ops am'"
      by (simp add: op am'_def o1_def)
    have notacc: "\<not> (int n < m \<and> accepts env ip u p am)"
      using Cons.prems(5) out unfolding run by (auto simp: m_def take_Cons' min_def split: if_splits)
    have "tracked S (au_attempts am') ip t (min (min (int n) m + 1) m)"
      unfolding am'_def op m_def
      by (rule tracked_own [OF Cons.prems(1,2)]) (use win(1) op notacc in \<open>auto simp: m_def\<close>)
    moreover have "min (min (int n) m + 1) m = min (int (Suc n)) m" by simp
    moreover have "Inr True \<notin> set (take (nat (m - int (Suc n))) (login_outcomes ip ops am'))"
    proof -
      have "nat (m - int (Suc n)) = nat (m - int n) - 1" by simp
      then show ?thesis using Cons.prems(5) unfolding run by (auto simp: m_def take_Cons' split: if_splits)
    qed
    ultimately have "login_outcomes ip ops am' =
        map (limit_outcome m) (enumerate (Suc n) (concat (map (own_attempt ip) ops)))"
      using Cons.IH [of am' "Suc n"] am' rest Cons.prems(4) by simp
    moreover have "o1 = limit_outcome m (n, env, sid, u, p)"
      unfolding out using notacc by (auto simp: limit_outcome_def min_def)
    ultimately show ?thesis unfolding run by (simp add: op m_def)
  qed
qed simp

subsection \<open>Pins under load\<close>

fun auth_addrs :: "auth_op \<Rightarrow> string set" where
  "auth_addrs (Connect ip now pick uuid) = {ip}"
| "auth_addrs (Login env ip sid u p) = {ip}"
| "auth_addrs (LockedOut ip now) = {}"
| "auth_addrs (AuthSweep now) = {}"

fun auth_time :: "auth_op \<Rightarrow> int" where
  "auth_time (Connect ip now pick uuid) = now"
| "auth_time (Login env ip sid u p) = max (env_now_pin env) (env_now env)"
| "auth_time (LockedOut ip now) = now"
| "auth_time (AuthSweep now) = now"

lemma auth_pins_distinct: "auth_inv am \<Longrightarrow> distinct (map fst (au_pins am))"
  by (simp add: auth_inv_def cache_ok_def)

lemma auth_purge_recent:
  assumes "auth_inv am" and "recent S ip r (au_pins am)" and "now - pin_last_seen r \<le> au_ttl_seconds am"
  shows "recent S ip r (au_pins (auth_purge now am))"
  using pin_cache.recent_purge [OF assms(2) auth_pins_distinct [OF assms(1)] assms(3)]
  by (simp add: auth_purge_def)

lemma get_or_pin_recent:
  assumes "auth_inv am" and "recent S ip r (au_pins am)" and "j \<in> S - {ip}" and "finite S"
    and "int (card S) < au_max_pins am" and "now - pin_last_seen r \<le> au_ttl_seconds am"
  shows "recent S ip r (au_pins (snd (get_or_pin_password j now pick am)))"
  using pin_cache.access_recent [OF assms(2) auth_pins_distinct [OF assms(1)] assms(3-6)]
  by (auto simp: get_or_pin_password_def auth_purge_def Let_def split: option.splits)

lemma auth_step_recent:
  assumes "auth_inv am" and "recent S ip r (au_pins am)" and "auth_addrs op \<subseteq> S - {ip}" and "finite S"
    and "int (card S) < au_max_pins am" and "auth_time op - pin_last_seen r \<le> au_ttl_seconds am"
  shows "recent S ip r (au_pins (auth_step op am))"
proof (cases op)
  case (Connect j now pick uuid)
  then show ?thesis using get_or_pin_recent [OF assms(1,2)] assms by (simp add: create_session_def)
next
  case (Login env j sid u p)
  let ?bm = "snd (credentials_ok env j u p am)"
  have "recent S ip r (au_pins ?bm)"
    using get_or_pin_recent [OF assms(1,2), of j "env_now_pin env" "env_pick env"] assms Login
    by (simp add: credentials_ok_def case_prod_beta)
  moreover have bm: "auth_inv ?bm" "au_ttl_seconds ?bm = au_ttl_seconds am"
    using credentials_ok_inv [OF assms(1), of env j u p] by (auto dest: auth_config_simps)
  ultimately have "recent S ip r (au_pins (auth_purge (env_now env) ?bm))"
    using auth_purge_recent [OF bm(1), of S ip r "env_now env"] assms(6) Login by simp
  then show ?thesis
    using settle_attempt_inv [OF bm(1)] Login by (simp add: validate_login_state case_prod_beta)
next
  case (LockedOut j now)
  then show ?thesis using auth_purge_recent [OF assms(1,2)] assms(6) by (simp add: is_locked_out_def Let_def)
next
  case (AuthSweep now)
  then show ?thesis using auth_purge_recent [OF assms(1,2)] assms(6) by (simp add: auth_sweep_def Let_def)
qed

lemma auth_run_recent:
  assumes "auth_inv am" and "recent S ip r (au_pins am)"
    and "\<forall>op\<in>set ops. auth_addrs op \<subseteq> S - {ip} \<and> auth_time op - pin_last_seen r \<le> au_ttl_seconds am"
    and "finite S" and "int (card S) < au_max_pins am"
  shows "recent S ip r (au_pins (fold auth_step ops am)) \<and> auth_inv (fold auth_step ops am) \<and>
    auth_config (fold auth_step ops am) = auth_config am"
  using assms
proof (induction ops arbitrary: am)
  case (Cons op ops)
  have "recent S ip r (au_pins (auth_step op am))"
    by (rule auth_step_recent) (use Cons.prems in auto)
  moreover have "au_ttl_seconds (auth_step op am) = au_ttl_seconds am"
    "au_max_pins (auth_step op am) = au_max_pins am"
    using auth_step_inv [OF Cons.prems(1), of op] by (auto dest: auth_config_simps)
  ultimately show ?case using Cons.IH [of "auth_step op am"] Cons.prems auth_step_inv [of am op] by simp
qed simp

lemma get_or_pin_last:
  assumes "auth_inv am"
  shows "recent S ip \<lparr>pin_password = fst (get_or_pin_password ip t pick am), pin_last_seen = t\<rparr>
    (au_pins (snd (get_or_pin_password ip t pick am)))"
proof (cases "map_of (au_pins (auth_purge t am)) ip")
  case None
  then have "map_of (evict (au_max_pins am) (au_pins (auth_purge t am))) ip = None"
    using set_mono_suffix [OF evict_suffix [of "au_max_pins am" "au_pins (auth_purge t am)"]]
    by (auto simp: map_of_eq_None_iff)
  moreover have "au_max_pins (auth_purge t am) = au_max_pins am" by (simp add: auth_purge_def)
  ultimately show ?thesis
    using None by (simp add: get_or_pin_password_def Let_def insert_new_def keys_update_absent recent_last)
next
  case (Some w)
  then show ?thesis
    by (cases w) (simp add: get_or_pin_password_def Let_def refresh_def move_to_end_def recent_last)
qed

lemma get_or_pin_within:
  assumes "auth_inv am" and "recent S ip r (au_pins am)" and "now - pin_last_seen r \<le> au_ttl_seconds am"
  shows "fst (get_or_pin_password ip now pick am) = pin_password r"
proof -
  have "map_of (au_pins (auth_purge now am)) ip = Some r"
    using recent_lookup [OF auth_purge_recent [OF assms]] auth_pins_distinct [OF auth_purge_inv [OF assms(1)]]
    by simp
  then show ?thesis by (simp add: get_or_pin_password_def Let_def)
qed

subsection \<open>Properties\<close>

text \<open>
  Bounded memory: in every run of connections, logins, lockout queries and sweeps from a freshly
  constructed manager, at any clock readings, at most \<^verbatim>\<open>max_pins\<close> passwords and at most \<^verbatim>\<open>max_pins\<close>
  failure counters are kept, each address having at most one of each; every pinned password is one of
  the configured weak passwords and every counter lies between one and \<^verbatim>\<open>max_attempts\<close>.
\<close>

theorem auth_bounded:
  assumes "AuthManager ps tarpit max_att max_p ttl att_ttl = Inr am"
  shows "let am' = fold auth_step ops am in
    auth_len am' \<le> max_p \<and> int (length (au_attempts am')) \<le> max_p \<and>
    distinct (map fst (au_pins am')) \<and> distinct (map fst (au_attempts am')) \<and>
    all_values (\<lambda>r. pin_password r \<in> set ps) (au_pins am') \<and>
    all_values (\<lambda>r. 1 \<le> att_count r \<and> att_count r \<le> max_att) (au_attempts am')"
proof -
  have am: "au_passwords am = ps" "au_max_attempts am = max_att" "au_max_pins am = max_p"
    using assms by (auto simp: AuthManager_def split: if_splits)
  have "auth_inv (fold auth_step ops am) \<and> auth_config (fold auth_step ops am) = auth_config am"
    by (rule auth_steps.run_inv) (simp add: AuthManager_inv [OF assms])
  with am show ?thesis
    by (auto simp: auth_inv_def cache_ok_def auth_len_def Let_def dest: auth_config_simps)
qed

text \<open>
  C23. The decision of every login, with the counter it leaves: an address whose counted failures
  have reached \<^verbatim>\<open>max_attempts\<close> is refused with the limit error whatever it presents, and its record
  stays as it was (the lockout is neither lifted nor prolonged); otherwise \<^verbatim>\<open>root\<close> with the pinned
  password, and nothing else, is accepted without delay and clears the record; any other attempt is
  refused after the tarpit delay, counts one more failure and raises the limit error exactly when the
  count reaches \<^verbatim>\<open>max_attempts\<close>.
\<close>

theorem login_decision:
  assumes "auth_inv am" and "env_now_pin env \<le> env_now env"
  shows "let (r, am') = validate_login env ip sid u p am l;
             f = failures am ip (env_now env);
             m = au_max_attempts am
    in (if f \<ge> m then
          lr_outcome r = Inl (AuthAttemptLimitExceeded sid) \<and>
          map_of (au_attempts am') ip = map_of (au_attempts am) ip
        else if accepts env ip u p am then
          lr_outcome r = Inr True \<and> map_of (au_attempts am') ip = None
        else
          lr_outcome r = (if f + 1 \<ge> m then Inl (AuthAttemptLimitExceeded sid) else Inr False) \<and>
          map_of (au_attempts am') ip = Some \<lparr>att_count = f + 1, att_last_seen = env_now env\<rparr>) \<and>
       lr_slept r = (if lr_outcome r = Inr True then 0 else au_tarpit_seconds am) \<and>
       (ev_success (lr_event r) \<longleftrightarrow> lr_outcome r = Inr True) \<and>
       (ev_limit_exceeded (lr_event r) \<longleftrightarrow> lr_outcome r = Inl (AuthAttemptLimitExceeded sid))"
proof -
  obtain r am' where v: "validate_login env ip sid u p am l = (r, am')" by fastforce
  have cfg: "auth_config am' = auth_config am"
    using validate_login_inv [OF assms(1), of env ip sid u p l] v by simp
  have "lr_slept r = (if lr_outcome r = Inr True then 0 else au_tarpit_seconds am)"
    "ev_success (lr_event r) \<longleftrightarrow> lr_outcome r = Inr True"
    "ev_limit_exceeded (lr_event r) \<longleftrightarrow> lr_outcome r = Inl (AuthAttemptLimitExceeded sid)"
    using login_report [OF v] auth_config_simps(2) [OF cfg] by simp_all
  then show ?thesis
    using login_outcome [OF assms, of ip sid u p l] login_record [OF assms, of ip sid u p l] v
    by (simp add: Let_def split: if_splits)
qed

text \<open>
  C4. Lockout: take any run of connections, logins, lockout queries and sweeps whose clock readings lie
  within \<^verbatim>\<open>attempt_ttl_seconds\<close> of its start, an address without a failure record at the start, and let
  fewer than \<^verbatim>\<open>max_pins\<close> other addresses log in during the run.  If the first \<^verbatim>\<open>max_attempts\<close> logins of
  the address are not accepted, it gets exactly \<^verbatim>\<open>max_attempts - 1\<close> plain refusals; its login number
  \<^verbatim>\<open>max_attempts\<close> and every later one of the run raises the limit error, also one that presents the
  right user name and password.
\<close>

theorem lockout:
  assumes "auth_inv am" and "map_of (au_attempts am) ip = None"
    and "list_all (in_window t (au_attempt_ttl_seconds am)) ops"
    and "int (card (\<Union> (login_addrs ` set ops) - {ip})) < au_max_pins am"
    and "Inr True \<notin> set (take (nat (au_max_attempts am)) (login_outcomes ip ops am))"
  shows "login_outcomes ip ops am =
    map (limit_outcome (au_max_attempts am)) (enumerate 0 (concat (map (own_attempt ip) ops)))"
proof (rule lockout_run [OF assms(1), where S = "\<Union> (login_addrs ` set ops) - {ip}" and t = t])
  have "finite (login_addrs op)" for op by (cases op) auto
  then show "finite (\<Union> (login_addrs ` set ops) - {ip})" by simp
  show "tracked (\<Union> (login_addrs ` set ops) - {ip}) (au_attempts am) ip t (min (int 0) (au_max_attempts am))"
    using assms(1,2) by (simp add: tracked_def auth_inv_def min_def)
  show "list_all (\<lambda>op. in_window t (au_attempt_ttl_seconds am) op \<and>
      login_addrs op - {ip} \<subseteq> \<Union> (login_addrs ` set ops) - {ip}) ops"
    using assms(3) by (auto simp: list_all_iff)
qed (use assms in simp_all)

text \<open>
  C38. Pinned passwords are stable: after an address is given a password, it is asked for the same
  one at every time within the TTL, whatever the random choice would be then, as long as fewer than
  \<^verbatim>\<open>max_pins\<close> other addresses connect or log in meanwhile (lockout queries and sweeps do not count).
\<close>

theorem pin_stable:
  assumes "auth_inv am" and "get_or_pin_password ip t pick am = (pw, am1)"
    and "\<forall>op\<in>set ops. ip \<notin> auth_addrs op \<and> auth_time op - t \<le> au_ttl_seconds am"
    and "int (card (\<Union> (auth_addrs ` set ops))) < au_max_pins am"
    and "now - t \<le> au_ttl_seconds am"
  shows "fst (get_or_pin_password ip now pick' (fold auth_step ops am1)) = pw"
proof -
  define S where "S = \<Union> (auth_addrs ` set ops)"
  have am1: "auth_inv am1" "au_ttl_seconds am1 = au_ttl_seconds am" "au_max_pins am1 = au_max_pins am"
    using get_or_pin_password_inv [OF assms(1), of ip t pick] assms(2) by (auto dest: auth_config_simps)
  have "finite (auth_addrs op)" for op by (cases op) auto
  then have fin: "finite S" unfolding S_def by simp
  let ?r = "\<lparr>pin_password = pw, pin_last_seen = t\<rparr>"
  have r: "recent S ip ?r (au_pins am1)" using get_or_pin_last [OF assms(1), of S ip t pick] assms(2) by simp
  have run: "recent S ip ?r (au_pins (fold auth_step ops am1)) \<and> auth_inv (fold auth_step ops am1) \<and>
      auth_config (fold auth_step ops am1) = auth_config am1"
    by (rule auth_run_recent [OF am1(1) r _ fin]) (use assms(3,4) am1 in \<open>auto simp: S_def\<close>)
  then show ?thesis
    using get_or_pin_within [of "fold auth_step ops am1" S ip ?r now pick'] assms(5) am1(2)
    by (auto dest: auth_config_simps)
qed

definition tiny_auth :: auth_manager where
  "tiny_auth = \<lparr>au_passwords = [''toor'', ''admin''], au_tarpit_seconds = 2, au_max_attempts = 2,
     au_max_pins = 2, au_ttl_seconds = 100, au_attempt_ttl_seconds = 10, au_pins = [], au_attempts = []\<rparr>"

definition tiny_env :: "int \<Rightarrow> login_env" where
  "tiny_env now = \<lparr>env_now_pin = now, env_now = now, env_pick = 0, env_timestamp = ''t'', env_io_ok = True\<rparr>"

lemma tiny_auth_inv: "auth_inv tiny_auth"
  by (simp add: tiny_auth_def auth_inv_def)

theorem auth_bounded_witness:
  "AuthManager [''toor'', ''admin''] 2 2 2 100 10 = Inr tiny_auth \<and>
   auth_len (fold auth_step [Connect ''a'' 0 0 ''x'', Connect ''b'' 1 1 ''y'', Connect ''c'' 2 1 ''z''] tiny_auth) \<le> 2"
proof -
  have "AuthManager [''toor'', ''admin''] 2 2 2 100 10 = Inr tiny_auth"
    by (simp add: AuthManager_def tiny_auth_def)
  from this auth_bounded [OF this] show ?thesis unfolding Let_def by blast
qed

theorem login_decision_witness:
  "auth_inv tiny_auth \<and> accepts (tiny_env 5) ''a'' ''root'' ''toor'' tiny_auth \<and>
   lr_outcome (fst (validate_login (tiny_env 5) ''a'' ''s'' ''root'' ''toor'' tiny_auth [])) = Inr True"
proof -
  have "accepts (tiny_env 5) ''a'' ''root'' ''toor'' tiny_auth"
    "failures tiny_auth ''a'' (env_now (tiny_env 5)) = 0" "au_max_attempts tiny_auth = 2"
    by (code_simp, code_simp, code_simp)
  with login_decision [OF tiny_auth_inv, of "tiny_env 5" "''a''" "''s''" "''root''" "''toor''" "[]"] tiny_auth_inv
  show ?thesis by (simp add: tiny_env_def case_prod_beta Let_def)
qed

theorem lockout_witness:
  "login_outcomes ''a'' [Login (tiny_env 0) ''a'' ''s'' ''root'' ''x'', Login (tiny_env 1) ''b'' ''s'' ''root'' ''x'',
      AuthSweep 1, Login (tiny_env 1) ''a'' ''s'' ''admin'' ''x'', Login (tiny_env 2) ''a'' ''s'' ''root'' ''toor''] tiny_auth =
   [Inr False, Inl (AuthAttemptLimitExceeded ''s''), Inl (AuthAttemptLimitExceeded ''s'')]"
proof -
  let ?ops = "[Login (tiny_env 0) ''a'' ''s'' ''root'' ''x'', Login (tiny_env 1) ''b'' ''s'' ''root'' ''x'',
      AuthSweep 1, Login (tiny_env 1) ''a'' ''s'' ''admin'' ''x'', Login (tiny_env 2) ''a'' ''s'' ''root'' ''toor'']"
  have "list_all (in_window 0 (au_attempt_ttl_seconds tiny_auth)) ?ops" by code_simp
  moreover have "Inr True \<notin> set (take (nat (au_max_attempts tiny_auth)) (login_outcomes ''a'' ?ops tiny_auth))"
    by code_simp
  moreover have "\<Union> (login_addrs ` set ?ops) - {''a''} = {''b''}" by auto
  then have "int (card (\<Union> (login_addrs ` set ?ops) - {''a''})) < au_max_pins tiny_auth"
    by (simp only:) (simp add: tiny_auth_def)
  moreover have "map_of (au_attempts tiny_auth) ''a'' = None" by (simp add: tiny_auth_def)
  ultimately have "login_outcomes ''a'' ?ops tiny_auth =
      map (limit_outcome (au_max_attempts tiny_auth)) (enumerate 0 (concat (map (own_attempt ''a'') ?ops)))"
    using lockout [OF tiny_auth_inv, of "''a''" 0 ?ops] by blast
  also have "\<dots> = [Inr False, Inl (AuthAttemptLimitExceeded ''s''), Inl (AuthAttemptLimitExceeded ''s'')]"
    by code_simp
  finally show ?thesis .
qed

theorem pin_stable_witness:
  "fst (get_or_pin_password ''a'' 90 1
     (fold auth_step [Connect ''b'' 3 1 ''x'', Login (tiny_env 50) ''b'' ''s'' ''root'' ''x'', AuthSweep 80]
       (snd (get_or_pin_password ''a'' 0 0 tiny_auth)))) = ''toor''"
proof -
  have "get_or_pin_password ''a'' 0 0 tiny_auth = (''toor'', snd (get_or_pin_password ''a'' 0 0 tiny_auth))"
    by code_simp
  then show ?thesis
    by (rule pin_stable [OF tiny_auth_inv]) (simp_all add: tiny_auth_def tiny_env_def)
qed

end
