(* ===== verification/Server_Channel.thy ===== *)
theory Server_Channel
  imports Prelude
begin

text \<open>
  Line endings on the SSH channel: \<^verbatim>\<open>normalize_crlf\<close> and \<^verbatim>\<open>_channel_write\<close> of \<^verbatim>\<open>src/server.py\<close>.  A write
  is an option: what reaches the stream's \<^verbatim>\<open>write\<close> method, if it is called.
\<close>

subsection \<open>Definitions\<close>

definition to_unix :: "string \<Rightarrow> string" where
  "to_unix text = replace [cr] [nl] (replace [cr, nl] [nl] text)"

definition normalize_crlf :: "string \<Rightarrow> string" where
  "normalize_crlf text =
     (if text = [] then []
      else
        (let unix = to_unix text;
             trailing = endswith unix [nl];
             body = (if trailing then butlast unix else unix);
             converted = replace [nl] [cr, nl] body
         in if trailing then converted @ [cr, nl] else converted))"

definition channel_write :: "bool \<Rightarrow> bool \<Rightarrow> string \<Rightarrow> string option" where
  "channel_write has_writer complete text =
     (if \<not> has_writer \<or> text = [] then None
      else
        (let payload = (if complete \<and> \<not> endswith text [nl] then text @ [nl] else text)
         in Some (normalize_crlf payload)))"

subsection \<open>Lemmas\<close>

text \<open>Replacing one character is a map over the characters.\<close>

lemma replace_char: "replace [a] new s = concat (map (\<lambda>c. if c = a then new else [c]) s)"
  by (induction s) auto

lemma replace_char_absent: "a \<notin> set u \<Longrightarrow> replace [a] new u = u"
  by (induction u) auto

definition crlf :: "string \<Rightarrow> string" where
  "crlf u = concat (map (\<lambda>c. if c = nl then [cr, nl] else [c]) u)"

lemma crlf_append: "crlf (u @ v) = crlf u @ crlf v"
  by (simp add: crlf_def)

lemma to_unix_no_cr: "cr \<notin> set (to_unix s)"
  by (auto simp: to_unix_def replace_char)

lemma normalize_crlf_eq: "normalize_crlf s = crlf (to_unix s)"
proof (cases "endswith (to_unix s) [nl]")
  case True
  then obtain u where u: "to_unix s = u @ [nl]" by (auto simp: endswith_def suffix_def)
  then have "s \<noteq> []" by (auto simp: to_unix_def)
  then show ?thesis
    using True u by (simp add: normalize_crlf_def Let_def replace_char crlf_def [symmetric] crlf_append)
      (simp add: crlf_def)
next
  case False
  then show ?thesis
    by (cases "s = []") (simp_all add: normalize_crlf_def Let_def replace_char crlf_def to_unix_def)
qed

lemma to_unix_crlf: "cr \<notin> set u \<Longrightarrow> to_unix (crlf u) = u"
proof -
  assume u: "cr \<notin> set u"
  then have "replace [cr, nl] [nl] (crlf u) = u" by (induction u) (auto simp: crlf_def)
  with u show ?thesis by (simp add: to_unix_def replace_char_absent)
qed

text \<open>Every carriage return is followed by a line feed and every line feed follows one.\<close>

fun paired_crlf :: "string \<Rightarrow> bool" where
  "paired_crlf [] = True"
| "paired_crlf (c # s) =
     (if c = cr then (case s of [] \<Rightarrow> False | d # s' \<Rightarrow> d = nl \<and> paired_crlf s')
      else c \<noteq> nl \<and> paired_crlf s)"

lemma paired_crlf_crlf: "cr \<notin> set u \<Longrightarrow> paired_crlf (crlf u)"
  by (induction u) (auto simp: crlf_def)

lemma crlf_eq_Nil: "crlf u = [] \<longleftrightarrow> u = []"
  by (cases u) (auto simp: crlf_def)

lemma endswith_crlf: "endswith u [nl] \<Longrightarrow> endswith (crlf u) [cr, nl]"
  by (auto simp: endswith_def suffix_def crlf_append) (simp add: crlf_def)

lemma to_unix_append_nl: "endswith (to_unix (s @ [nl])) [nl]"
proof -
  have "\<exists>r. replace [cr, nl] [nl] (s @ [nl]) = r @ [nl]"
  proof (induction s rule: length_induct)
    case (1 s)
    show ?case
    proof (cases s)
      case (Cons c t)
      show ?thesis
      proof (cases "c = cr \<and> prefix [nl] (t @ [nl])")
        case True
        show ?thesis
        proof (cases t)
          case Nil
          then show ?thesis using True Cons by simp
        next
          case (Cons d u)
          then have "length u < length s" using \<open>s = c # t\<close> by simp
          with 1 obtain r where "replace [cr, nl] [nl] (u @ [nl]) = r @ [nl]" by blast
          then show ?thesis using True Cons \<open>s = c # t\<close> by simp
        qed
      next
        case False
        with 1 Cons obtain r where "replace [cr, nl] [nl] (t @ [nl]) = r @ [nl]" by auto
        with Cons False show ?thesis by auto
      qed
    qed simp
  qed
  then show ?thesis by (auto simp: to_unix_def replace_char endswith_def)
qed

subsection \<open>Property\<close>

text \<open>
  Line endings sent to the client: the text written has only \<^verbatim>\<open>\r\n\<close> line endings (no bare carriage
  return, no bare line feed), keeps the lines of the original, is a fixed point of the normalization,
  and a completed write ends with a line ending; nothing is written for the empty text.
\<close>

theorem channel_write_crlf:
  "(case channel_write True complete text of
      None \<Rightarrow> text = []
    | Some w \<Rightarrow> text \<noteq> [] \<and> paired_crlf w \<and> normalize_crlf w = w \<and>
        to_unix w = to_unix (if complete \<and> \<not> endswith text [nl] then text @ [nl] else text) \<and>
        (if complete then endswith w [cr, nl] else True))"
proof -
  have "endswith text [nl] \<or> endswith (text @ [nl]) [nl]" by (simp add: endswith_def)
  moreover have "endswith t [nl] \<Longrightarrow> endswith (to_unix t) [nl]" for t
    using to_unix_append_nl by (auto simp: endswith_def suffix_def)
  ultimately show ?thesis
    by (auto simp: channel_write_def Let_def normalize_crlf_eq paired_crlf_crlf to_unix_no_cr to_unix_crlf
        endswith_crlf to_unix_append_nl split: option.split)
qed

end
