(* ===== verification/Server_Session.thy ===== *)
theory Server_Session
  imports Shell_Properties Session_Manager Auth_Properties Server_Channel
begin

text \<open>
  The rest of \<^verbatim>\<open>src/server.py\<close>: the callbacks of \<^verbatim>\<open>HoneypotServer\<close>, the client handler, which runs a
  shell over the lines of the channel, and the periodic sweep.  The objects of AsyncSSH are reduced to
  what the code reads from them: the peer name, the extra information of the connection and the lines
  of the standard input.
\<close>

subsection \<open>Constants\<close>

definition BANNER :: string where
  "BANNER = ''Welcome to Ubuntu 22.04.3 LTS (GNU/Linux 5.15.0-88-generic x86_64)''"

text \<open>The defaults of \<^verbatim>\<open>src/auth.py\<close> and \<^verbatim>\<open>src/session_manager.py\<close>, in seconds where they are times.\<close>

definition TARPIT_SECONDS :: int where
  "TARPIT_SECONDS = 2"

definition DEFAULT_MAX_ATTEMPTS :: int where
  "DEFAULT_MAX_ATTEMPTS = 3"

definition DEFAULT_MAX_PINS :: int where
  "DEFAULT_MAX_PINS = 500"

definition DEFAULT_PIN_TTL_SECONDS :: int where
  "DEFAULT_PIN_TTL_SECONDS = 3600"

definition DEFAULT_ATTEMPT_TTL_SECONDS :: int where
  "DEFAULT_ATTEMPT_TTL_SECONDS = 300"

definition DEFAULT_MAX_SESSIONS :: int where
  "DEFAULT_MAX_SESSIONS = 500"

definition DEFAULT_SESSION_TTL_SECONDS :: int where
  "DEFAULT_SESSION_TTL_SECONDS = 3600"

subsection \<open>Connections\<close>

text \<open>
  The answer of \<^verbatim>\<open>get_extra_info("peername")\<close>: a non-empty tuple with the address first, a string, or
  anything else, a missing method included.
\<close>

datatype peername = PeerTuple string | PeerName string | PeerOther

definition peer_address :: "peername \<Rightarrow> string" where
  "peer_address p =
     (case p of
        PeerTuple ip \<Rightarrow> ip
      | PeerName n \<Rightarrow> if n \<noteq> [] then n else ''unknown''
      | PeerOther \<Rightarrow> ''unknown'')"

text \<open>A \<^verbatim>\<open>HoneypotServer\<close>, with the extra information it leaves on the connection.\<close>

record connection =
  hs_conn :: bool
  hs_client_ip :: "string option"
  hs_session_id :: "string option"
  hs_extra :: "(string \<times> string) option"

definition HoneypotServer :: connection where
  "HoneypotServer = \<lparr>hs_conn = False, hs_client_ip = None, hs_session_id = None, hs_extra = None\<rparr>"

record server =
  sv_auth :: auth_manager
  sv_sessions :: session_manager
  sv_logs :: logs
  sv_quarantine :: quarantine

definition make_server_factory :: connection where
  "make_server_factory = HoneypotServer"

definition begin_auth :: "string \<Rightarrow> bool" where
  "begin_auth username = True"

definition password_auth_supported :: bool where
  "password_auth_supported = True"

definition kbdint_auth_supported :: bool where
  "kbdint_auth_supported = False"

definition command_requested :: "string \<Rightarrow> bool" where
  "command_requested command = True"

text \<open>\<^verbatim>\<open>pending\<close> is the context variable that the preamble protocol sets around the call.\<close>

definition connection_made ::
  "string option \<Rightarrow> peername \<Rightarrow> int \<Rightarrow> nat \<Rightarrow> string \<Rightarrow> connection \<Rightarrow> server \<Rightarrow> connection \<times> server" where
  "connection_made pending peer now pick uuid c sv =
     (let ip = (case pending of Some p \<Rightarrow> if p \<noteq> [] then p else peer_address peer
                | None \<Rightarrow> peer_address peer);
          (sid, am) = create_session ip now pick uuid (sv_auth sv)
      in (c\<lparr>hs_conn := True, hs_client_ip := Some ip, hs_session_id := Some sid, hs_extra := Some (sid, ip)\<rparr>,
          sv\<lparr>sv_auth := am\<rparr>))"

definition connection_lost :: "int \<Rightarrow> connection \<Rightarrow> server \<Rightarrow> connection \<times> server" where
  "connection_lost now c sv =
     (let sv = (case hs_client_ip c of
                  None \<Rightarrow> sv
                | Some ip \<Rightarrow> sv\<lparr>sv_sessions := ses_touch ip now (sv_sessions sv)\<rparr>);
          c = c\<lparr>hs_conn := False, hs_client_ip := None\<rparr>
      in case hs_session_id c of
           None \<Rightarrow> (c, sv)
         | Some sid \<Rightarrow> (c\<lparr>hs_session_id := None\<rparr>, sv\<lparr>sv_auth := release_session sid (sv_auth sv)\<rparr>))"

text \<open>
  \<^verbatim>\<open>validate_password\<close> waits: \<^verbatim>\<open>validate_login\<close> settles the attempt and then sleeps and writes the log, and
  only afterwards the lockout is asked for.  So the callback has two steps, the login and the check
  of the limit, and \<^verbatim>\<open>others\<close> is what the other tasks do to the server in between.  \<^verbatim>\<open>lost\<close>: the connection
  went away meanwhile.
\<close>

definition password_login ::
  "login_env \<Rightarrow> string \<Rightarrow> string \<Rightarrow> connection \<Rightarrow> server \<Rightarrow> bool \<times> server" where
  "password_login env username password c sv =
     (case (hs_session_id c, hs_client_ip c) of
        (Some sid, Some ip) \<Rightarrow>
          (let (result, am) = validate_login env ip sid username password (sv_auth sv) (sv_logs sv);
               accepted = (case lr_outcome result of Inl _ \<Rightarrow> False | Inr b \<Rightarrow> b)
           in (accepted, sv\<lparr>sv_auth := am, sv_logs := lr_logs result\<rparr>))
      | _ \<Rightarrow> (False, sv))"

definition password_limit :: "bool \<Rightarrow> bool \<Rightarrow> int \<Rightarrow> connection \<Rightarrow> server \<Rightarrow> bool \<times> server" where
  "password_limit accepted lost lock_now c sv =
     (case hs_client_ip c of
        Some ip \<Rightarrow>
          if \<not> accepted \<and> \<not> lost then
            (let (out, am) = is_locked_out ip lock_now (sv_auth sv) in (out, sv\<lparr>sv_auth := am\<rparr>))
          else (False, sv)
      | None \<Rightarrow> (False, sv))"

text \<open>The verdict, whether a disconnect is scheduled, and the server afterwards.\<close>

definition validate_password ::
  "login_env \<Rightarrow> (server \<Rightarrow> server) \<Rightarrow> bool \<Rightarrow> int \<Rightarrow> string \<Rightarrow> string \<Rightarrow> connection \<Rightarrow> server \<Rightarrow>
   (bool \<times> bool) \<times> server" where
  "validate_password env others lost lock_now username password c sv =
     (if hs_session_id c = None \<or> hs_client_ip c = None then ((False, False), sv)
      else
        (let (accepted, sv) = password_login env username password c sv;
             (out, sv) = password_limit accepted lost lock_now c (others sv)
         in ((accepted, out), sv)))"

text \<open>The scheduled call: whether the peer is sent a disconnect message.\<close>

definition disconnect_auth_limit :: "connection \<Rightarrow> bool" where
  "disconnect_auth_limit c = hs_conn c"

text \<open>\<^verbatim>\<open>_session_meta\<close>; None for a channel that has no connection.\<close>

definition session_meta :: "(string \<times> string) option option \<Rightarrow> peername \<Rightarrow> string \<times> string" where
  "session_meta conn peer =
     (case conn of
        None \<Rightarrow> (''local'', peer_address peer)
      | Some extra \<Rightarrow>
          (let session_id = (case extra of None \<Rightarrow> ''local'' | Some (sid, _) \<Rightarrow> or_else sid ''local'');
               client_ip = (case extra of None \<Rightarrow> peer_address peer | Some (_, ip) \<Rightarrow> or_else ip (peer_address peer))
           in (session_id, client_ip)))"

subsection \<open>The client handler\<close>

text \<open>
  What happens between two reads of a client: a line arrives (the empty string is the end of the
  input), the channel breaks, or the session manager serves another client or the sweeper.
\<close>

datatype other_op = OtherConnects string int | OtherTouches string int | Sweeps int

fun ses_op_of :: "other_op \<Rightarrow> ses_op" where
  "ses_op_of (OtherConnects ip now) = GetOrCreate ip now create_default_vfs"
| "ses_op_of (OtherTouches ip now) = SesTouch ip now"
| "ses_op_of (Sweeps now) = SesSweep now"

datatype client_event = Line string | Broken | Other other_op

text \<open>
  Whether the manager still holds the very session object that the handler works on: a session that
  was evicted or purged may be followed by a new one for the same address.
\<close>

definition still_held :: "string \<Rightarrow> other_op \<Rightarrow> session_manager \<Rightarrow> bool" where
  "still_held ip op sm =
     (case op of
        OtherConnects j now \<Rightarrow>
          if j = ip then ses_contains (ses_purge now sm) ip else ses_contains (ses_step (ses_op_of op) sm) ip
      | _ \<Rightarrow> ses_contains (ses_step (ses_op_of op) sm) ip)"

definition write_text :: "bool \<Rightarrow> string \<Rightarrow> string list" where
  "write_text complete text = (case channel_write True complete text of None \<Rightarrow> [] | Some t \<Rightarrow> [t])"

text \<open>
  The interactive loop: the exception that left it, whether the session object is still held, what
  was written, and the states.
\<close>

fun read_loop ::
  "nat \<Rightarrow> host \<Rightarrow> client_event list \<Rightarrow> bool \<Rightarrow> string list \<Rightarrow> shell \<Rightarrow> session_manager \<Rightarrow>
   py_exn option \<times> bool \<times> string list \<times> shell \<times> session_manager" where
  "read_loop fuel h [] held out s sm = (None, held, out, s, sm)"
| "read_loop fuel h (Broken # es) held out s sm = (None, held, out, s, sm)"
| "read_loop fuel h (Other op # es) held out s sm =
     read_loop fuel h es (held \<and> still_held (sh_client_ip s) op sm) out s (ses_step (ses_op_of op) sm)"
| "read_loop fuel h (Line line # es) held out s sm =
     (if line = [] then (None, held, out, s, sm)
      else
        (case exec fuel h (rstrip (\<lambda>c. c \<in> {cr, nl}) line) s of
           (Inl e, s) \<Rightarrow> (Some e, held, out, s, sm)
         | (Inr result, s) \<Rightarrow>
             (let out = out @ write_text True (cr_output result) in
              if cr_exit_session result then (None, held, out, s, sm)
              else read_loop fuel h es held (out @ write_text False (prompt s)) s sm)))"

text \<open>\<^verbatim>\<open>_DISCONNECT_ERRORS\<close> holds \<^verbatim>\<open>OSError\<close>, the base class of the errors of the filesystem.\<close>

definition is_disconnect_error :: "py_exn \<Rightarrow> bool" where
  "is_disconnect_error e =
     (case e of UncaughtVfs (ValueError _) \<Rightarrow> False | UncaughtVfs VFSRecursionError \<Rightarrow> False | UncaughtVfs _ \<Rightarrow> True | _ \<Rightarrow> False)"

record client_run =
  run_raises :: "py_exn option"
  run_exit :: int
  run_writes :: "string list"
  run_held :: bool
  run_shell :: shell
  run_sessions :: session_manager

text \<open>
  The shell works on the objects of its session, so a stored session that is still held has the state
  of the shell at the end; \<^verbatim>\<open>touch\<close> then renews the time stamp of whatever is stored for the address.
\<close>

definition sync_record :: "string \<Rightarrow> shell \<Rightarrow> session_manager \<Rightarrow> session_manager" where
  "sync_record ip s sm =
     sm\<lparr>sessions := AList.map_entry ip
       (\<lambda>r. r\<lparr>ses_vfs := sh_vfs s, ses_llm_cache := sh_llm_cache s, ses_cwd := sh_cwd s\<rparr>) (sessions sm)\<rparr>"

definition handle_client ::
  "nat \<Rightarrow> host \<Rightarrow> string \<Rightarrow> string \<Rightarrow> string option \<Rightarrow> int \<Rightarrow> int \<Rightarrow> client_event list \<Rightarrow> logs \<Rightarrow>
   quarantine \<Rightarrow> session_manager \<Rightarrow> client_run" where
  "handle_client fuel h session_id client_ip command now0 now1 events l q sm =
     (let (record, sm) = get_or_create client_ip now0 create_default_vfs sm;
          s = (Shell (ses_vfs record) (ses_llm_cache record) session_id client_ip (Some (ses_cwd record))
                (Some (ses_cwd record)))\<lparr>sh_logs := l, sh_quarantine := q\<rparr>;
          (err, code, held, out, s, sm) =
            (if command \<noteq> None \<and> command \<noteq> Some [] then
               (case exec fuel h (the command) s of
                  (Inl e, s) \<Rightarrow> (Some e, 0, True, [], s, sm)
                | (Inr result, s) \<Rightarrow>
                    (None, cr_exit_code result, True, write_text True (cr_output result), s, sm))
             else
               (case read_loop fuel h events True (write_text True BANNER @ write_text False (prompt s)) s sm of
                  (err, held, out, s, sm) \<Rightarrow> (err, 0, held, out, s, sm)))
      in \<lparr>run_raises = (case err of Some e \<Rightarrow> if is_disconnect_error e then None else Some e | None \<Rightarrow> None),
          run_exit = code, run_writes = out, run_held = held, run_shell = s,
          run_sessions = ses_touch client_ip now1 (if held then sync_record client_ip s sm else sm)\<rparr>)"

subsection \<open>The server\<close>

definition periodic_sweep :: "int \<Rightarrow> int \<Rightarrow> server \<Rightarrow> server" where
  "periodic_sweep now1 now2 sv =
     sv\<lparr>sv_sessions := snd (ses_sweep now1 (sv_sessions sv)), sv_auth := snd (auth_sweep now2 (sv_auth sv))\<rparr>"

text \<open>The managers that \<^verbatim>\<open>main\<close> makes, with their defaults; times are in seconds.\<close>

definition main_auth :: "string + auth_manager" where
  "main_auth = AuthManager DEFAULT_WEAK_PASSWORDS TARPIT_SECONDS DEFAULT_MAX_ATTEMPTS DEFAULT_MAX_PINS
     DEFAULT_PIN_TTL_SECONDS DEFAULT_ATTEMPT_TTL_SECONDS"

definition main_sessions :: "string + session_manager" where
  "main_sessions = SessionManager DEFAULT_MAX_SESSIONS DEFAULT_SESSION_TTL_SECONDS"

definition serve_client ::
  "nat \<Rightarrow> host \<Rightarrow> (string \<times> string) option option \<Rightarrow> peername \<Rightarrow> string option \<Rightarrow> int \<Rightarrow> int \<Rightarrow> client_event list \<Rightarrow>
   server \<Rightarrow> client_run \<times> server" where
  "serve_client fuel h conn peer command now0 now1 events sv =
     (let (session_id, client_ip) = session_meta conn peer;
          r = handle_client fuel h session_id client_ip command now0 now1 events (sv_logs sv)
                (sv_quarantine sv) (sv_sessions sv)
      in (r, sv\<lparr>sv_sessions := run_sessions r, sv_logs := sh_logs (run_shell r),
              sv_quarantine := sh_quarantine (run_shell r)\<rparr>))"

text \<open>The two steps of a login are operations of their own, so that others fall between them.\<close>

datatype server_op =
    OpMade "string option" peername int nat string connection
  | OpLost int connection
  | OpLogin login_env string string connection
  | OpLimit bool bool int connection
  | OpClient nat host "(string \<times> string) option option" peername "string option" int int "client_event list"
  | OpSweep int int

fun server_step :: "server_op \<Rightarrow> server \<Rightarrow> server" where
  "server_step (OpMade pending peer now pick uuid c) sv = snd (connection_made pending peer now pick uuid c sv)"
| "server_step (OpLost now c) sv = snd (connection_lost now c sv)"
| "server_step (OpLogin env user pw c) sv = snd (password_login env user pw c sv)"
| "server_step (OpLimit accepted lost t c) sv = snd (password_limit accepted lost t c sv)"
| "server_step (OpClient fuel h conn peer command t0 t1 es) sv =
     snd (serve_client fuel h conn peer command t0 t1 es sv)"
| "server_step (OpSweep t1 t2) sv = periodic_sweep t1 t2 sv"

end
