(* ===== verification/Server_Properties.thy ===== *)
theory Server_Properties
  imports Server_Session
begin

text \<open>
  Properties of the whole server: what every sequence of connections, logins, clients and sweeps keeps,
  that a client finds its state again, that the identity fixed at the handover is the one the logs
  and the sessions use, and that a locked out address is disconnected.
\<close>

subsection \<open>Stored sessions\<close>

definition session_ok :: "ip_session \<Rightarrow> bool" where
  "session_ok r \<longleftrightarrow> vfs_reachable create_default_vfs (ses_vfs r) \<and> rooted_path (ses_cwd r)"

definition store_ok :: "session_manager \<Rightarrow> bool" where
  "store_ok sm \<longleftrightarrow> ses_inv sm \<and> all_values session_ok (sessions sm)"

lemma rooted_home: "rooted_path DEFAULT_HOME"
proof -
  have "DEFAULT_HOME = abs_of [''root'']" "proper ''root''"
    by (simp_all add: DEFAULT_HOME_def abs_of_def proper_def)
  then show ?thesis unfolding rooted_path_def by (auto intro: exI [of _ "[''root'']"])
qed

lemma session_ok_fresh: "session_ok (IpSession create_default_vfs now)"
  by (simp add: session_ok_def IpSession_def rooted_home vfs_reachable.start)

lemma get_or_create_ok:
  assumes "store_ok sm" and "get_or_create ip now create_default_vfs sm = (r, sm')"
  shows "store_ok sm' \<and> session_ok r"
proof -
  have p: "all_values session_ok (sessions (ses_purge now sm))"
    using assms(1) by (auto simp: store_ok_def ses_purge_def intro: all_values_purge)
  have s: "session_ok r \<Longrightarrow> session_ok (ses_stamp now r)" for r by (simp add: session_ok_def)
  have "ses_inv sm'" using get_or_create_inv [of sm ip now create_default_vfs] assms by (simp add: store_ok_def)
  moreover have "all_values session_ok (sessions sm') \<and> session_ok r"
    using assms(2) p s session_ok_fresh
    by (auto simp: get_or_create_def Let_def intro!: all_values_intros dest: all_values_lookup split: option.splits)
  ultimately show ?thesis by (simp add: store_ok_def)
qed

lemma ses_touch_ok: "store_ok sm \<Longrightarrow> store_ok (ses_touch ip now sm)"
  using ses_touch_inv [of sm ip now]
  by (auto simp: store_ok_def ses_touch_def session_ok_def intro!: all_values_refresh split: option.splits)

lemma ses_step_ok: "store_ok sm \<Longrightarrow> store_ok (ses_step (ses_op_of op) sm)"
proof (cases op)
  case (OtherConnects ip now)
  assume "store_ok sm"
  with OtherConnects get_or_create_ok [of sm ip now] show ?thesis
    by (cases "get_or_create ip now create_default_vfs sm") simp
next
  case (OtherTouches ip now)
  assume "store_ok sm"
  with OtherTouches ses_touch_ok show ?thesis by simp
next
  case (Sweeps now)
  assume "store_ok sm"
  with Sweeps ses_sweep_inv [of sm now] show ?thesis
    by (auto simp: store_ok_def ses_sweep_def Let_def ses_purge_def intro: all_values_purge)
qed

lemma sync_record_frame [simp]:
  "max_sessions (sync_record ip s sm) = max_sessions sm"
  "ses_ttl_seconds (sync_record ip s sm) = ses_ttl_seconds sm"
  by (simp_all add: sync_record_def)

lemma sync_record_inv:
  assumes "ses_inv sm"
  shows "ses_inv (sync_record ip s sm)"
proof -
  have l: "length (AList.map_entry k f d) = length d" for k :: string and f :: "ip_session \<Rightarrow> ip_session" and d
    by (induction d) auto
  show ?thesis
    using assms by (auto simp: ses_inv_def cache_ok_def sync_record_def l intro: AList.distinct_map_entry)
qed

lemma sync_record_ok:
  assumes "store_ok sm" and "vfs_reachable create_default_vfs (sh_vfs s)" and "rooted_path (sh_cwd s)"
  shows "store_ok (sync_record ip s sm)"
proof -
  have "all_values session_ok d \<Longrightarrow> all_values session_ok (AList.map_entry ip
      (\<lambda>r. r\<lparr>ses_vfs := sh_vfs s, ses_llm_cache := sh_llm_cache s, ses_cwd := sh_cwd s\<rparr>) d)" for d
    using assms(2,3) by (induction d) (auto simp: all_values_def session_ok_def)
  then show ?thesis
    using assms(1) sync_record_inv by (auto simp: store_ok_def sync_record_def)
qed

subsection \<open>Clients\<close>

text \<open>What a client's shell keeps, along its lines and the activity of others.\<close>

lemma read_loop_ok:
  "read_loop fuel h events held out s sm = (e, held', out', s', sm') \<Longrightarrow>
   frame_step s s' \<and> dir_step s s' \<and> log_step s s' \<and> (store_ok sm \<longrightarrow> store_ok sm')"
proof (induction fuel h events held out s sm rule: read_loop.induct)
  case (3 fuel h op es held out s sm)
  then show ?case using ses_step_ok by simp
next
  case (4 fuel h line es held out s sm)
  show ?case
  proof (cases "line = []")
    case True
    with 4 show ?thesis by (auto intro: frame.R_refl dirs.R_refl audit.R_refl)
  next
    case False
    obtain q s1 where x: "exec fuel h (rstrip (\<lambda>c. c \<in> {cr, nl}) line) s = (q, s1)" by fastforce
    have r: "frame_step s s1" "dir_step s s1" "log_step s s1"
      using frame.exec_result_R [OF x] dirs.exec_result_R [OF x] audit.exec_result_R [OF x] .
    show ?thesis
    proof (cases q)
      case (Inl e)
      with 4 x False r show ?thesis by auto
    next
      case (Inr result)
      show ?thesis
      proof (cases "cr_exit_session result")
        case True
        with 4 x False r Inr show ?thesis by auto
      next
        case more: False
        with 4 x False Inr have "frame_step s1 s' \<and> dir_step s1 s' \<and> log_step s1 s' \<and> (store_ok sm \<longrightarrow> store_ok sm')"
          by auto
        with r show ?thesis
          by (auto intro: frame.R_trans dirs.R_trans audit.R_trans)
      qed
    qed
  qed
qed (auto intro: frame.R_refl dirs.R_refl audit.R_refl)

lemma home_default: "vfs_reachable create_default_vfs v \<Longrightarrow> vfs_home v = DEFAULT_HOME"
proof -
  assume "vfs_reachable create_default_vfs v"
  then have "config v = config create_default_vfs" using reachable_inv create_default_vfs_inv by blast
  then show ?thesis by (simp add: config_def create_default_vfs_def VirtualFileSystem_def)
qed

definition client_shell :: "string \<Rightarrow> string \<Rightarrow> logs \<Rightarrow> quarantine \<Rightarrow> ip_session \<Rightarrow> shell" where
  "client_shell sid ip l q r =
     (Shell (ses_vfs r) (ses_llm_cache r) sid ip (Some (ses_cwd r)) (Some (ses_cwd r)))
       \<lparr>sh_logs := l, sh_quarantine := q\<rparr>"

lemma client_shell_simps [simp]:
  "sh_vfs (client_shell sid ip l q r) = ses_vfs r"
  "sh_session_id (client_shell sid ip l q r) = sid"
  "sh_client_ip (client_shell sid ip l q r) = ip"
  "sh_logs (client_shell sid ip l q r) = l"
  by (simp_all add: client_shell_def Shell_def Let_def)

text \<open>How a client's run ends: after one command, or out of the interactive loop.\<close>

lemma handle_client_run:
  assumes "get_or_create ip t0 create_default_vfs sm = (ses, sm1)"
    and r_def: "r = handle_client fuel h sid ip command t0 t1 events l q sm"
    and s0_def: "s0 = client_shell sid ip l q ses"
  shows "\<exists>sm'. frame_step s0 (run_shell r) \<and> dir_step s0 (run_shell r) \<and> log_step s0 (run_shell r) \<and>
    run_sessions r = ses_touch ip t1 (if run_held r then sync_record ip (run_shell r) sm' else sm') \<and>
    (run_held r \<and> sm' = sm1 \<or>
     (\<exists>e out0 out. read_loop fuel h events True out0 s0 sm1 = (e, run_held r, out, run_shell r, sm')))"
proof (cases "command \<noteq> None \<and> command \<noteq> Some []")
  case True
  obtain x s' where x: "exec fuel h (the command) s0 = (x, s')" by fastforce
  have "run_shell r = s'" "run_held r" "run_sessions r = ses_touch ip t1 (sync_record ip s' sm1)"
    using True x unfolding r_def handle_client_def assms(1) s0_def client_shell_def
    by (cases x; simp add: Let_def)+
  with frame.exec_result_R [OF x] dirs.exec_result_R [OF x] audit.exec_result_R [OF x] show ?thesis by auto
next
  case False
  obtain e held out s' sm' where x: "read_loop fuel h events True (write_text True BANNER @ write_text False (prompt s0)) s0 sm1 =
      (e, held, out, s', sm')"
    by (metis prod_cases5)
  have "run_shell r = s'" "run_held r = held"
    "run_sessions r = ses_touch ip t1 (if held then sync_record ip s' sm' else sm')"
    using False x unfolding r_def handle_client_def assms(1) s0_def client_shell_def
    by (auto simp: Let_def)
  with read_loop_ok [OF x] x show ?thesis by blast
qed

lemma handle_client_ok:
  assumes "store_ok sm"
  shows "store_ok (run_sessions (handle_client fuel h sid ip command t0 t1 events l q sm))"
proof -
  define r where "r = handle_client fuel h sid ip command t0 t1 events l q sm"
  obtain ses sm1 where g: "get_or_create ip t0 create_default_vfs sm = (ses, sm1)" by fastforce
  note ok = get_or_create_ok [OF assms g]
  define s0 where "s0 = client_shell sid ip l q ses"
  have "dirs_ok s0"
    using ok home_default by (auto simp: s0_def client_shell_def Shell_def Let_def dirs_ok_def session_ok_def DEFAULT_HOME_def)
  moreover obtain sm' where run: "frame_step s0 (run_shell r)" "dir_step s0 (run_shell r)"
    "run_sessions r = ses_touch ip t1 (if run_held r then sync_record ip (run_shell r) sm' else sm')"
    "run_held r \<and> sm' = sm1 \<or>
     (\<exists>e out0 out. read_loop fuel h events True out0 s0 sm1 = (e, run_held r, out, run_shell r, sm'))"
    using handle_client_run [OF g r_def s0_def] by blast
  moreover have "store_ok sm'" using run(4) ok read_loop_ok by blast
  ultimately have "store_ok (sync_record ip (run_shell r) sm')"
    using ok by (intro sync_record_ok)
      (auto simp: frame_step_def s0_def dir_step_def dirs_ok_def session_ok_def intro: vfs_reachable_trans)
  with run(3) \<open>store_ok sm'\<close> show ?thesis unfolding r_def by (auto intro: ses_touch_ok)
qed

subsection \<open>The invariant of the server\<close>

text \<open>The settings of the two managers, which no operation changes.\<close>

definition server_config where
  "server_config sv = (auth_config (sv_auth sv), max_sessions (sv_sessions sv), ses_ttl_seconds (sv_sessions sv))"

definition server_inv :: "server \<Rightarrow> bool" where
  "server_inv sv \<longleftrightarrow> auth_inv (sv_auth sv) \<and> store_ok (sv_sessions sv)"

lemma ses_step_config: "(max_sessions (ses_step op sm), ses_ttl_seconds (ses_step op sm)) = (max_sessions sm, ses_ttl_seconds sm)"
  by (simp add: ses_step_max ses_step_ttl)

lemma read_loop_config:
  "read_loop fuel h events held out s sm = (e, held', out', s', sm') \<Longrightarrow>
   max_sessions sm' = max_sessions sm \<and> ses_ttl_seconds sm' = ses_ttl_seconds sm"
  by (induction fuel h events held out s sm rule: read_loop.induct)
    (auto simp: Let_def ses_step_max ses_step_ttl split: if_splits sum.splits prod.splits)

lemma handle_client_config:
  "max_sessions (run_sessions (handle_client fuel h sid ip command t0 t1 events l q sm)) = max_sessions sm \<and>
   ses_ttl_seconds (run_sessions (handle_client fuel h sid ip command t0 t1 events l q sm)) = ses_ttl_seconds sm"
proof -
  obtain ses sm1 where g: "get_or_create ip t0 create_default_vfs sm = (ses, sm1)" by fastforce
  from handle_client_run [OF g refl refl, where fuel = fuel and h = h and sid = sid and command = command
      and ?t1.0 = t1 and events = events and l = l and q = q] ses_step_config [of "GetOrCreate ip t0 create_default_vfs" sm]
  show ?thesis
    using ses_step_config [of "SesTouch ip t1"] by (auto simp: g dest!: read_loop_config)
qed

lemma server_step_inv:
  assumes "server_inv sv"
  shows "server_inv (server_step op sv) \<and> server_config (server_step op sv) = server_config sv"
proof (cases op)
  case (OpMade pending peer now pick uuid c)
  with assms get_or_pin_password_inv [of "sv_auth sv"] show ?thesis
    by (auto simp: server_inv_def server_config_def connection_made_def create_session_def Let_def)
next
  case (OpLost now c)
  with assms ses_touch_ok ses_step_config [of "SesTouch ip now" for ip] show ?thesis
    by (auto simp: server_inv_def server_config_def connection_lost_def release_session_def Let_def split: option.splits)
next
  case (OpLogin env user pw c)
  obtain sid ip where c: "hs_session_id c = None \<or> hs_client_ip c = None \<or>
      hs_session_id c = Some sid \<and> hs_client_ip c = Some ip" by force
  obtain r am where v: "validate_login env ip sid user pw (sv_auth sv) (sv_logs sv) = (r, am)" by fastforce
  have am: "auth_inv am" "auth_config am = auth_config (sv_auth sv)"
    using validate_login_inv [of "sv_auth sv" env ip sid user pw "sv_logs sv"] assms v by (simp_all add: server_inv_def)
  with c assms OpLogin v show ?thesis
    by (auto simp: server_inv_def server_config_def password_login_def Let_def split: option.splits)
next
  case (OpLimit accepted lost t c)
  with assms auth_purge_inv [of "sv_auth sv" t] show ?thesis
    by (auto simp: server_inv_def server_config_def password_limit_def is_locked_out_def Let_def split: option.split)
next
  case (OpClient fuel h conn peer command t0 t1 es)
  with assms handle_client_ok handle_client_config show ?thesis
    by (simp add: server_inv_def server_config_def serve_client_def Let_def case_prod_beta)
next
  case (OpSweep t1 t2)
  with assms ses_step_ok [of _ "Sweeps t1"] ses_step_config [of "SesSweep t1"] auth_purge_inv show ?thesis
    by (simp add: server_inv_def server_config_def periodic_sweep_def auth_sweep_def Let_def)
qed

interpretation server_steps: invariant_steps "\<lambda>sv. server_inv sv \<and> server_config sv = c" server_step for c
  by unfold_locales (simp add: server_step_inv)

subsection \<open>Properties\<close>

lemmas default_limits = TARPIT_SECONDS_def DEFAULT_MAX_ATTEMPTS_def DEFAULT_MAX_PINS_def DEFAULT_PIN_TTL_SECONDS_def
  DEFAULT_ATTEMPT_TTL_SECONDS_def DEFAULT_MAX_SESSIONS_def DEFAULT_SESSION_TTL_SECONDS_def

lemma main_server_inv:
  assumes "main_auth = Inr am" and "main_sessions = Inr sm"
  shows "server_inv \<lparr>sv_auth = am, sv_sessions = sm, sv_logs = l, sv_quarantine = q\<rparr> \<and>
    au_max_pins am = 500 \<and> max_sessions sm = 500"
proof -
  have "auth_inv am" using assms(1) AuthManager_inv unfolding main_auth_def by blast
  moreover have "ses_inv sm" using assms(2) SessionManager_inv unfolding main_sessions_def by blast
  moreover have "sessions sm = []" "max_sessions sm = 500" "au_max_pins am = 500"
    using assms by (auto simp: main_sessions_def SessionManager_def main_auth_def AuthManager_def default_limits split: if_splits)
  ultimately show ?thesis by (simp add: server_inv_def store_ok_def)
qed

lemma session_ok_quota: "session_ok r \<Longrightarrow> within_quota (ses_vfs r) \<and> rooted_path (ses_cwd r)"
  by (simp add: session_ok_def reachable_quota(1))

text \<open>The bytes of the sessions of a store in whose filesystems no removal has overflowed.\<close>

definition exact_bytes :: "ip_session list \<Rightarrow> int" where
  "exact_bytes rs = (\<Sum>r\<leftarrow>filter (\<lambda>r. \<not> removal_overflowed (ses_vfs r)) rs. dyn_bytes (vfs_root (ses_vfs r)))"

lemma exact_bytes_le:
  assumes "list_all (\<lambda>r. within_quota (ses_vfs r)) rs" and "int (length rs) \<le> n"
  shows "exact_bytes rs \<le> n * (50 * 1024 * 1024)"
proof -
  let ?rs = "filter (\<lambda>r. \<not> removal_overflowed (ses_vfs r)) rs"
  have "exact_bytes rs \<le> (\<Sum>r\<leftarrow>?rs. 50 * 1024 * 1024)"
    unfolding exact_bytes_def by (rule sum_list_mono) (use assms(1) in \<open>auto simp: list_all_iff within_quota_def\<close>)
  also have "\<dots> = int (length ?rs) * (50 * 1024 * 1024)" by (simp add: sum_list_triv)
  also have "\<dots> \<le> n * (50 * 1024 * 1024)"
    using length_filter_le [of "\<lambda>r. \<not> removal_overflowed (ses_vfs r)" rs] assms(2) by (intro mult_right_mono) linarith+
  finally show ?thesis .
qed

text \<open>
  C2. The memory of the server is bounded.  From the managers that \<^verbatim>\<open>main\<close> makes, whatever sequence of
  connections, logins, lockout checks, clients (with any command lines, fuel and disturbances between
  their lines) and sweeps happens, at most 500 sessions, 500 pins and 500 failure records are kept, one
  per address; every stored session has a well-formed filesystem with no run-time file above 10 MiB and a
  counter of at most 50 MiB, and a working directory that is an absolute path.  In the filesystems in
  which no removal has exceeded the recursion limit the counter is exact, so that these hold at most
  500 times 50 MiB together.
\<close>

theorem server_bounded:
  assumes "main_auth = Inr am" and "main_sessions = Inr sm"
  shows "let sv = fold server_step ops \<lparr>sv_auth = am, sv_sessions = sm, sv_logs = l, sv_quarantine = q\<rparr> in
    ses_len (sv_sessions sv) \<le> 500 \<and> auth_len (sv_auth sv) \<le> 500 \<and>
    int (length (au_attempts (sv_auth sv))) \<le> 500 \<and>
    distinct (map fst (sessions (sv_sessions sv))) \<and>
    all_values (\<lambda>r. within_quota (ses_vfs r) \<and> rooted_path (ses_cwd r)) (sessions (sv_sessions sv)) \<and>
    exact_bytes (map snd (sessions (sv_sessions sv))) \<le> 500 * (50 * 1024 * 1024)"
proof -
  define sv0 where "sv0 = \<lparr>sv_auth = am, sv_sessions = sm, sv_logs = l, sv_quarantine = q\<rparr>"
  define sv where "sv = fold server_step ops sv0"
  note start = main_server_inv [OF assms, of l q, folded sv0_def]
  have run: "server_inv sv" "server_config sv = server_config sv0"
    using server_steps.run_inv [of sv0 "server_config sv0" ops] start by (simp_all add: sv_def)
  then have lim: "max_sessions (sv_sessions sv) = 500" "au_max_pins (sv_auth sv) = 500"
    using start by (auto simp: server_config_def sv0_def dest: auth_config_simps)
  let ?d = "sessions (sv_sessions sv)"
  have q: "all_values (\<lambda>r. within_quota (ses_vfs r) \<and> rooted_path (ses_cwd r)) ?d"
    using run(1) session_ok_quota by (auto simp: server_inv_def store_ok_def all_values_def list_all_iff split: prod.splits)
  have len: "int (length ?d) \<le> 500" using run(1) lim by (simp add: server_inv_def store_ok_def ses_inv_def cache_ok_def)
  have "exact_bytes (map snd ?d) \<le> 500 * (50 * 1024 * 1024)"
    by (rule exact_bytes_le) (use q len in \<open>auto simp: all_values_def list_all_iff\<close>)
  with q len run(1) lim show ?thesis
    unfolding sv0_def [symmetric] sv_def [symmetric] Let_def
    by (auto simp: ses_len_def auth_len_def server_inv_def store_ok_def ses_inv_def auth_inv_def cache_ok_def)
qed

theorem server_bounded_witness:
  "\<exists>am sm. main_auth = Inr am \<and> main_sessions = Inr sm \<and>
     auth_len (sv_auth (fold server_step [OpMade None (PeerName ''a'') 0 0 ''x'' HoneypotServer, OpSweep 1 2]
       \<lparr>sv_auth = am, sv_sessions = sm, sv_logs = [], sv_quarantine = []\<rparr>)) \<le> 500"
proof -
  obtain am sm where m: "main_auth = Inr am" "main_sessions = Inr sm"
    by (auto simp: main_auth_def AuthManager_def main_sessions_def SessionManager_def DEFAULT_WEAK_PASSWORDS_def default_limits)
  from server_bounded [OF m] m show ?thesis unfolding Let_def by blast
qed

subsection \<open>Coming back\<close>

text \<open>What others do while a client is served.\<close>

definition activity :: "client_event list \<Rightarrow> ses_op list" where
  "activity events = concat (map (\<lambda>e. case e of Other op \<Rightarrow> [ses_op_of op] | _ \<Rightarrow> []) events)"

lemma activity_simps [simp]:
  "activity [] = []"
  "activity (Line line # es) = activity es"
  "activity (Broken # es) = activity es"
  "activity (Other op # es) = ses_op_of op # activity es"
  by (simp_all add: activity_def)








subsection \<open>Logins over a connection\<close>

lemma locked_out_failures:
  assumes "auth_inv am"
  shows "fst (is_locked_out ip now am) \<longleftrightarrow> failures am ip now \<ge> au_max_attempts am"
proof -
  have "1 \<le> au_max_attempts am" "au_max_attempts (auth_purge now am) = au_max_attempts am"
    using assms by (simp_all add: auth_inv_def auth_purge_def)
  then show ?thesis
    by (auto simp: is_locked_out_def Let_def locked_def failures_def attempts_purge [OF assms] split: option.split)
qed

text \<open>
  C24. A password over a connection, whatever the server does for others while the callback waits.  It is
  accepted exactly when fewer than \<^verbatim>\<open>max_attempts\<close> failures of the address count and it is the pinned
  password of \<^verbatim>\<open>root\<close>.  A disconnect is scheduled exactly when it is refused and, in the state in which
  the others left the manager and at the second reading of the clock, the failures that count have
  reached the limit.  If nothing happens meanwhile, that is at the attempt that reaches the limit, unless
  its tarpit outlasts the attempt TTL, and for an address that was locked out already as long as its
  record has not expired.
\<close>

theorem password_verdict:
  assumes "server_inv sv" and "env_now_pin env \<le> env_now env"
    and "hs_session_id c = Some sid" and "hs_client_ip c = Some ip"
  shows "let ((accepted, disconnects), sv') = validate_password env (fold server_step ops) False lock_now username password c sv;
             am = sv_auth sv; m = au_max_attempts am; f = failures am ip (env_now env);
             am' = sv_auth (fold server_step ops (snd (password_login env username password c sv)))
    in (accepted \<longleftrightarrow> f < m \<and> accepts env ip username password am) \<and>
       (disconnects \<longleftrightarrow> \<not> accepted \<and> failures am' ip lock_now \<ge> m) \<and>
       (ops = [] \<longrightarrow> (disconnects \<longleftrightarrow> \<not> accepted \<and>
          (if f \<ge> m then failures am ip lock_now \<ge> m
           else f + 1 \<ge> m \<and> lock_now - env_now env \<le> au_attempt_ttl_seconds am)))"
proof -
  have inv: "auth_inv (sv_auth sv)" using assms(1) by (simp add: server_inv_def)
  obtain r am where v: "validate_login env ip sid username password (sv_auth sv) (sv_logs sv) = (r, am)" by fastforce
  have am: "auth_inv am" "auth_config am = auth_config (sv_auth sv)"
    using validate_login_inv [OF inv, of env ip sid username password "sv_logs sv"] v by simp_all
  note cfg = auth_config_simps [OF am(2)]
  define f where "f = failures (sv_auth sv) ip (env_now env)"
  define m where "m = au_max_attempts (sv_auth sv)"
  define sv1 where "sv1 = snd (password_login env username password c sv)"
  define sv2 where "sv2 = fold server_step ops sv1"
  have m: "1 \<le> m" using inv by (simp add: m_def auth_inv_def)
  have login: "password_login env username password c sv =
      ((case lr_outcome r of Inl _ \<Rightarrow> False | Inr b \<Rightarrow> b), sv1)" "sv_auth sv1 = am"
    using assms(3,4) v by (simp_all add: sv1_def password_login_def)
  have sv1: "server_inv sv1" "server_config sv1 = server_config sv"
    using server_step_inv [OF assms(1), of "OpLogin env username password c"] by (simp_all add: sv1_def)
  then have sv2: "server_inv sv2" "server_config sv2 = server_config sv"
    using server_steps.run_inv [of sv1 "server_config sv" ops] by (simp_all add: sv2_def)
  have out: "lr_outcome r = (if f \<ge> m then Inl (AuthAttemptLimitExceeded sid)
     else if accepts env ip username password (sv_auth sv) then Inr True
     else if f + 1 \<ge> m then Inl (AuthAttemptLimitExceeded sid) else Inr False)"
    using login_outcome [OF inv assms(2), of ip sid username password "sv_logs sv"] v by (simp add: f_def m_def)
  have reco: "map_of (au_attempts am) ip = (if f \<ge> m then map_of (au_attempts (sv_auth sv)) ip
     else if accepts env ip username password (sv_auth sv) then None
     else Some \<lparr>att_count = f + 1, att_last_seen = env_now env\<rparr>)"
    using login_record [OF inv assms(2), of ip sid username password "sv_logs sv"] v by (simp add: f_def m_def)
  have "au_max_attempts (sv_auth sv2) = m"
    using sv2(2) auth_config_simps(3) [of "sv_auth sv2" "sv_auth sv"] by (simp add: server_config_def m_def)
  then have lock: "fst (is_locked_out ip lock_now (sv_auth sv2)) \<longleftrightarrow> failures (sv_auth sv2) ip lock_now \<ge> m"
    using locked_out_failures [of "sv_auth sv2" ip lock_now] sv2(1) by (simp add: server_inv_def)
  have alone: "failures am ip lock_now \<ge> m \<longleftrightarrow>
      (if f \<ge> m then failures (sv_auth sv) ip lock_now \<ge> m
       else \<not> accepts env ip username password (sv_auth sv) \<and> f + 1 \<ge> m \<and>
         lock_now - env_now env \<le> au_attempt_ttl_seconds (sv_auth sv))"
    using reco cfg m by (auto simp: failures_def cong: option.case_cong split: option.splits)
  define accepted where "accepted = (case lr_outcome r of Inl _ \<Rightarrow> False | Inr b \<Rightarrow> b)"
  have acc: "accepted \<longleftrightarrow> f < m \<and> accepts env ip username password (sv_auth sv)"
    using out by (auto simp: accepted_def)
  have val: "fst (validate_password env (fold server_step ops) False lock_now username password c sv) =
      (accepted, \<not> accepted \<and> failures (sv_auth sv2) ip lock_now \<ge> m)"
    using assms(3,4) login(1) lock
    by (simp add: validate_password_def password_limit_def Let_def case_prod_beta accepted_def [symmetric] sv2_def [symmetric])
  have "ops = [] \<longrightarrow> sv_auth sv2 = am" using login(2) by (simp add: sv2_def)
  with acc val alone show ?thesis
    unfolding Let_def case_prod_beta f_def [symmetric] m_def [symmetric] sv1_def [symmetric] sv2_def [symmetric]
    by auto
qed

text \<open>
  C25. The identity of a client: the address that the preamble handed over and the session id made for
  the connection are the ones under which the password is pinned, that the client handler reads
  back from the channel, that its shell carries to the end, and under whose log path, and no other,
  the handler writes.
\<close>

theorem identity_flow:
  assumes "connection_made (Some ip) peer now pick uuid c sv = (c1, sv1)" and "ip \<noteq> []" and "uuid \<noteq> []"
    and "serve_client fuel h (Some (hs_extra c1)) peer' command t0 t1 events sv2 = (r, sv3)"
  shows "hs_client_ip c1 = Some ip \<and> hs_session_id c1 = Some uuid \<and> auth_contains (sv_auth sv1) ip \<and>
    session_meta (Some (hs_extra c1)) peer' = (uuid, ip) \<and>
    sh_session_id (run_shell r) = uuid \<and> sh_client_ip (run_shell r) = ip \<and>
    (\<exists>new. log_text (sv_logs sv3) = (log_text (sv_logs sv2))
       (session_log_path uuid := log_text (sv_logs sv2) (session_log_path uuid) @ new))"
proof -
  have c1: "hs_client_ip c1 = Some ip" "hs_session_id c1 = Some uuid" "hs_extra c1 = Some (uuid, ip)"
      "sv_auth sv1 = snd (get_or_pin_password ip now pick (sv_auth sv))"
    using assms(1,2) by (auto simp: connection_made_def create_session_def Let_def)
  have "map_of (au_pins (snd (get_or_pin_password ip now pick am))) ip \<noteq> None" for am
    by (auto simp: get_or_pin_password_def Let_def map_of_insert_new refresh_def move_to_end_def map_add_Some_iff
        split: option.split)
  then have pin: "auth_contains (sv_auth sv1) ip" by (simp add: auth_contains_def c1)
  have meta: "session_meta (Some (hs_extra c1)) peer' = (uuid, ip)"
    using assms(2,3) by (simp add: session_meta_def c1 or_else_def)
  obtain ses sm1 where g: "get_or_create ip t0 create_default_vfs (sv_sessions sv2) = (ses, sm1)" by fastforce
  have r: "r = handle_client fuel h uuid ip command t0 t1 events (sv_logs sv2) (sv_quarantine sv2) (sv_sessions sv2)"
    "sv_logs sv3 = sh_logs (run_shell r)"
    using assms(4) meta by (auto simp: serve_client_def Let_def)
  from handle_client_run [OF g r(1) refl]
  have "frame_step (client_shell uuid ip (sv_logs sv2) (sv_quarantine sv2) ses) (run_shell r)"
    "log_step (client_shell uuid ip (sv_logs sv2) (sv_quarantine sv2) ses) (run_shell r)" by blast+
  with c1 pin meta r(2) show ?thesis by (simp add: frame_step_def log_step_def)
qed

subsection \<open>Isolation of addresses\<close>

text \<open>An operation for other addresses keeps a session as it is, or drops it.\<close>

definition kept_or_dropped :: "string \<Rightarrow> session_manager \<Rightarrow> session_manager \<Rightarrow> bool" where
  "kept_or_dropped j sm sm' \<longleftrightarrow> map_of (sessions sm') j \<in> {None, map_of (sessions sm) j}"

lemma kept_refl [simp]: "kept_or_dropped j sm sm"
  by (simp add: kept_or_dropped_def)

lemma kept_trans: "kept_or_dropped j a b \<Longrightarrow> kept_or_dropped j b c \<Longrightarrow> kept_or_dropped j a c"
  by (auto simp: kept_or_dropped_def)

lemma ses_step_other:
  assumes "ses_inv sm" and "j \<notin> op_addrs op"
  shows "kept_or_dropped j sm (ses_step op sm)"
proof -
  have d: "distinct (map fst (sessions sm))" using assms(1) by (simp add: ses_inv_def cache_ok_def)
  have purged: "map_of (sessions (ses_purge now sm)) j \<in> {None, map_of (sessions sm) j}"
    and d': "distinct (map fst (sessions (ses_purge now sm)))" for now
    using d by (auto simp: ses_purge_def map_of_purge distinct_purge split: option.splits)
  show ?thesis
  proof (cases op)
    case (GetOrCreate ip now v)
    with assms(2) purged [of now] map_of_evict_cases [OF d' [of now], of "max_sessions sm" j] show ?thesis
      by (auto simp: kept_or_dropped_def get_or_create_def Let_def map_of_refresh [OF d'] map_of_insert_new split: option.splits)
  next
    case (SesTouch ip now)
    with assms(2) show ?thesis
      by (auto simp: kept_or_dropped_def ses_touch_def map_of_refresh [OF d] split: option.splits)
  next
    case (SesSweep now)
    with purged show ?thesis by (simp add: kept_or_dropped_def ses_sweep_def Let_def)
  qed
qed

lemma sync_record_other: "j \<noteq> ip \<Longrightarrow> kept_or_dropped j sm (sync_record ip s sm)"
  by (simp add: kept_or_dropped_def sync_record_def map_of_map_entry)

lemma read_loop_other:
  assumes "read_loop fuel h events held out s sm = (e, held', out', s', sm')" and "ses_inv sm"
    and "\<forall>op\<in>set (activity events). j \<notin> op_addrs op"
  shows "kept_or_dropped j sm sm' \<and> ses_inv sm'"
  using assms
proof (induction fuel h events held out s sm rule: read_loop.induct)
  case (3 fuel h op es held out s sm)
  have "ses_inv (ses_step (ses_op_of op) sm)" using session_steps.step_inv 3 by blast
  with 3 ses_step_other [of sm j "ses_op_of op"] show ?case by (auto intro: kept_trans)
qed (auto simp: Let_def split: if_splits sum.splits prod.splits)

text \<open>The keys used after a key, in the order of the dictionary.\<close>

definition newer :: "string \<Rightarrow> (string \<times> 'v) list \<Rightarrow> string set" where
  "newer j d = fst ` set (drop 1 (dropWhile (\<lambda>p. fst p \<noteq> j) d))"

lemma recent_newer: "map_of d j = Some r \<Longrightarrow> recent (newer j d) j r d"
proof (induction d)
  case (Cons p d)
  show ?case
  proof (cases "fst p = j")
    case True
    with Cons.prems have "p = (j, r)" by (cases p) simp
    then show ?thesis unfolding recent_def newer_def by (intro exI [of _ "[]"] exI [of _ d]) simp
  next
    case False
    with Cons have "recent (newer j d) j r d" by (cases p) (simp split: if_splits)
    then obtain xs ys where "d = xs @ (j, r) # ys" "fst ` set ys \<subseteq> newer j d" by (auto simp: recent_def)
    with False show ?thesis
      unfolding recent_def newer_def by (intro exI [of _ "p # xs"] exI [of _ ys]) simp
  qed
qed simp

lemma recent_map_entry: "recent S j r d \<Longrightarrow> j \<noteq> ip \<Longrightarrow> recent S j r (AList.map_entry ip f d)"
proof -
  assume "recent S j r d" "j \<noteq> ip"
  then obtain xs ys where d: "d = xs @ (j, r) # ys" "fst ` set ys \<subseteq> S" by (auto simp: recent_def)
  have app: "AList.map_entry ip f (a @ b) = (if ip \<in> fst ` set a then AList.map_entry ip f a @ b else a @ AList.map_entry ip f b)"
    for a b by (induction a) auto
  have "AList.map_entry ip f d = AList.map_entry ip f xs @ (j, r) # ys \<or>
      AList.map_entry ip f d = xs @ (j, r) # AList.map_entry ip f ys"
    using \<open>j \<noteq> ip\<close> by (auto simp: d(1) app)
  moreover have "fst ` set (AList.map_entry ip f ys) = fst ` set ys" by (simp add: dom_map_entry)
  ultimately show "recent S j r (AList.map_entry ip f d)"
    using d(2) unfolding recent_def by (elim disjE) (metis, metis)
qed

lemma read_loop_keeps:
  assumes "read_loop fuel h events held out s sm = (e, held', out', s', sm')" and "ses_inv sm"
    and "recent S j r (sessions sm)"
    and "\<forall>op\<in>set (activity events). op_addrs op \<subseteq> S - {j} \<and> op_time op - ses_last_seen r \<le> ses_ttl_seconds sm"
    and "finite S" and "int (card S) < max_sessions sm"
  shows "recent S j r (sessions sm')"
  using assms
proof (induction fuel h events held out s sm rule: read_loop.induct)
  case (3 fuel h op es held out s sm)
  have "recent S j r (sessions (ses_step (ses_op_of op) sm))" by (rule ses_step_recent) (use 3 in auto)
  moreover have "ses_inv (ses_step (ses_op_of op) sm)" using session_steps.step_inv 3 by blast
  ultimately show ?case using 3 by (simp add: ses_step_ttl ses_step_max)
qed (auto simp: Let_def split: if_splits sum.splits prod.splits)

text \<open>
  C6. Addresses are isolated.  Serving a client, whatever its command lines do, leaves the session of
  every other address exactly as it was, filesystem, cache, directory and time stamp, or drops it; and
  it drops it only if the session had expired at one of the clock readings made meanwhile, or if the
  addresses used after it, before or meanwhile, number \<^verbatim>\<open>max_sessions\<close> or more, so that it was evicted.
  Pins and failure records are left alone.
\<close>

theorem client_isolation:
  assumes "ses_inv (sv_sessions sv)" and "serve_client fuel h conn peer command t0 t1 events sv = (r, sv')"
    and "j \<noteq> snd (session_meta conn peer)" and "\<forall>op\<in>set (activity events). j \<notin> op_addrs op"
  shows "map_of (sessions (sv_sessions sv')) j \<in> {None, map_of (sessions (sv_sessions sv)) j} \<and>
    (\<forall>ses. map_of (sessions (sv_sessions sv)) j = Some ses \<longrightarrow>
       (\<forall>t \<in> insert t0 (op_time ` set (activity events)). t - ses_last_seen ses \<le> ses_ttl_seconds (sv_sessions sv)) \<longrightarrow>
       int (card (newer j (sessions (sv_sessions sv)) \<union> {snd (session_meta conn peer)} \<union>
         \<Union> (op_addrs ` set (activity events)))) < max_sessions (sv_sessions sv) \<longrightarrow>
       map_of (sessions (sv_sessions sv')) j = Some ses) \<and>
    sv_auth sv' = sv_auth sv"
proof -
  obtain sid ip where m: "session_meta conn peer = (sid, ip)" by fastforce
  obtain ses sm1 where g: "get_or_create ip t0 create_default_vfs (sv_sessions sv) = (ses, sm1)" by fastforce
  have sm1: "ses_inv sm1" "kept_or_dropped j (sv_sessions sv) sm1"
      "ses_ttl_seconds sm1 = ses_ttl_seconds (sv_sessions sv)" "max_sessions sm1 = max_sessions (sv_sessions sv)"
    using get_or_create_inv [OF assms(1), of ip t0 create_default_vfs] g assms(3) m
      ses_step_other [OF assms(1), of j "GetOrCreate ip t0 create_default_vfs"]
      ses_step_config [of "GetOrCreate ip t0 create_default_vfs" "sv_sessions sv"] by simp_all
  have r: "r = handle_client fuel h sid ip command t0 t1 events (sv_logs sv) (sv_quarantine sv) (sv_sessions sv)"
    "sv_sessions sv' = run_sessions r" "sv_auth sv' = sv_auth sv"
    using assms(2) m by (auto simp: serve_client_def Let_def)
  obtain sm' where run: "run_sessions r = ses_touch ip t1 (if run_held r then sync_record ip (run_shell r) sm' else sm')"
    "run_held r \<and> sm' = sm1 \<or> (\<exists>e out0 out. read_loop fuel h events True out0
        (client_shell sid ip (sv_logs sv) (sv_quarantine sv) ses) sm1 = (e, run_held r, out, run_shell r, sm'))"
    using handle_client_run [OF g r(1) refl] by blast
  define sm2 where "sm2 = (if run_held r then sync_record ip (run_shell r) sm' else sm')"
  have "kept_or_dropped j sm1 sm' \<and> ses_inv sm'"
    using run(2) read_loop_other sm1(1) assms(4) by auto
  then have sm2: "kept_or_dropped j sm1 sm2" "ses_inv sm2"
    using sync_record_other [of j ip] sync_record_inv assms(3) m by (auto simp: sm2_def intro: kept_trans)
  with sm1(2) ses_step_other [of sm2 j "SesTouch ip t1"] assms(3) m
  have "kept_or_dropped j (sv_sessions sv) (run_sessions r)"
    unfolding run(1) sm2_def [symmetric] by (auto intro: kept_trans)
  moreover have "map_of (sessions (run_sessions r)) j = Some old"
    if old: "map_of (sessions (sv_sessions sv)) j = Some old"
      and ttl: "\<forall>t \<in> insert t0 (op_time ` set (activity events)). t - ses_last_seen old \<le> ses_ttl_seconds (sv_sessions sv)"
      and room: "int (card (newer j (sessions (sv_sessions sv)) \<union> {ip} \<union> \<Union> (op_addrs ` set (activity events))))
        < max_sessions (sv_sessions sv)" for old
  proof -
    define S where "S = newer j (sessions (sv_sessions sv)) \<union> {ip} \<union> \<Union> (op_addrs ` set (activity events))"
    have "finite (op_addrs op)" for op by (cases op) auto
    then have fin: "finite S" by (simp add: S_def newer_def)
    have ji: "j \<noteq> ip" using assms(3) m by simp
    have "recent S j old (sessions (sv_sessions sv))"
      by (rule recent_mono [OF recent_newer [OF old]]) (auto simp: S_def)
    then have "recent S j old (sessions sm1)"
      using ses_step_recent [OF assms(1), of S j old "GetOrCreate ip t0 create_default_vfs"] fin room ttl ji g
      by (simp add: S_def)
    moreover have "\<forall>op\<in>set (activity events). op_addrs op \<subseteq> S - {j} \<and> op_time op - ses_last_seen old \<le> ses_ttl_seconds sm1"
      using assms(4) ttl sm1(3) by (auto simp: S_def)
    ultimately have "recent S j old (sessions sm')"
      using run(2) read_loop_keeps [OF _ sm1(1) _ _ fin] room sm1(4) by (auto simp: S_def)
    then have "recent S j old (sessions sm2)"
      by (simp add: sm2_def sync_record_def recent_map_entry [OF _ ji])
    then have "recent S j old (sessions (run_sessions r))"
      unfolding run(1) sm2_def [symmetric] ses_touch_def
      using ji by (auto simp: S_def intro!: recent_refresh split: option.split)
    moreover have "ses_inv (run_sessions r)" unfolding run(1) sm2_def [symmetric] by (rule ses_touch_inv [OF sm2(2)])
    ultimately show ?thesis by (intro recent_lookup) (auto simp: ses_inv_def cache_ok_def)
  qed
  ultimately show ?thesis using r m by (auto simp: kept_or_dropped_def)
qed

definition tiny_server :: server where
  "tiny_server = \<lparr>sv_auth = tiny_auth, sv_sessions = \<lparr>max_sessions = 2, ses_ttl_seconds = 10, sessions = []\<rparr>,
     sv_logs = [], sv_quarantine = []\<rparr>"

definition tiny_connection :: connection where
  "tiny_connection = \<lparr>hs_conn = True, hs_client_ip = Some ''1.2.3.4'', hs_session_id = Some ''s'',
     hs_extra = Some (''s'', ''1.2.3.4'')\<rparr>"

theorem password_verdict_witness:
  "\<not> fst (fst (validate_password (tiny_env 5) (fold server_step [OpSweep 6 6]) False 7 ''root'' ''x'' tiny_connection tiny_server))"
proof -
  have "server_inv tiny_server" by (simp add: tiny_server_def tiny_auth_inv server_inv_def store_ok_def ses_inv_def)
  from password_verdict [OF this, of "tiny_env 5" tiny_connection "''s''" "''1.2.3.4''" "[OpSweep 6 6]" 7 "''root''" "''x''"]
  have "fst (fst (validate_password (tiny_env 5) (fold server_step [OpSweep 6 6]) False 7 ''root'' ''x'' tiny_connection tiny_server)) \<longrightarrow>
      accepts (tiny_env 5) ''1.2.3.4'' ''root'' ''x'' tiny_auth"
    by (simp add: tiny_env_def tiny_connection_def tiny_server_def Let_def case_prod_beta)
  moreover have "\<not> accepts (tiny_env 5) ''1.2.3.4'' ''root'' ''x'' tiny_auth" by code_simp
  ultimately show ?thesis by blast
qed

theorem identity_flow_witness:
  "let (c1, sv1) = connection_made (Some ''1.2.3.4'') PeerOther 0 0 ''s'' HoneypotServer tiny_server;
       (r, sv3) = serve_client 5 quiet_host (Some (hs_extra c1)) PeerOther (Some ''id'') 1 2 [] sv1
   in auth_contains (sv_auth sv1) ''1.2.3.4'' \<and> sh_session_id (run_shell r) = ''s'' \<and>
      sh_client_ip (run_shell r) = ''1.2.3.4''"
proof -
  obtain c1 sv1 where c: "connection_made (Some ''1.2.3.4'') PeerOther 0 0 ''s'' HoneypotServer tiny_server = (c1, sv1)"
    by fastforce
  obtain r sv3 where r: "serve_client 5 quiet_host (Some (hs_extra c1)) PeerOther (Some ''id'') 1 2 [] sv1 = (r, sv3)"
    by fastforce
  from identity_flow [OF c _ _ r] c r show ?thesis by simp
qed

theorem client_isolation_witness:
  "let s = \<lparr>ses_vfs = tiny_vfs, ses_llm_cache = [], ses_last_seen = 0, ses_cwd = ''/tmp''\<rparr>;
       sv = tiny_server\<lparr>sv_sessions := \<lparr>max_sessions = 2, ses_ttl_seconds = 10, sessions = [(''5.6.7.8'', s)]\<rparr>\<rparr>;
       (r, sv') = serve_client 5 quiet_host None (PeerName ''1.2.3.4'') None 1 2 [Line ''rm -rf /'', Broken] sv
   in map_of (sessions (sv_sessions sv')) ''5.6.7.8'' = Some s"
proof -
  define s where "s = \<lparr>ses_vfs = tiny_vfs, ses_llm_cache = [], ses_last_seen = 0, ses_cwd = ''/tmp''\<rparr>"
  define sv where "sv = tiny_server\<lparr>sv_sessions := \<lparr>max_sessions = 2, ses_ttl_seconds = 10, sessions = [(''5.6.7.8'', s)]\<rparr>\<rparr>"
  obtain r sv' where x: "serve_client 5 quiet_host None (PeerName ''1.2.3.4'') None 1 2 [Line ''rm -rf /'', Broken] sv = (r, sv')"
    by fastforce
  have i: "ses_inv (sv_sessions sv)" by (simp add: sv_def ses_inv_def cache_ok_def)
  have m: "snd (session_meta None (PeerName ''1.2.3.4'')) = ''1.2.3.4''"
    by (simp add: session_meta_def peer_address_def)
  then have j: "''5.6.7.8'' \<noteq> snd (session_meta None (PeerName ''1.2.3.4''))" by simp
  have a: "\<forall>op\<in>set (activity [Line ''rm -rf /'', Broken]). ''5.6.7.8'' \<notin> op_addrs op" by simp
  have "map_of (sessions (sv_sessions sv)) ''5.6.7.8'' = Some s" "newer ''5.6.7.8'' (sessions (sv_sessions sv)) = {}"
    "ses_ttl_seconds (sv_sessions sv) = 10" "max_sessions (sv_sessions sv) = 2" "ses_last_seen s = 0"
    by (simp_all add: sv_def newer_def s_def)
  with client_isolation [OF i x j a] m have "map_of (sessions (sv_sessions sv')) ''5.6.7.8'' = Some s" by simp
  then show ?thesis unfolding Let_def s_def [symmetric] sv_def [symmetric] x by simp
qed

end
