(* ===== verification/Server_Concurrent.thy ===== *)
theory Server_Concurrent
  imports Server_Properties
begin

text \<open>
  The server with any number of clients at once.  The sessions of \<^verbatim>\<open>src/session_manager.py\<close> are objects:
  the dictionary of the manager and the handlers of \<^verbatim>\<open>src/server.py\<close> hold references to them, so two
  clients of one address work on one filesystem, and a client keeps its session when the manager drops
  it.  The store maps references (positions) to objects.  A step of the server is one call of the
  manager, one connection, one line of one client or its end; between the steps of a client any others
  may happen.  No step of a handler awaits between leaving its loop and \<^verbatim>\<open>touch\<close>, so the end of a client
  is part of the step that ends it.
\<close>

subsection \<open>Objects and clients\<close>

record client =
  cl_ip :: string
  cl_ref :: nat
  cl_interactive :: bool
  cl_shell :: shell
  cl_out :: "string list"
  cl_live :: bool

record world =
  w_max :: int
  w_ttl :: int
  w_store :: "ip_session list"
  w_sessions :: "(string \<times> nat) list"
  w_clients :: "client list"
  w_auth :: auth_manager
  w_logs :: logs
  w_quarantine :: quarantine

definition initial_world :: "auth_manager \<Rightarrow> session_manager \<Rightarrow> logs \<Rightarrow> quarantine \<Rightarrow> world" where
  "initial_world am sm l q =
     \<lparr>w_max = max_sessions sm, w_ttl = ses_ttl_seconds sm, w_store = map snd (sessions sm),
      w_sessions = zip (map fst (sessions sm)) [0..<length (sessions sm)], w_clients = [],
      w_auth = am, w_logs = l, w_quarantine = q\<rparr>"

subsection \<open>The start\<close>

definition HOST :: string where
  "HOST = ''127.0.0.1''"

definition PORT :: int where
  "PORT = 2222"

definition HOST_KEY_PATH :: string where
  "HOST_KEY_PATH = ''ssh_host_key''"

definition SWEEP_INTERVAL_SECONDS :: int where
  "SWEEP_INTERVAL_SECONDS = 60"

text \<open>The disk of the host is a map from paths to contents; \<^verbatim>\<open>new_key\<close> is the key that AsyncSSH generates.\<close>

definition ensure_host_key :: "string \<Rightarrow> string \<Rightarrow> (string \<rightharpoonup> string) \<Rightarrow> (string \<rightharpoonup> string)" where
  "ensure_host_key path new_key disk = (if disk path \<noteq> None then disk else disk(path \<mapsto> new_key))"

text \<open>
  \<^verbatim>\<open>main\<close> up to the listener: the disk, the provider and the world in which it serves.  The two constructors could raise.
\<close>

definition server_main ::
  "string \<Rightarrow> (string \<Rightarrow> string \<Rightarrow> string \<Rightarrow> groq_reply) \<Rightarrow> string \<Rightarrow> (string \<rightharpoonup> string) \<Rightarrow> logs \<Rightarrow> quarantine \<Rightarrow>
   string + (string \<rightharpoonup> string) \<times> llm_provider \<times> world" where
  "server_main environ_key connect new_key disk l q =
     (let disk = ensure_host_key HOST_KEY_PATH new_key disk in
      case main_auth of
        Inl e \<Rightarrow> Inl e
      | Inr am \<Rightarrow>
          (case main_sessions of
             Inl e \<Rightarrow> Inl e
           | Inr sm \<Rightarrow> Inr (disk, create_llm_provider environ_key connect, initial_world am sm l q)))"

subsection \<open>The manager on references\<close>

definition ref_purge :: "int \<Rightarrow> world \<Rightarrow> world" where
  "ref_purge now w =
     w\<lparr>w_sessions := purge (\<lambda>r. ses_last_seen (w_store w ! r)) (w_ttl w) now (w_sessions w)\<rparr>"

definition ref_stamp :: "string \<Rightarrow> nat \<Rightarrow> int \<Rightarrow> world \<Rightarrow> world" where
  "ref_stamp ip r now w =
     w\<lparr>w_store := (w_store w)[r := ses_stamp now (w_store w ! r)],
       w_sessions := move_to_end ip (w_sessions w)\<rparr>"

definition ref_get_or_create :: "string \<Rightarrow> int \<Rightarrow> vfs \<Rightarrow> world \<Rightarrow> nat \<times> world" where
  "ref_get_or_create ip now fresh_vfs w =
     (let w = ref_purge now w in
      case map_of (w_sessions w) ip of
        Some r \<Rightarrow> (r, ref_stamp ip r now w)
      | None \<Rightarrow>
          (let r = length (w_store w)
           in (r, w\<lparr>w_store := w_store w @ [IpSession fresh_vfs now],
                    w_sessions := insert_new (w_max w) ip r (w_sessions w)\<rparr>)))"

definition ref_touch :: "string \<Rightarrow> int \<Rightarrow> world \<Rightarrow> world" where
  "ref_touch ip now w =
     (case map_of (w_sessions w) ip of None \<Rightarrow> w | Some r \<Rightarrow> ref_stamp ip r now w)"

definition ref_sweep :: "int \<Rightarrow> world \<Rightarrow> world" where
  "ref_sweep now w = ref_purge now w"

text \<open>\<^verbatim>\<open>HoneypotServer.connection_lost\<close> and the two sweeps, on the world.\<close>

definition ref_connection_lost :: "int \<Rightarrow> connection \<Rightarrow> world \<Rightarrow> world" where
  "ref_connection_lost now c w =
     (let w = (case hs_client_ip c of None \<Rightarrow> w | Some ip \<Rightarrow> ref_touch ip now w)
      in case hs_session_id c of
           None \<Rightarrow> w
         | Some sid \<Rightarrow> w\<lparr>w_auth := release_session sid (w_auth w)\<rparr>)"

definition ref_periodic_sweep :: "int \<Rightarrow> int \<Rightarrow> world \<Rightarrow> world" where
  "ref_periodic_sweep now1 now2 w =
     (let w = ref_sweep now1 w in w\<lparr>w_auth := snd (auth_sweep now2 (w_auth w))\<rparr>)"

subsection \<open>Clients\<close>

text \<open>The shell of a client over the objects it refers to, and the objects after a run of it.\<close>

definition load :: "world \<Rightarrow> client \<Rightarrow> shell" where
  "load w c =
     (let s = w_store w ! cl_ref c
      in (cl_shell c)\<lparr>sh_vfs := ses_vfs s, sh_llm_cache := ses_llm_cache s, sh_ip_cwd := Some (ses_cwd s),
           sh_logs := w_logs w, sh_quarantine := w_quarantine w\<rparr>)"

definition save :: "nat \<Rightarrow> client \<Rightarrow> shell \<Rightarrow> world \<Rightarrow> world" where
  "save i c s w =
     w\<lparr>w_store := (w_store w)[cl_ref c := (w_store w ! cl_ref c)
         \<lparr>ses_vfs := sh_vfs s, ses_llm_cache := sh_llm_cache s, ses_cwd := the (sh_ip_cwd s)\<rparr>],
       w_logs := sh_logs s, w_quarantine := sh_quarantine s,
       w_clients := (w_clients w)[i := c\<lparr>cl_shell := s\<rparr>]\<rparr>"

text \<open>The \<^verbatim>\<open>finally\<close> of the handler: the directory of the shell goes to its session object.\<close>

definition finish :: "nat \<Rightarrow> int \<Rightarrow> world \<Rightarrow> world" where
  "finish i now w =
     (let c = w_clients w ! i
      in ref_touch (cl_ip c) now
           (w\<lparr>w_store := (w_store w)[cl_ref c := (w_store w ! cl_ref c)\<lparr>ses_cwd := sh_cwd (cl_shell c)\<rparr>],
              w_clients := (w_clients w)[i := c\<lparr>cl_live := False\<rparr>]\<rparr>))"

text \<open>The start of \<^verbatim>\<open>handle_client\<close>, for an interactive client up to its first prompt.\<close>

definition client_connects :: "string \<Rightarrow> string \<Rightarrow> bool \<Rightarrow> int \<Rightarrow> world \<Rightarrow> world" where
  "client_connects session_id ip interactive now w =
     (let (r, w) = ref_get_or_create ip now create_default_vfs w;
          s = w_store w ! r;
          sh = Shell (ses_vfs s) (ses_llm_cache s) session_id ip (Some (ses_cwd s)) (Some (ses_cwd s));
          out = (if interactive then write_text True BANNER @ write_text False (prompt sh) else [])
      in w\<lparr>w_clients := w_clients w @ [\<lparr>cl_ip = ip, cl_ref = r, cl_interactive = interactive, 
           cl_shell = sh, cl_out = out, cl_live = True\<rparr>]\<rparr>)"

definition client_line :: "nat \<Rightarrow> host \<Rightarrow> nat \<Rightarrow> string \<Rightarrow> int \<Rightarrow> world \<Rightarrow> world" where
  "client_line fuel h i line now w =
     (let c = w_clients w ! i in
      case exec fuel h (rstrip (\<lambda>c. c \<in> {cr, nl}) line) (load w c) of
        (Inl e, s) \<Rightarrow> finish i now (save i c s w)
      | (Inr result, s) \<Rightarrow>
          (let out = cl_out c @ write_text True (cr_output result) in
           if cr_exit_session result then finish i now (save i (c\<lparr>cl_out := out\<rparr>) s w)
           else save i (c\<lparr>cl_out := out @ write_text False (prompt s)\<rparr>) s w))"

text \<open>\<^verbatim>\<open>process.command\<close>: one command, then the end.\<close>

definition client_command :: "nat \<Rightarrow> host \<Rightarrow> nat \<Rightarrow> string \<Rightarrow> int \<Rightarrow> world \<Rightarrow> world" where
  "client_command fuel h i command now w =
     (let c = w_clients w ! i in
      case exec fuel h command (load w c) of
        (Inl e, s) \<Rightarrow> finish i now (save i c s w)
      | (Inr result, s) \<Rightarrow>
          finish i now (save i (c\<lparr>cl_out := cl_out c @ write_text True (cr_output result)\<rparr>) s w))"

subsection \<open>Steps\<close>

text \<open>The label of a step is the address of the client whose handler acts, if any.\<close>

inductive world_step :: "world \<Rightarrow> string option \<Rightarrow> world \<Rightarrow> bool" where
  connects: "world_step w None (client_connects session_id ip interactive now w)"
| line: "i < length (w_clients w) \<Longrightarrow> cl_live (w_clients w ! i) \<Longrightarrow> cl_interactive (w_clients w ! i) \<Longrightarrow> l \<noteq> [] \<Longrightarrow>
    world_step w (Some (cl_ip (w_clients w ! i))) (client_line fuel h i l now w)"
| command: "i < length (w_clients w) \<Longrightarrow> cl_live (w_clients w ! i) \<Longrightarrow> \<not> cl_interactive (w_clients w ! i) \<Longrightarrow>
    world_step w (Some (cl_ip (w_clients w ! i))) (client_command fuel h i cmd now w)"
| leaves: "i < length (w_clients w) \<Longrightarrow> cl_live (w_clients w ! i) \<Longrightarrow>
    world_step w (Some (cl_ip (w_clients w ! i))) (finish i now w)"
| lost: "world_step w None (ref_connection_lost now c w)"
| sweeps: "world_step w None (ref_periodic_sweep now now' w)"
| pins: "world_step w None (w\<lparr>w_auth := snd (create_session ip now pick uuid (w_auth w))\<rparr>)"
| logs_in: "validate_login env ip sid user pw (w_auth w) (w_logs w) = (r, am) \<Longrightarrow>
    world_step w None (w\<lparr>w_auth := am, w_logs := lr_logs r\<rparr>)"
| locked_out: "world_step w None (w\<lparr>w_auth := snd (is_locked_out ip now (w_auth w))\<rparr>)"

abbreviation world_run :: "world \<Rightarrow> string option list \<Rightarrow> world \<Rightarrow> bool" where
  "world_run \<equiv> steps world_step"

end
