(* ===== verification/Concurrent_Invariants.thy ===== *)
theory Concurrent_Invariants
  imports Server_Concurrent
begin

text \<open>
  The manager on references implements the manager of \<^verbatim>\<open>Session_Manager\<close>; the invariant \<^verbatim>\<open>world_ok\<close> of the
  objects, their owners and the clients; and the locale \<^verbatim>\<open>world_property\<close>, whose laws say that a property is
  kept by each kind of change (a call of the manager, an action of a handler, a new client, a login) and
  whose lemma is that every step keeps it.
\<close>

subsection \<open>Dictionaries of references\<close>

definition mapv :: "('v \<Rightarrow> 'w) \<Rightarrow> ('k \<times> 'v) list \<Rightarrow> ('k \<times> 'w) list" where
  "mapv g d = map (\<lambda>(k, v). (k, g v)) d"

lemma mapv_simps [simp]:
  "mapv g [] = []" "mapv g ((k, v) # d) = (k, g v) # mapv g d" "mapv g (d @ e) = mapv g d @ mapv g e"
  "length (mapv g d) = length d" "map fst (mapv g d) = map fst d"
  by (simp_all add: mapv_def case_prod_beta comp_def)

lemma map_of_mapv: "map_of (mapv g d) k = map_option g (map_of d k)"
  by (induction d) (auto simp: mapv_def)

lemma delete_mapv: "AList.delete k (mapv g d) = mapv g (AList.delete k d)"
  by (induction d) (auto simp: mapv_def)

lemma update_mapv: "AList.update k (g v) (mapv g d) = mapv g (AList.update k v d)"
  by (induction d) (auto simp: mapv_def)

lemma move_mapv: "move_to_end k (mapv g d) = mapv g (move_to_end k d)"
  by (simp add: move_to_end_def map_of_mapv delete_mapv split: option.split)

lemma evict_mapv: "evict cap (mapv g d) = mapv g (evict cap d)"
  by (induction d) (auto simp: mapv_def)

lemma insert_mapv: "insert_new cap k (g v) (mapv g d) = mapv g (insert_new cap k v d)"
  by (simp add: insert_new_def evict_mapv update_mapv)

lemma fold_delete_mapv: "fold AList.delete ks (mapv g d) = mapv g (fold AList.delete ks d)"
  by (induction ks arbitrary: d) (simp_all add: delete_mapv)

lemma purge_mapv: "purge seen ttl now (mapv g d) = mapv g (purge (\<lambda>v. seen (g v)) ttl now d)"
proof -
  have "map fst (filter (\<lambda>p. now - seen (snd p) > ttl) (mapv g d)) = map fst (filter (\<lambda>p. now - seen (g (snd p)) > ttl) d)"
    by (induction d) (auto simp: mapv_def)
  then show ?thesis by (simp add: purge_def Let_def fold_delete_mapv)
qed

lemma mapv_cong: "(\<And>k v. (k, v) \<in> set d \<Longrightarrow> f v = g v) \<Longrightarrow> mapv f d = mapv g d"
  by (auto simp: mapv_def)

lemma mapv_write_absent:
  assumes "r \<notin> snd ` set d"
  shows "mapv (\<lambda>v. store[r := x] ! v) d = mapv (\<lambda>v. store ! v) d"
proof (rule mapv_cong)
  fix k v assume "(k, v) \<in> set d"
  with assms have "v \<noteq> r" by (metis image_eqI snd_conv)
  then show "store[r := x] ! v = store ! v" by simp
qed

text \<open>Writing through a reference changes the one entry that holds it.\<close>

lemma mapv_write:
  assumes "distinct (map fst d)" and "distinct (map snd d)" and "map_of d k = Some r" and "\<forall>v \<in> snd ` set d. v < length store"
  shows "mapv (\<lambda>v. store[r := x] ! v) d = AList.update k x (mapv (\<lambda>v. store ! v) d)"
  using assms
proof (induction d)
  case (Cons p d)
  obtain j v where p: "p = (j, v)" by fastforce
  show ?case
  proof (cases "j = k")
    case True
    then have "r = v" "r \<notin> snd ` set d" using Cons.prems p by auto
    then have "mapv (\<lambda>v. store[r := x] ! v) d = mapv (\<lambda>v. store ! v) d" by (intro mapv_write_absent)
    with True Cons.prems p \<open>r = v\<close> show ?thesis by simp
  next
    case False
    then have "map_of d k = Some r" using Cons.prems(3) p by simp
    moreover from this have "v \<noteq> r" using Cons.prems(2) p by (auto dest: map_of_SomeD) (metis image_eqI map_of_SomeD snd_conv)
    ultimately show ?thesis using Cons False p by simp
  qed
qed simp

subsection \<open>The manager on references implements the manager\<close>

definition manager_of :: "world \<Rightarrow> session_manager" where
  "manager_of w = \<lparr>max_sessions = w_max w, ses_ttl_seconds = w_ttl w,
     sessions = mapv (\<lambda>r. w_store w ! r) (w_sessions w)\<rparr>"

text \<open>The dictionary is sound: at most one entry per address, no object under two addresses.\<close>

definition refs_ok :: "world \<Rightarrow> bool" where
  "refs_ok w \<longleftrightarrow> 1 \<le> w_max w \<and> 0 \<le> w_ttl w \<and> cache_ok (w_max w) (w_sessions w) \<and> distinct (map snd (w_sessions w)) \<and>
     (\<forall>r \<in> snd ` set (w_sessions w). r < length (w_store w))"

lemma ses_inv_manager: "refs_ok w \<Longrightarrow> ses_inv (manager_of w)"
  by (simp add: refs_ok_def ses_inv_def manager_of_def cache_ok_def)

lemma refs_okD:
  assumes "refs_ok w"
  shows "distinct (map fst (w_sessions w))" "distinct (map snd (w_sessions w))"
    "\<And>k r. map_of (w_sessions w) k = Some r \<Longrightarrow> r < length (w_store w)"
  using assms by (auto simp: refs_ok_def cache_ok_def dest: map_of_SomeD)

lemma distinct_refs_subset: "distinct (map snd d) \<Longrightarrow> distinct (map snd (filter P d))"
  by (rule distinct_map_filter)

lemma refs_purge: "refs_ok w \<Longrightarrow> refs_ok (ref_purge now w)"
  using set_purge [of "\<lambda>r. ses_last_seen (w_store w ! r)" "w_ttl w" now "w_sessions w"]
  by (auto simp: refs_ok_def ref_purge_def cache_ok_purge) (simp add: purge_def Let_def fold_delete distinct_refs_subset)

lemma move_refs:
  assumes "distinct (map fst d)" and "distinct (map snd d)"
  shows "distinct (map snd (move_to_end k d))"
proof (cases "map_of d k")
  case (Some v)
  have "v \<notin> snd ` set (AList.delete k d)"
  proof
    assume "v \<in> snd ` set (AList.delete k d)"
    then obtain j where "(j, v) \<in> set d" "j \<noteq> k" by (auto simp: AList.delete_eq)
    moreover have "(k, v) \<in> set d" by (rule map_of_SomeD [OF Some])
    moreover have "inj_on snd (set d)" using assms(2) by (simp add: distinct_map)
    ultimately show False using inj_onD [of snd "set d" "(j, v)" "(k, v)"] by simp
  qed
  with Some assms(2) show ?thesis by (simp add: move_to_end_def AList.delete_eq distinct_map_filter)
qed (simp add: move_to_end_def assms(2))

lemma refs_stamp:
  assumes "refs_ok w" and "map_of (w_sessions w) ip = Some r"
  shows "refs_ok (ref_stamp ip r now w)"
  using assms move_refs [of "w_sessions w" ip] refs_okD [OF assms(1)]
  by (auto simp: refs_ok_def ref_stamp_def cache_ok_move set_move_to_end)

lemma refs_touch: "refs_ok w \<Longrightarrow> refs_ok (ref_touch ip now w)"
  by (simp add: ref_touch_def refs_stamp split: option.split)

lemma insert_new_absent:
  assumes "map_of d k = None"
  shows "insert_new cap k v d = evict cap d @ [(k, v)]"
proof -
  have "map_of (evict cap d) k = None"
    using assms set_mono_suffix [OF evict_suffix [of cap d]] by (auto simp: map_of_eq_None_iff)
  then show ?thesis by (simp add: insert_new_def keys_update_absent)
qed

lemma refs_create:
  assumes "refs_ok w" and "map_of (w_sessions w) ip = None"
  shows "refs_ok (w\<lparr>w_store := w_store w @ [x], w_sessions := insert_new (w_max w) ip (length (w_store w)) (w_sessions w)\<rparr>)"
proof -
  obtain e where e: "w_sessions w = e @ evict (w_max w) (w_sessions w)"
    using evict_suffix [of "w_max w" "w_sessions w"] by (auto simp: suffix_def)
  have sub: "set (evict (w_max w) (w_sessions w)) \<subseteq> set (w_sessions w)" by (rule set_mono_suffix [OF evict_suffix])
  have "distinct (map snd (evict (w_max w) (w_sessions w)))"
    using refs_okD(2) [OF assms(1)] by (subst (asm) e) simp
  then show ?thesis
    using assms sub cache_ok_insert [of "w_max w" "w_sessions w" ip "length (w_store w)"]
    by (fastforce simp: refs_ok_def insert_new_absent less_Suc_eq)
qed

lemma refs_get_or_create: "refs_ok w \<Longrightarrow> refs_ok (snd (ref_get_or_create ip now v w))"
  using refs_purge [of w now]
  by (auto simp: ref_get_or_create_def Let_def refs_stamp refs_create split: option.split)

lemma manager_purge: "manager_of (ref_purge now w) = ses_purge now (manager_of w)"
  by (simp add: manager_of_def ref_purge_def ses_purge_def purge_mapv)

lemma manager_stamp:
  assumes "refs_ok w" and "map_of (w_sessions w) ip = Some r"
  shows "manager_of (ref_stamp ip r now w) =
    (manager_of w)\<lparr>sessions := refresh ses_stamp now ip (sessions (manager_of w))\<rparr>"
  using assms mapv_write [of "w_sessions w" ip r "w_store w" "ses_stamp now (w_store w ! r)"] refs_okD [OF assms(1)]
  by (simp add: manager_of_def ref_stamp_def refresh_def map_of_mapv refs_ok_def flip: move_mapv)

lemma manager_create:
  assumes "refs_ok w"
  shows "manager_of (w\<lparr>w_store := w_store w @ [x], w_sessions := insert_new (w_max w) ip (length (w_store w)) (w_sessions w)\<rparr>) =
    (manager_of w)\<lparr>sessions := insert_new (w_max w) ip x (sessions (manager_of w))\<rparr>"
proof -
  let ?g = "\<lambda>r. (w_store w @ [x]) ! r"
  have "mapv ?g (w_sessions w) = mapv (\<lambda>r. w_store w ! r) (w_sessions w)"
    using assms by (intro mapv_cong) (force simp: refs_ok_def nth_append)
  moreover have "?g (length (w_store w)) = x" by simp
  ultimately show ?thesis
    by (simp add: manager_of_def flip: insert_mapv)
qed

lemma manager_simps:
  "sessions (manager_of w) = mapv (\<lambda>r. w_store w ! r) (w_sessions w)" "max_sessions (manager_of w) = w_max w"
  "ses_ttl_seconds (manager_of w) = w_ttl w"
  by (simp_all add: manager_of_def)

lemma manager_get_or_create:
  assumes "refs_ok w"
  shows "manager_of (snd (ref_get_or_create ip now v w)) = snd (get_or_create ip now v (manager_of w))"
  using refs_purge [OF assms, of now]
  by (simp add: ref_get_or_create_def get_or_create_def Let_def manager_stamp manager_create
      map_of_mapv manager_simps flip: manager_purge split: option.split)

lemma handed_value:
  assumes "refs_ok w"
  shows "w_store (snd (ref_get_or_create ip now v w)) ! fst (ref_get_or_create ip now v w) = fst (get_or_create ip now v (manager_of w))"
proof -
  have "\<And>r. map_of (w_sessions (ref_purge now w)) ip = Some r \<Longrightarrow> r < length (w_store (ref_purge now w))"
    by (rule refs_okD(3) [OF refs_purge [OF assms]])
  then show ?thesis
    by (simp add: ref_get_or_create_def get_or_create_def Let_def ref_stamp_def map_of_mapv manager_simps
        flip: manager_purge split: option.split)
qed

lemma manager_touch: "refs_ok w \<Longrightarrow> manager_of (ref_touch ip now w) = ses_touch ip now (manager_of w)"
  by (simp add: ref_touch_def ses_touch_def manager_stamp map_of_mapv manager_simps split: option.split)

text \<open>
  C22. Session objects implement sessions.  The manager that hands out references to objects, with the
  objects shared by all who hold them, does step by step what the manager on values does: looking
  up or making a session, touching and sweeping commute with reading off the values, and the object
  handed out has the value that is returned.
\<close>

theorem objects_implement_sessions:
  assumes "refs_ok w"
  shows "manager_of (snd (ref_get_or_create ip now v w)) = snd (get_or_create ip now v (manager_of w)) \<and>
    w_store (snd (ref_get_or_create ip now v w)) ! fst (ref_get_or_create ip now v w) = fst (get_or_create ip now v (manager_of w)) \<and>
    manager_of (ref_touch ip now w) = ses_touch ip now (manager_of w) \<and>
    manager_of (ref_sweep now w) = snd (ses_sweep now (manager_of w))"
  by (intro conjI manager_get_or_create handed_value manager_touch assms) (simp add: ref_sweep_def ses_sweep_def Let_def manager_purge)

theorem objects_implement_sessions_witness:
  "let w = initial_world tiny_auth \<lparr>max_sessions = 2, ses_ttl_seconds = 10, sessions = []\<rparr> [] []
   in manager_of (ref_touch ''a'' 3 w) = ses_touch ''a'' 3 (manager_of w)"
proof -
  define w where "w = initial_world tiny_auth \<lparr>max_sessions = 2, ses_ttl_seconds = 10, sessions = []\<rparr> [] []"
  have "refs_ok w" by (simp add: w_def initial_world_def refs_ok_def)
  from objects_implement_sessions [OF this] show ?thesis by (simp add: w_def)
qed

subsection \<open>Directories of shells that share a session\<close>

text \<open>
  Two shells on one session object have directories of their own and one common record of the last;
  all of them stay rooted.
\<close>

definition dirs_rooted :: "shell \<Rightarrow> bool" where
  "dirs_rooted s \<longleftrightarrow> sh_home s \<noteq> ''-'' \<and> rooted_path (sh_cwd s) \<and>
     (case sh_oldpwd s of None \<Rightarrow> True | Some d \<Rightarrow> rooted_path d)"

definition record_rooted :: "shell \<Rightarrow> bool" where
  "record_rooted s \<longleftrightarrow> (case sh_ip_cwd s of None \<Rightarrow> False | Some d \<Rightarrow> rooted_path d)"

definition root_step :: "shell \<Rightarrow> shell \<Rightarrow> bool" where
  "root_step s s' \<longleftrightarrow> (dirs_rooted s \<longrightarrow> dirs_rooted s' \<and> (record_rooted s \<longrightarrow> record_rooted s'))"

lemma root_step_same:
  "sh_home s' = sh_home s \<Longrightarrow> sh_cwd s' = sh_cwd s \<Longrightarrow> sh_oldpwd s' = sh_oldpwd s \<Longrightarrow>
   sh_ip_cwd s' = sh_ip_cwd s \<Longrightarrow> root_step s s'"
  by (simp add: root_step_def dirs_rooted_def record_rooted_def)

interpretation roots: shell_relation h root_step
proof unfold_locales
  fix s :: shell and target raw
  assume "target = canonicalize raw (sh_cwd s) (sh_home s) \<and> (raw \<noteq> ''-'' \<or> raw = sh_home s) \<or>
    sh_oldpwd s = Some target"
  then show "root_step s (s\<lparr>sh_oldpwd := Some (sh_cwd s), sh_cwd := target,
      sh_ip_cwd := map_option (\<lambda>_. target) (sh_ip_cwd s)\<rparr>)"
    by (auto simp: root_step_def dirs_rooted_def record_rooted_def rooted_canonicalize split: option.splits)
next
  fix s s' :: shell and d assume "root_step (s\<lparr>sh_script_depth := d\<rparr>) s'"
  then show "root_step s (s'\<lparr>sh_script_depth := sh_script_depth s\<rparr>)"
    by (simp add: root_step_def dirs_rooted_def record_rooted_def)
next
  fix s s' s'' assume "root_step s s'" "root_step s' s''"
  then show "root_step s s''" by (simp add: root_step_def)
qed (auto intro: root_step_same)

subsection \<open>The invariant of the world\<close>

text \<open>The addresses under which an object is known, to the manager or to a client.\<close>

definition holders :: "world \<Rightarrow> (string \<times> nat) set" where
  "holders w = set (w_sessions w) \<union> (\<lambda>c. (cl_ip c, cl_ref c)) ` set (w_clients w)"

definition belongs :: "string \<Rightarrow> nat \<Rightarrow> world \<Rightarrow> bool" where
  "belongs ip r w \<longleftrightarrow> r < length (w_store w) \<and> (\<forall>j. (j, r) \<in> holders w \<longrightarrow> j = ip)"

definition world_ok :: "world \<Rightarrow> bool" where
  "world_ok w \<longleftrightarrow> refs_ok w \<and> auth_inv (w_auth w) \<and> (\<forall>s \<in> set (w_store w). session_ok s) \<and>
     (\<forall>c \<in> set (w_clients w). dirs_rooted (cl_shell c)) \<and> (\<forall>ip r. (ip, r) \<in> holders w \<longrightarrow> belongs ip r w)"

definition contents :: "ip_session \<Rightarrow> vfs \<times> (string \<times> string) list \<times> string" where
  "contents s = (ses_vfs s, ses_llm_cache s, ses_cwd s)"

text \<open>What the calls of the manager do: time stamps change, entries go, one new object may come.\<close>

definition managed :: "world \<Rightarrow> world \<Rightarrow> bool" where
  "managed w w' \<longleftrightarrow> w_clients w' = w_clients w \<and> w_auth w' = w_auth w \<and> w_max w' = w_max w \<and>
     map contents (take (length (w_store w)) (w_store w')) = map contents (w_store w) \<and>
     (\<forall>s \<in> set (drop (length (w_store w)) (w_store w')). session_ok s) \<and>
     set (w_sessions w') \<subseteq> set (w_sessions w) \<union> UNIV \<times> {length (w_store w)}"

lemma session_ok_contents: "contents s = contents s' \<Longrightarrow> session_ok s = session_ok s'"
  by (simp add: contents_def session_ok_def)

lemma contents_stamp [simp]: "contents (ses_stamp now s) = contents s"
  by (simp add: contents_def)

lemma managed_purge: "managed w (ref_purge now w)"
  using set_purge [of "\<lambda>r. ses_last_seen (w_store w ! r)" "w_ttl w" now "w_sessions w"]
  by (auto simp: managed_def ref_purge_def)

lemma map_contents_stamp: "map contents (store[r := ses_stamp now (store ! r)]) = map contents store"
  by (cases "r < length store") (simp_all add: map_update list_update_same_conv list_update_beyond)

lemma managed_stamp:
  assumes "refs_ok w"
  shows "managed w (ref_stamp ip r now w)"
  using refs_okD(1) [OF assms] by (auto simp: managed_def ref_stamp_def map_contents_stamp set_move_to_end)

lemma managed_touch: "refs_ok w \<Longrightarrow> managed w (ref_touch ip now w)"
  by (auto simp: ref_touch_def managed_stamp split: option.split) (simp add: managed_def)

lemma managed_create:
  assumes "map_of (w_sessions w) ip = None" and "session_ok s"
  shows "managed w (w\<lparr>w_store := w_store w @ [s], w_sessions := insert_new (w_max w) ip (length (w_store w)) (w_sessions w)\<rparr>)"
  using set_mono_suffix [OF evict_suffix [of "w_max w" "w_sessions w"]] assms
  by (auto simp: managed_def insert_new_absent)

lemma managed_after_purge: "managed (ref_purge now w) w' \<Longrightarrow> managed w w'"
  using set_purge [of "\<lambda>r. ses_last_seen (w_store w ! r)" "w_ttl w" now "w_sessions w"]
  by (simp add: managed_def ref_purge_def) blast

lemma managed_get_or_create:
  "refs_ok w \<Longrightarrow> managed w (snd (ref_get_or_create ip now create_default_vfs w))"
  by (rule managed_after_purge [of now])
    (simp add: ref_get_or_create_def Let_def managed_stamp refs_purge managed_create session_ok_fresh split: option.split)

lemma managed_store:
  assumes "managed w w'"
  shows "length (w_store w) \<le> length (w_store w')"
    "r < length (w_store w) \<Longrightarrow> contents (w_store w' ! r) = contents (w_store w ! r)"
proof -
  have m: "map contents (take (length (w_store w)) (w_store w')) = map contents (w_store w)"
    using assms by (simp add: managed_def)
  have "min (length (w_store w')) (length (w_store w)) = length (w_store w)"
    using arg_cong [OF m, of length] by (simp del: map_eq_conv)
  then show l: "length (w_store w) \<le> length (w_store w')" by simp
  show "contents (w_store w' ! r) = contents (w_store w ! r)" if "r < length (w_store w)"
    using arg_cong [OF m, of "\<lambda>xs. xs ! r"] that l by simp
qed

lemma managed_belongs:
  assumes "managed w w'" and "belongs ip r w"
  shows "belongs ip r w'"
proof -
  have "holders w' \<subseteq> holders w \<union> UNIV \<times> {length (w_store w)}"
    using assms(1) unfolding managed_def holders_def by auto
  with assms managed_store(1) [OF assms(1)] show ?thesis by (auto simp: belongs_def)
qed

lemma managed_ok:
  assumes "world_ok w" and "managed w w'" and "refs_ok w'"
  shows "world_ok w'"
proof -
  have s: "session_ok s" if s: "s \<in> set (w_store w')" for s
  proof -
    obtain r where r: "r < length (w_store w')" "w_store w' ! r = s" using s by (auto simp: in_set_conv_nth)
    show ?thesis
    proof (cases "r < length (w_store w)")
      case True
      then have "session_ok (w_store w ! r)" using assms(1) by (simp add: world_ok_def)
      with session_ok_contents [OF managed_store(2) [OF assms(2) True]] r show ?thesis by simp
    next
      case False
      then have "s \<in> set (drop (length (w_store w)) (w_store w'))"
        using r by (auto simp: in_set_conv_nth intro!: exI [of _ "r - length (w_store w)"])
      with assms(2) show ?thesis by (simp add: managed_def)
    qed
  qed
  have h: "belongs ip r w'" if h: "(ip, r) \<in> holders w'" for ip r
  proof (cases "(ip, r) \<in> holders w")
    case True
    then show ?thesis using assms(1,2) by (auto simp: world_ok_def intro: managed_belongs)
  next
    case False
    then have new: "(ip, r) \<in> set (w_sessions w')" "r = length (w_store w)"
      using h assms(2) by (auto simp: holders_def managed_def)
    have "(j, r) \<notin> (\<lambda>c. (cl_ip c, cl_ref c)) ` set (w_clients w')" for j
    proof
      assume "(j, r) \<in> (\<lambda>c. (cl_ip c, cl_ref c)) ` set (w_clients w')"
      then have "belongs j r w" using assms(1,2) unfolding world_ok_def managed_def holders_def by auto
      with new(2) show False by (simp add: belongs_def)
    qed
    moreover have "j = ip" if "(j, r) \<in> set (w_sessions w')" for j
      using that new(1) refs_okD(2) [OF assms(3)] inj_onD [of snd "set (w_sessions w')" "(j, r)" "(ip, r)"]
      by (simp add: distinct_map)
    moreover have "r < length (w_store w')" using new(1) assms(3) by (force simp: refs_ok_def)
    ultimately show ?thesis by (simp add: belongs_def holders_def)
  qed
  show ?thesis using assms s h by (simp add: world_ok_def managed_def)
qed

text \<open>A handler writes its own object and its own entry of the clients, nothing else.\<close>

definition acted :: "nat \<Rightarrow> world \<Rightarrow> world \<Rightarrow> bool" where
  "acted i w w' \<longleftrightarrow> w_sessions w' = w_sessions w \<and> w_auth w' = w_auth w \<and> w_max w' = w_max w \<and> w_ttl w' = w_ttl w \<and>
     (\<exists>s c. w_store w' = (w_store w)[cl_ref (w_clients w ! i) := s] \<and> w_clients w' = (w_clients w)[i := c] \<and>
        session_ok s \<and> dirs_rooted (cl_shell c) \<and> cl_ip c = cl_ip (w_clients w ! i) \<and> cl_ref c = cl_ref (w_clients w ! i))"

lemma acted_holders:
  assumes "acted i w w'" and "i < length (w_clients w)"
  shows "holders w' = holders w"
proof -
  obtain c where c: "w_clients w' = (w_clients w)[i := c]" "cl_ip c = cl_ip (w_clients w ! i)" "cl_ref c = cl_ref (w_clients w ! i)"
    using assms(1) by (auto simp: acted_def)
  then have "map (\<lambda>c. (cl_ip c, cl_ref c)) (w_clients w') = map (\<lambda>c. (cl_ip c, cl_ref c)) (w_clients w)"
    using assms(2) by (simp add: map_update list_update_same_conv)
  from arg_cong [OF this, of set] show ?thesis using assms(1) by (simp add: holders_def acted_def)
qed

lemma acted_belongs:
  "acted i w w' \<Longrightarrow> i < length (w_clients w) \<Longrightarrow> belongs ip r w' = belongs ip r w"
  using acted_holders [of i w w'] by (auto simp: belongs_def acted_def)

lemma acted_ok:
  assumes "world_ok w" and "acted i w w'" and "i < length (w_clients w)"
  shows "world_ok w'"
proof -
  have "refs_ok w'" using assms(1,2) by (auto simp: world_ok_def refs_ok_def acted_def)
  moreover have "\<forall>s \<in> set (w_store w'). session_ok s" "\<forall>c \<in> set (w_clients w'). dirs_rooted (cl_shell c)"
    using assms(1,2) by (auto simp: world_ok_def acted_def dest!: set_update_subset_insert [THEN subsetD])
  ultimately show ?thesis
    using assms acted_belongs [OF assms(2,3)] acted_holders [OF assms(2,3)] by (simp add: world_ok_def acted_def)
qed

lemma client_object:
  assumes "world_ok w" and "i < length (w_clients w)"
  shows "belongs (cl_ip (w_clients w ! i)) (cl_ref (w_clients w ! i)) w"
    "session_ok (w_store w ! cl_ref (w_clients w ! i))" "dirs_rooted (cl_shell (w_clients w ! i))"
proof -
  have "(cl_ip (w_clients w ! i), cl_ref (w_clients w ! i)) \<in> holders w" using assms(2) by (auto simp: holders_def)
  then show b: "belongs (cl_ip (w_clients w ! i)) (cl_ref (w_clients w ! i)) w" using assms(1) by (simp add: world_ok_def)
  show "session_ok (w_store w ! cl_ref (w_clients w ! i))" using assms(1) b by (simp add: world_ok_def belongs_def)
  show "dirs_rooted (cl_shell (w_clients w ! i))" using assms by (simp add: world_ok_def)
qed

lemma save_acted:
  assumes "world_ok w" and "i < length (w_clients w)" and "exec fuel h l (load w (w_clients w ! i)) = (r, s)"
    and "cl_ip c = cl_ip (w_clients w ! i)" and "cl_ref c = cl_ref (w_clients w ! i)"
  shows "acted i w (save i c s w)"
proof -
  let ?o = "w_store w ! cl_ref (w_clients w ! i)" and ?s = "load w (w_clients w ! i)"
  note o = client_object [OF assms(1,2)]
  have l: "sh_vfs ?s = ses_vfs ?o" "dirs_rooted ?s" "record_rooted ?s"
    using o by (simp_all add: load_def Let_def dirs_rooted_def record_rooted_def session_ok_def)
  have "vfs_reachable (ses_vfs ?o) (sh_vfs s)" using frame.exec_result_R [OF assms(3)] l(1) by (simp add: frame_step_def)
  moreover have "dirs_rooted s" "record_rooted s"
    using roots.exec_result_R [OF assms(3)] l(2,3) by (simp_all add: root_step_def)
  ultimately have "session_ok (?o\<lparr>ses_vfs := sh_vfs s, ses_llm_cache := sh_llm_cache s, ses_cwd := the (sh_ip_cwd s)\<rparr>)"
    "dirs_rooted s"
    using o(2) by (auto simp: session_ok_def record_rooted_def split: option.splits intro: vfs_reachable_trans)
  with assms(4,5) show ?thesis by (auto simp: acted_def save_def intro!: exI [of _ "c\<lparr>cl_shell := s\<rparr>"])
qed

text \<open>The world of \<^verbatim>\<open>finish\<close> before \<^verbatim>\<open>touch\<close>.\<close>

definition closed :: "nat \<Rightarrow> world \<Rightarrow> world" where
  "closed i w =
     (let c = w_clients w ! i
      in w\<lparr>w_store := (w_store w)[cl_ref c := (w_store w ! cl_ref c)\<lparr>ses_cwd := sh_cwd (cl_shell c)\<rparr>],
           w_clients := (w_clients w)[i := c\<lparr>cl_live := False\<rparr>]\<rparr>)"

lemma finish_closed: "finish i now w = ref_touch (cl_ip (w_clients w ! i)) now (closed i w)"
  by (simp add: finish_def closed_def Let_def)

lemma closed_acted:
  assumes "world_ok w" and "i < length (w_clients w)"
  shows "acted i w (closed i w)"
  using client_object [OF assms]
  by (auto simp: acted_def closed_def Let_def session_ok_def dirs_rooted_def
      intro!: exI [of _ "(w_clients w ! i)\<lparr>cl_live := False\<rparr>"])

lemma joined_ok:
  assumes "world_ok w" and "(cl_ip c, cl_ref c) \<in> set (w_sessions w)" and "dirs_rooted (cl_shell c)"
  shows "world_ok (w\<lparr>w_clients := w_clients w @ [c]\<rparr>)"
proof -
  have h: "holders (w\<lparr>w_clients := w_clients w @ [c]\<rparr>) = holders w" using assms(2) by (auto simp: holders_def)
  then have "belongs ip r (w\<lparr>w_clients := w_clients w @ [c]\<rparr>) = belongs ip r w" for ip r by (simp add: belongs_def)
  with assms h show ?thesis by (simp add: world_ok_def refs_ok_def)
qed

lemma belongs_auth [simp]:
  "holders (w\<lparr>w_auth := am, w_logs := l\<rparr>) = holders w"
  "belongs ip r (w\<lparr>w_auth := am, w_logs := l\<rparr>) = belongs ip r w"
  by (simp_all add: belongs_def holders_def)

lemma authenticated_ok: "world_ok w \<Longrightarrow> auth_inv am \<Longrightarrow> world_ok (w\<lparr>w_auth := am, w_logs := l\<rparr>)"
  by (simp add: world_ok_def refs_ok_def)

subsection \<open>The interface of a property of the world\<close>

text \<open>
  A property that each kind of change keeps, where the changes of handlers are only those of admitted
  addresses, is kept by every step.
\<close>

locale world_property =
  fixes P :: "world \<Rightarrow> bool" and admitted :: "string option \<Rightarrow> bool"
  assumes P_managed: "world_ok w \<Longrightarrow> managed w w' \<Longrightarrow> refs_ok w' \<Longrightarrow> P w \<Longrightarrow> P w'"
    and P_acted: "world_ok w \<Longrightarrow> i < length (w_clients w) \<Longrightarrow> admitted (Some (cl_ip (w_clients w ! i))) \<Longrightarrow>
      acted i w w' \<Longrightarrow> P w \<Longrightarrow> P w'"
    and P_joined: "world_ok w \<Longrightarrow> (cl_ip c, cl_ref c) \<in> set (w_sessions w) \<Longrightarrow> P w \<Longrightarrow> P (w\<lparr>w_clients := w_clients w @ [c]\<rparr>)"
    and P_authenticated: "auth_config am = auth_config (w_auth w) \<Longrightarrow> P w \<Longrightarrow> P (w\<lparr>w_auth := am, w_logs := l\<rparr>)"
begin

definition kept :: "world \<Rightarrow> bool" where
  "kept w \<longleftrightarrow> world_ok w \<and> P w"

lemma managed_kept: "kept w \<Longrightarrow> managed w w' \<Longrightarrow> refs_ok w' \<Longrightarrow> kept w'"
  using managed_ok P_managed by (auto simp: kept_def)

lemma touch_kept: "kept w \<Longrightarrow> kept (ref_touch ip now w)"
  by (rule managed_kept) (auto simp: kept_def world_ok_def intro: managed_touch refs_touch)

lemma authenticated_kept:
  "kept w \<Longrightarrow> auth_inv am \<Longrightarrow> auth_config am = auth_config (w_auth w) \<Longrightarrow> kept (w\<lparr>w_auth := am, w_logs := l\<rparr>)"
  using authenticated_ok P_authenticated by (simp add: kept_def)

lemma auth_kept: "kept w \<Longrightarrow> auth_inv am \<Longrightarrow> auth_config am = auth_config (w_auth w) \<Longrightarrow> kept (w\<lparr>w_auth := am\<rparr>)"
  using authenticated_kept [of w am "w_logs w"] by simp

lemma connects_kept:
  assumes "kept w"
  shows "kept (client_connects sid ip interactive now w)"
proof -
  obtain r w1 where g: "ref_get_or_create ip now create_default_vfs w = (r, w1)" by fastforce
  have refs: "refs_ok w" using assms by (simp add: kept_def world_ok_def)
  have w1: "kept w1"
    by (rule managed_kept [OF assms]) (use managed_get_or_create [OF refs, of ip now] refs_get_or_create [OF refs, of ip now create_default_vfs] g in simp_all)
  have m: "(ip, r) \<in> set (w_sessions w1)"
    using g set_move_to_end [OF refs_okD(1) [OF refs_purge [OF refs]], of ip now]
    by (auto simp: ref_get_or_create_def Let_def ref_stamp_def insert_new_absent dest: map_of_SomeD split: option.splits)
  then have "session_ok (w_store w1 ! r)"
    using w1 by (force simp: kept_def world_ok_def belongs_def holders_def)
  then have "dirs_rooted (Shell (ses_vfs (w_store w1 ! r)) (ses_llm_cache (w_store w1 ! r)) sid ip
      (Some (ses_cwd (w_store w1 ! r))) (Some (ses_cwd (w_store w1 ! r))))"
    using home_default by (simp add: session_ok_def dirs_rooted_def Shell_def Let_def DEFAULT_HOME_def)
  then show ?thesis
    using g w1 m joined_ok P_joined by (simp add: client_connects_def Let_def kept_def)
qed

lemma acted_kept: "kept w \<Longrightarrow> i < length (w_clients w) \<Longrightarrow> admitted (Some (cl_ip (w_clients w ! i))) \<Longrightarrow> acted i w w' \<Longrightarrow> kept w'"
  using acted_ok P_acted by (auto simp: kept_def)

lemma finish_kept:
  assumes "kept w" and "i < length (w_clients w)" and "admitted (Some (cl_ip (w_clients w ! i)))"
  shows "kept (finish i now w)"
  unfolding finish_closed
  by (rule touch_kept [OF acted_kept [OF assms closed_acted]]) (use assms in \<open>simp_all add: kept_def\<close>)

lemma handler_kept:
  assumes "kept w" and "i < length (w_clients w)" and "admitted (Some (cl_ip (w_clients w ! i)))"
    and "exec fuel h l (load w (w_clients w ! i)) = (r, s)"
  shows "kept (save i ((w_clients w ! i)\<lparr>cl_out := out\<rparr>) s w)"
    "kept (finish i now (save i ((w_clients w ! i)\<lparr>cl_out := out\<rparr>) s w))"
proof -
  have ok: "world_ok w" using assms(1) by (simp add: kept_def)
  show k: "kept (save i ((w_clients w ! i)\<lparr>cl_out := out\<rparr>) s w)" for out
    by (rule acted_kept [OF assms(1-3) save_acted [OF ok assms(2,4)]]) simp_all
  show "kept (finish i now (save i ((w_clients w ! i)\<lparr>cl_out := out\<rparr>) s w))"
    by (rule finish_kept [OF k]) (use assms(2,3) in \<open>simp_all add: save_def\<close>)
qed

lemma world_step_kept: "world_step w a w' \<Longrightarrow> admitted a \<Longrightarrow> kept w \<Longrightarrow> kept w'"
proof (induction rule: world_step.induct)
  case (line i w l fuel h now)
  obtain r s where x: "exec fuel h (rstrip (\<lambda>c. c \<in> {cr, nl}) l) (load w (w_clients w ! i)) = (r, s)" by fastforce
  have [simp]: "(w_clients w ! i)\<lparr>cl_out := cl_out (w_clients w ! i)\<rparr> = w_clients w ! i" by simp
  from handler_kept [OF line(6,1,5) x] handler_kept(2) [OF line(6,1,5) x, of now "cl_out (w_clients w ! i)"] show ?case
    unfolding client_line_def Let_def x prod.case by (auto split: sum.split)
next
  case (command i w fuel h cmd now)
  obtain r s where x: "exec fuel h cmd (load w (w_clients w ! i)) = (r, s)" by fastforce
  from handler_kept(2) [OF command(5,1,4) x] handler_kept(2) [OF command(5,1,4) x, of now "cl_out (w_clients w ! i)"] show ?case
    unfolding client_command_def Let_def x prod.case by (auto split: sum.split)
next
  case (sweeps w now now')
  have "kept (ref_sweep now w)"
    by (rule managed_kept [OF sweeps(2)]) (use sweeps(2) in \<open>simp_all add: ref_sweep_def managed_purge refs_purge kept_def world_ok_def\<close>)
  then show ?case unfolding ref_periodic_sweep_def Let_def
    by (rule auth_kept) (use auth_purge_inv \<open>kept (ref_sweep now w)\<close> in \<open>simp_all add: auth_sweep_def Let_def kept_def world_ok_def\<close>)
next
  case (logs_in env ip sid user pw w r am)
  then show ?case using validate_login_inv [of "w_auth w" env ip sid user pw "w_logs w"]
    by (intro authenticated_kept) (simp_all add: kept_def world_ok_def)
next
  case (pins w ip now pick uuid)
  then show ?case using get_or_pin_password_inv [of "w_auth w"]
    by (intro auth_kept) (simp_all add: kept_def world_ok_def create_session_def)
next
  case (locked_out w ip now)
  then show ?case using auth_purge_inv [of "w_auth w"]
    by (intro auth_kept) (simp_all add: kept_def world_ok_def is_locked_out_def Let_def)
next
  case (lost w now c)
  then show ?case
    by (simp add: ref_connection_lost_def Let_def release_session_def touch_kept split: option.split)
qed (simp_all add: connects_kept finish_kept)

end

sublocale world_property \<subseteq> invariant_relation kept admitted world_step
  by unfold_locales (rule world_step_kept)

text \<open>What a step keeps: the limits of the two managers, and the objects and clients of an address that does not act.\<close>

interpretation limit: world_property "\<lambda>w. w_max w = m \<and> auth_config (w_auth w) = c" "\<lambda>a. True" for m c
  by unfold_locales (simp_all add: managed_def acted_def)

definition untouched :: "string \<Rightarrow> nat \<Rightarrow> world \<Rightarrow> world \<Rightarrow> bool" where
  "untouched ip r w0 w \<longleftrightarrow> belongs ip r w \<and> contents (w_store w ! r) = contents (w_store w0 ! r) \<and>
     length (w_clients w0) \<le> length (w_clients w) \<and>
     (\<forall>i < length (w_clients w0). cl_ip (w_clients w0 ! i) = ip \<longrightarrow> w_clients w ! i = w_clients w0 ! i)"

interpretation isolated: world_property "untouched ip r w0" "\<lambda>a. a \<noteq> Some ip" for ip r w0
proof unfold_locales
  fix w w' assume "managed w w'" "untouched ip r w0 w"
  then show "untouched ip r w0 w'"
    using managed_belongs [of w w' ip r] managed_store(2) [of w w' r]
    by (simp add: untouched_def) (simp add: belongs_def managed_def)
next
  fix w w' i
  assume ok: "world_ok w" and i: "i < length (w_clients w)" and a: "Some (cl_ip (w_clients w ! i)) \<noteq> Some ip"
    and w': "acted i w w'" and u: "untouched ip r w0 w"
  have "cl_ref (w_clients w ! i) \<noteq> r"
    using client_object(1) [OF ok i] u a i by (auto simp: untouched_def belongs_def holders_def)
  with u w' i a acted_belongs [OF w' i] show "untouched ip r w0 w'"
    by (auto simp: untouched_def acted_def nth_list_update)
next
  fix w and c :: client assume m: "(cl_ip c, cl_ref c) \<in> set (w_sessions w)" and u: "untouched ip r w0 w"
  have "holders (w\<lparr>w_clients := w_clients w @ [c]\<rparr>) = holders w" using m by (auto simp: holders_def)
  with u show "untouched ip r w0 (w\<lparr>w_clients := w_clients w @ [c]\<rparr>)"
    by (simp add: untouched_def belongs_def nth_append)
qed (simp add: untouched_def)

end
