(* ===== verification/Concurrent_Properties.thy ===== *)
theory Concurrent_Properties
  imports Concurrent_Invariants
begin

text \<open>
  What holds under every interleaving of clients: the objects in use stay within their quotas and their
  number is bounded, clients of different addresses do not affect each other, and clients of one
  address share one machine.
\<close>

subsection \<open>Properties of every interleaving\<close>

lemma initial_ok:
  assumes "auth_inv am" and "ses_inv sm" and "sessions sm = []"
  shows "world_ok (initial_world am sm l q) \<and> w_max (initial_world am sm l q) = max_sessions sm"
  using assms by (simp add: initial_world_def world_ok_def refs_ok_def ses_inv_def holders_def)

lemma main_run_ok:
  assumes "server_main key connect new_key disk l q = Inr (disk', provider, w0)" and "world_run w0 as w"
  shows "world_ok w \<and> w_max w = 500 \<and> au_max_pins (w_auth w) = 500"
proof -
  obtain am sm where m: "main_auth = Inr am" "main_sessions = Inr sm" and w0: "w0 = initial_world am sm l q"
    using assms(1) by (auto simp: server_main_def Let_def split: sum.splits)
  have sm: "sessions sm = []" "ses_inv sm" "auth_inv am" "max_sessions sm = 500" "au_max_pins am = 500"
    using m main_server_inv [OF m]
    by (auto simp: main_sessions_def SessionManager_def server_inv_def store_ok_def split: if_splits)
  have "limit.kept 500 (auth_config am) w"
    by (rule limit.steps_keep [OF assms(2)])
      (use initial_ok [OF sm(3,2,1)] sm(4) w0 in \<open>simp_all add: limit.kept_def list_all_iff initial_world_def\<close>)
  then show ?thesis using sm(5) by (auto simp: limit.kept_def dest: auth_config_simps)
qed

lemma main_starts:
  "\<exists>w0. server_main key connect new_key disk l q =
     Inr (ensure_host_key HOST_KEY_PATH new_key disk, create_llm_provider key connect, w0) \<and> w_clients w0 = [] \<and> w_logs w0 = l \<and> w_quarantine w0 = q"
  by (auto simp: server_main_def Let_def main_auth_def AuthManager_def main_sessions_def SessionManager_def
      DEFAULT_WEAK_PASSWORDS_def default_limits initial_world_def)

text \<open>The objects that are reachable: those of the manager and of the clients still served.\<close>

definition live_clients :: "world \<Rightarrow> client list" where
  "live_clients w = filter cl_live (w_clients w)"

definition in_use :: "world \<Rightarrow> nat set" where
  "in_use w = snd ` set (w_sessions w) \<union> cl_ref ` set (live_clients w)"

lemma in_use_object:
  assumes "world_ok w" and "r \<in> in_use w"
  shows "session_ok (w_store w ! r)"
proof -
  have "\<exists>ip. (ip, r) \<in> holders w" using assms(2) by (auto simp: in_use_def live_clients_def holders_def)
  then show ?thesis using assms(1) by (auto simp: world_ok_def belongs_def)
qed

lemma card_in_use: "card (in_use w) \<le> length (w_sessions w) + length (live_clients w)"
proof -
  have "card (snd ` set (w_sessions w)) \<le> length (w_sessions w)"
    by (rule order_trans [OF card_image_le card_length]) simp
  moreover have "card (cl_ref ` set (live_clients w)) \<le> length (live_clients w)"
    by (rule order_trans [OF card_image_le card_length]) simp
  ultimately show ?thesis using card_Un_le [of "snd ` set (w_sessions w)" "cl_ref ` set (live_clients w)"]
    unfolding in_use_def by linarith
qed

text \<open>
  C1. Concurrent clients stay within bounds.  From the managers that \<^verbatim>\<open>main\<close> makes, whatever the clients
  do and however their lines, connections, disconnections, logins and the sweeps interleave: the
  managers hold at most 500 sessions, one per address, 500 pins and 500 failure records.  The session
  objects that are still in use are at most 500 more than the clients being served (a client keeps its
  object when the manager drops it); each of them has a well-formed filesystem with no run-time file
  above 10 MiB and a counter of at most 50 MiB, and a rooted directory.  In those in which no removal
  has exceeded the recursion limit the counter is exact, so that they hold at most 50 MiB each.
\<close>

theorem concurrent_bounded:
  assumes "server_main key connect new_key disk l q = Inr (disk', provider, w0)" and "world_run w0 as w"
  shows "length (w_sessions w) \<le> 500 \<and> distinct (map fst (w_sessions w)) \<and>
    length (au_pins (w_auth w)) \<le> 500 \<and> length (au_attempts (w_auth w)) \<le> 500 \<and>
    card (in_use w) \<le> 500 + length (live_clients w) \<and>
    (\<forall>r \<in> in_use w. within_quota (ses_vfs (w_store w ! r)) \<and> rooted_path (ses_cwd (w_store w ! r))) \<and>
    (\<Sum>r \<in> {r \<in> in_use w. \<not> removal_overflowed (ses_vfs (w_store w ! r))}. dyn_bytes (vfs_root (ses_vfs (w_store w ! r))))
      \<le> (500 + int (length (live_clients w))) * (50 * 1024 * 1024)"
proof -
  have ok: "world_ok w" and refs: "refs_ok w" and m: "w_max w = 500"
    using main_run_ok [OF assms] by (simp_all add: world_ok_def)
  have auth: "length (au_pins (w_auth w)) \<le> 500" "length (au_attempts (w_auth w)) \<le> 500"
    using main_run_ok [OF assms] by (simp_all add: world_ok_def auth_inv_def cache_ok_def)
  have n: "length (w_sessions w) \<le> 500" using refs m by (simp add: refs_ok_def cache_ok_def)
  then have card: "card (in_use w) \<le> 500 + length (live_clients w)" using card_in_use [of w] by linarith
  have q: "within_quota (ses_vfs (w_store w ! r)) \<and> rooted_path (ses_cwd (w_store w ! r))"
    if "r \<in> in_use w" for r by (rule session_ok_quota [OF in_use_object [OF ok that]])
  let ?exact = "{r \<in> in_use w. \<not> removal_overflowed (ses_vfs (w_store w ! r))}"
  have "finite (in_use w)" by (simp add: in_use_def)
  then have "card ?exact \<le> card (in_use w)" by (rule card_mono) auto
  have "(\<Sum>r \<in> ?exact. dyn_bytes (vfs_root (ses_vfs (w_store w ! r)))) \<le> of_nat (card ?exact) * (50 * 1024 * 1024)"
    by (rule sum_bounded_above) (use q in \<open>auto simp: within_quota_def\<close>)
  also have "\<dots> \<le> (500 + int (length (live_clients w))) * (50 * 1024 * 1024)"
    using card \<open>card ?exact \<le> card (in_use w)\<close> by simp
  finally show ?thesis using n auth card q refs_okD(1) [OF refs] by blast
qed

theorem concurrent_bounded_witness:
  "\<exists>disk' provider w0. server_main [] (\<lambda>_ _ _. GroqFailed) ''key'' (\<lambda>_. None) [] [] = Inr (disk', provider, w0) \<and>
     length (w_sessions (client_connects ''s'' ''192.0.2.7'' True 0 w0)) \<le> 500"
proof -
  obtain disk' provider w0 where m: "server_main [] (\<lambda>_ _ _. GroqFailed) ''key'' (\<lambda>_. None) [] [] = Inr (disk', provider, w0)"
    using main_starts by blast
  have "world_run w0 [None] (client_connects ''s'' ''192.0.2.7'' True 0 w0)" by (rule steps_single) (rule connects)
  from concurrent_bounded [OF m this] m show ?thesis by blast
qed

text \<open>
  C7. Concurrent clients are isolated.  However the steps of the server interleave, as long as no
  client of an address acts (other clients do, the server sweeps, evicts and accepts connections, also
  of this address), the next line of each of its clients runs in the very shell that the client left:
  only the shared log and quarantine have grown.  A session object of the address keeps its filesystem,
  its cache and its directory.
\<close>

theorem concurrent_isolation:
  assumes "server_main key connect new_key disk l q = Inr (disk', provider, w0)" and "world_run w0 bs w"
    and "world_run w as w'" and "Some ip \<notin> set as" and "(ip, r) \<in> holders w"
  shows "contents (w_store w' ! r) = contents (w_store w ! r) \<and>
    (\<forall>i < length (w_clients w). cl_ip (w_clients w ! i) = ip \<and> cl_ref (w_clients w ! i) = r \<longrightarrow>
      load w' (w_clients w' ! i) = (load w (w_clients w ! i))\<lparr>sh_logs := w_logs w', sh_quarantine := w_quarantine w'\<rparr>)"
proof -
  have "isolated.kept ip r w w'"
    by (rule isolated.steps_keep [OF assms(3)])
      (use main_run_ok [OF assms(1,2)] assms(4,5) in \<open>auto simp: isolated.kept_def untouched_def world_ok_def list_all_iff\<close>)
  then have u: "untouched ip r w w'" by (simp add: isolated.kept_def)
  then have "contents (w_store w' ! r) = contents (w_store w ! r)" by (simp add: untouched_def)
  with u show ?thesis by (auto simp: untouched_def load_def contents_def Let_def)
qed

lemma connects_client:
  "\<exists>c. w_clients (client_connects sid ip interactive now w) = w_clients w @ [c] \<and> cl_ip c = ip \<and> cl_live c \<and>
     cl_interactive c = interactive"
proof -
  have "w_clients (snd (ref_get_or_create ip now create_default_vfs w)) = w_clients w"
    by (simp add: ref_get_or_create_def ref_purge_def ref_stamp_def Let_def split: option.split)
  then show ?thesis by (simp add: client_connects_def Let_def case_prod_beta)
qed

theorem concurrent_isolation_witness:
  "\<exists>disk' provider w0. server_main [] (\<lambda>_ _ _. GroqFailed) ''key'' (\<lambda>_. None) [] [] = Inr (disk', provider, w0) \<and>
     (let w = client_connects ''s2'' ''192.0.2.8'' True 1 (client_connects ''s1'' ''192.0.2.7'' True 0 w0);
          w' = client_line 5 quiet_host 1 ''rm -rf /'' 2 w
      in load w' (w_clients w' ! 0) = (load w (w_clients w ! 0))\<lparr>sh_logs := w_logs w', sh_quarantine := w_quarantine w'\<rparr>)"
proof -
  obtain disk' provider w0 where m: "server_main [] (\<lambda>_ _ _. GroqFailed) ''key'' (\<lambda>_. None) [] [] = Inr (disk', provider, w0)"
    and w0: "w_clients w0 = []"
    using main_starts by blast
  define w1 where "w1 = client_connects ''s1'' ''192.0.2.7'' True 0 w0"
  define w where "w = client_connects ''s2'' ''192.0.2.8'' True 1 w1"
  define w' where "w' = client_line 5 quiet_host 1 ''rm -rf /'' 2 w"
  obtain a where a: "w_clients w1 = [a]" "cl_ip a = ''192.0.2.7''"
    using connects_client [of "''s1''" "''192.0.2.7''" True 0 w0] w0 by (auto simp: w1_def)
  obtain b where b: "w_clients w = [a, b]" "cl_ip b = ''192.0.2.8''" "cl_live b" "cl_interactive b"
    using connects_client [of "''s2''" "''192.0.2.8''" True 1 w1] a by (auto simp: w_def)
  have "world_run w0 [None] w1" unfolding w1_def by (rule steps_single) (rule connects)
  moreover have "world_run w1 [None] w" unfolding w_def by (rule steps_single) (rule connects)
  ultimately have bs: "world_run w0 ([None] @ [None]) w" by (blast intro: steps_append)
  have as: "world_run w [Some ''192.0.2.8''] w'"
    using line [of 1 w "''rm -rf /''" 5 quiet_host 2] b unfolding w'_def by (intro steps_single) simp
  have "(''192.0.2.7'', cl_ref a) \<in> holders w" using a b by (force simp: holders_def)
  from concurrent_isolation [OF m bs as _ this] a b
  have "load w' (w_clients w' ! 0) = (load w (w_clients w ! 0))\<lparr>sh_logs := w_logs w', sh_quarantine := w_quarantine w'\<rparr>"
    by simp
  with m show ?thesis unfolding w'_def w_def w1_def Let_def by blast
qed

subsection \<open>Clients of one address\<close>

text \<open>What a handler leaves in the object it works on, whether its line ends the session or not.\<close>

lemma save_object:
  assumes "cl_ref c < length (w_store w)" and "cl_ref d = cl_ref c"
  shows "sh_vfs (load (save i c s w) d) = sh_vfs s \<and> sh_llm_cache (load (save i c s w) d) = sh_llm_cache s \<and>
    sh_logs (load (save i c s w) d) = sh_logs s \<and> sh_quarantine (load (save i c s w) d) = sh_quarantine s"
  using assms by (simp add: load_def save_def Let_def)

lemma finish_object:
  assumes "world_ok w" and "i < length (w_clients w)" and "cl_ref d < length (w_store w)"
  shows "sh_vfs (load (finish i now w) d) = sh_vfs (load w d) \<and> sh_llm_cache (load (finish i now w) d) = sh_llm_cache (load w d) \<and>
    sh_logs (load (finish i now w) d) = sh_logs (load w d) \<and> sh_quarantine (load (finish i now w) d) = sh_quarantine (load w d)"
proof -
  let ?r = "cl_ref (w_clients w ! i)"
  have "refs_ok (closed i w)" using acted_ok [OF assms(1) closed_acted [OF assms(1,2)] assms(2)] by (simp add: world_ok_def)
  then have m: "managed (closed i w) (finish i now w)" unfolding finish_closed by (rule managed_touch)
  have l: "length (w_store (closed i w)) = length (w_store w)" by (simp add: closed_def Let_def)
  have c: "ses_vfs (w_store (closed i w) ! cl_ref d) = ses_vfs (w_store w ! cl_ref d)"
    "ses_llm_cache (w_store (closed i w) ! cl_ref d) = ses_llm_cache (w_store w ! cl_ref d)"
    using assms(3) by (cases "?r = cl_ref d"; simp add: closed_def Let_def)+
  have g: "w_logs (finish i now w) = w_logs w" "w_quarantine (finish i now w) = w_quarantine w"
    by (auto simp: finish_def ref_touch_def ref_stamp_def Let_def split: option.split)
  show ?thesis using managed_store(2) [OF m, of "cl_ref d"] assms(3) l c g by (simp add: load_def Let_def contents_def)
qed

lemma client_line_cases:
  assumes "exec fuel h (rstrip (\<lambda>c. c \<in> {cr, nl}) l) (load w (w_clients w ! i)) = (q, s)"
  obtains (goes_on) out where "client_line fuel h i l now w = save i ((w_clients w ! i)\<lparr>cl_out := out\<rparr>) s w"
  | (ends) out where "client_line fuel h i l now w = finish i now (save i ((w_clients w ! i)\<lparr>cl_out := out\<rparr>) s w)"
proof (cases q)
  case (Inl e)
  have "(w_clients w ! i)\<lparr>cl_out := cl_out (w_clients w ! i)\<rparr> = w_clients w ! i" by simp
  then show ?thesis using ends [of "cl_out (w_clients w ! i)"] assms Inl by (simp add: client_line_def Let_def)
next
  case (Inr r)
  then show ?thesis using goes_on ends assms by (cases "cr_exit_session r") (simp_all add: client_line_def Let_def)
qed

lemma line_shared:
  assumes ok: "world_ok w" and "i < length (w_clients w)" and "i \<noteq> j" and "cl_ref (w_clients w ! i) = cl_ref (w_clients w ! j)"
    and "exec fuel h (rstrip (\<lambda>c. c \<in> {cr, nl}) line) (load w (w_clients w ! i)) = (x, s)"
    and w': "w' = client_line fuel h i line t w" and s': "s' = load w' (w_clients w' ! j)"
  shows "sh_vfs s' = sh_vfs s \<and> sh_llm_cache s' = sh_llm_cache s \<and> sh_logs s' = sh_logs s \<and>
    sh_quarantine s' = sh_quarantine s \<and> sh_cwd s' = sh_cwd (load w (w_clients w ! j))"
proof -
  let ?d = "w_clients w ! j"
  have r: "cl_ref (w_clients w ! i) < length (w_store w)" using client_object(1) [OF ok assms(2)] by (simp add: belongs_def)
  define w1 where "w1 out = save i ((w_clients w ! i)\<lparr>cl_out := out\<rparr>) s w" for out
  have o1: "sh_vfs (load (w1 out) ?d) = sh_vfs s \<and> sh_llm_cache (load (w1 out) ?d) = sh_llm_cache s \<and>
      sh_logs (load (w1 out) ?d) = sh_logs s \<and> sh_quarantine (load (w1 out) ?d) = sh_quarantine s" for out
    unfolding w1_def using save_object r assms(4) by simp
  have c1: "w_clients (w1 out) ! j = ?d" "i < length (w_clients (w1 out))" "length (w_store (w1 out)) = length (w_store w)" for out
    using assms(2,3) by (simp_all add: w1_def save_def)
  have ok1: "world_ok (w1 out)" for out
    unfolding w1_def by (rule acted_ok [OF ok save_acted [OF ok assms(2,5)] assms(2)]) simp_all
  have c2: "w_clients (finish i t (w1 out)) ! j = ?d" for out
    using c1 [of out] assms(3) by (simp add: finish_def Let_def ref_touch_def ref_stamp_def split: option.split)
  have cwd: "sh_cwd (load w' ?d) = sh_cwd (load w ?d)" for w' by (simp add: load_def Let_def)
  show ?thesis
  proof (rule client_line_cases [OF assms(5), of t, folded w1_def])
    fix out assume "client_line fuel h i line t w = w1 out"
    then show ?thesis using o1 [of out] c1(1) [of out] cwd w' s' by simp
  next
    fix out assume "client_line fuel h i line t w = finish i t (w1 out)"
    then show ?thesis
      using finish_object [OF ok1 [of out] c1(2), of ?d t] o1 [of out] c1(3) [of out] c2 [of out] cwd r assms(4) w' s' by simp
  qed
qed

lemma connects_same:
  assumes "world_ok w" and "map_of (w_sessions w) ip = Some r" and "now - ses_last_seen (w_store w ! r) \<le> w_ttl w"
  shows "cl_ref (last (w_clients (client_connects sid ip interactive now w))) = r"
proof -
  have "distinct (map fst (w_sessions w))" using assms(1) refs_okD(1) by (simp add: world_ok_def)
  from map_of_purge [OF this] have "map_of (w_sessions (ref_purge now w)) ip = Some r"
    using assms(2,3) unfolding ref_purge_def by simp
  then show ?thesis by (simp add: client_connects_def ref_get_or_create_def Let_def)
qed

text \<open>
  C9. Clients of one address share one machine.  When two clients hold the same session object, the
  filesystem, the cache, the log and the quarantine that a line of the one leaves are those the next line
  of the other starts from, also when the line ended the first client, while the working directory of
  the other stays its own; and a client that connects within the TTL of the stored session of its address
  is given that very object.
\<close>

theorem shared_session:
  assumes "server_main key connect new_key disk l q = Inr (disk', provider, w0)" and "world_run w0 bs w"
    and "i < length (w_clients w)" and "i \<noteq> j" and "cl_ref (w_clients w ! i) = cl_ref (w_clients w ! j)"
    and "exec fuel h (rstrip (\<lambda>c. c \<in> {cr, nl}) line) (load w (w_clients w ! i)) = (x, s)"
  shows "(let w' = client_line fuel h i line t w; s' = load w' (w_clients w' ! j)
     in sh_vfs s' = sh_vfs s \<and> sh_llm_cache s' = sh_llm_cache s \<and> sh_logs s' = sh_logs s \<and>
        sh_quarantine s' = sh_quarantine s \<and> sh_cwd s' = sh_cwd (load w (w_clients w ! j))) \<and>
    (\<forall>ip r now. map_of (w_sessions w) ip = Some r \<and> now - ses_last_seen (w_store w ! r) \<le> w_ttl w \<longrightarrow>
       cl_ref (last (w_clients (client_connects sid ip interactive now w))) = r)"
proof -
  have ok: "world_ok w" using main_run_ok [OF assms(1,2)] by blast
  show ?thesis unfolding Let_def using line_shared [OF ok assms(3-6) refl refl] connects_same [OF ok] by blast
qed

theorem shared_session_witness:
  "\<exists>disk' provider w0. server_main [] (\<lambda>_ _ _. GroqFailed) ''key'' (\<lambda>_. None) [] [] = Inr (disk', provider, w0) \<and>
     (let w = client_connects ''s2'' ''192.0.2.7'' True 1 (client_connects ''s1'' ''192.0.2.7'' True 0 w0);
          w' = client_line 5 quiet_host 0 ''rm -rf /'' 2 w
      in sh_vfs (load w' (w_clients w' ! 1)) = sh_vfs (snd (exec 5 quiet_host ''rm -rf /'' (load w (w_clients w ! 0)))))"
proof -
  obtain disk' provider w0 where m: "server_main [] (\<lambda>_ _ _. GroqFailed) ''key'' (\<lambda>_. None) [] [] = Inr (disk', provider, w0)"
    and w0: "w_clients w0 = []" using main_starts by blast
  define w1 where "w1 = client_connects ''s1'' ''192.0.2.7'' True 0 w0"
  define w where "w = client_connects ''s2'' ''192.0.2.7'' True 1 w1"
  obtain a b where a: "w_clients w1 = [a]" and b: "w_clients w = [a, b]"
    using connects_client [of "''s1''" "''192.0.2.7''" True 0 w0] connects_client [of "''s2''" "''192.0.2.7''" True 1 w1] w0
    by (auto simp: w1_def w_def)
  have run1: "world_run w0 [None] w1" unfolding w1_def by (rule steps_single) (rule connects)
  moreover have "world_run w1 [None] w" unfolding w_def by (rule steps_single) (rule connects)
  ultimately have run: "world_run w0 ([None] @ [None]) w" by (blast intro: steps_append)
  have w0': "w_sessions w0 = []" "w_store w0 = []" "w_ttl w0 = 3600"
    using m by (auto simp: server_main_def Let_def initial_world_def main_sessions_def SessionManager_def default_limits split: sum.splits if_splits)
  have "w_sessions w1 = [(''192.0.2.7'', 0)]" "ses_last_seen (w_store w1 ! 0) = 0" "w_ttl w1 = 3600" "cl_ref a = 0"
    using a w0 w0' by (auto simp: w1_def client_connects_def ref_get_or_create_def ref_purge_def insert_new_def purge_def IpSession_def Let_def)
  then have "cl_ref b = cl_ref a"
    using b connects_same [OF conjunct1 [OF main_run_ok [OF m run1]], of "''192.0.2.7''" 0 1 "''s2''" True] by (simp add: w_def)
  then have same: "cl_ref (w_clients w ! 0) = cl_ref (w_clients w ! 1)" using b by simp
  obtain x s where x: "exec 5 quiet_host ''rm -rf /'' (load w (w_clients w ! 0)) = (x, s)" by fastforce
  moreover have "rstrip (\<lambda>c. c \<in> {cr, nl}) ''rm -rf /'' = ''rm -rf /''" by code_simp
  ultimately have "exec 5 quiet_host (rstrip (\<lambda>c. c \<in> {cr, nl}) ''rm -rf /'') (load w (w_clients w ! 0)) = (x, s)" by simp
  from shared_session [OF m run _ _ same this] b x have
    "sh_vfs (load (client_line 5 quiet_host 0 ''rm -rf /'' 2 w) (w_clients (client_line 5 quiet_host 0 ''rm -rf /'' 2 w) ! 1)) =
     sh_vfs (snd (exec 5 quiet_host ''rm -rf /'' (load w (w_clients w ! 0))))"
    by (simp add: Let_def)
  with m show ?thesis unfolding w_def w1_def Let_def by blast
qed

end
