(* ===== verification/Concurrent_Refinement.thy ===== *)
theory Concurrent_Refinement
  imports Concurrent_Properties
begin

text \<open>
  The client handler of \<^verbatim>\<open>Server_Session\<close>, which runs one client to its end on values, describes what that
  client does among the objects of \<^verbatim>\<open>Server_Concurrent\<close>: a simulation, line by line, between the two.
\<close>

subsection \<open>A client among others\<close>

fun other_step :: "other_op \<Rightarrow> world \<Rightarrow> world" where
  "other_step (OtherConnects ip now) w = client_connects ''other'' ip True now w"
| "other_step (OtherTouches ip now) w = ref_touch ip now w"
| "other_step (Sweeps now) w = ref_periodic_sweep now now w"

fun client_events :: "nat \<Rightarrow> host \<Rightarrow> nat \<Rightarrow> int \<Rightarrow> client_event list \<Rightarrow> world \<Rightarrow> world" where
  "client_events fuel h i t1 [] w = finish i t1 w"
| "client_events fuel h i t1 (Broken # es) w = finish i t1 w"
| "client_events fuel h i t1 (Other op # es) w = client_events fuel h i t1 es (other_step op w)"
| "client_events fuel h i t1 (Line line # es) w =
     (if line = [] then finish i t1 w
      else
        (let w = client_line fuel h i line t1 w
         in if cl_live (w_clients w ! i) then client_events fuel h i t1 es w else w))"

definition served ::
  "nat \<Rightarrow> host \<Rightarrow> string \<Rightarrow> string \<Rightarrow> string option \<Rightarrow> int \<Rightarrow> int \<Rightarrow> client_event list \<Rightarrow> world \<Rightarrow> world" where
  "served fuel h session_id ip command t0 t1 events w =
     (let i = length (w_clients w) in
      if command \<noteq> None \<and> command \<noteq> Some []
      then client_command fuel h i (the command) t1 (client_connects session_id ip False t0 w)
      else client_events fuel h i t1 events (client_connects session_id ip True t0 w))"

subsection \<open>Changing one value of a dictionary\<close>

definition changed :: "'k \<Rightarrow> ('v \<Rightarrow> 'v) \<Rightarrow> ('k \<times> 'v) list \<Rightarrow> ('k \<times> 'v) list" where
  "changed ip f d = map (\<lambda>(k, v). (k, if k = ip then f v else v)) d"

lemma changed_simps [simp]:
  "changed ip f [] = []" "changed ip f (d @ e) = changed ip f d @ changed ip f e"
  "changed ip f ((k, v) # d) = (k, if k = ip then f v else v) # changed ip f d"
  "map fst (changed ip f d) = map fst d" "length (changed ip f d) = length d"
  by (simp_all add: changed_def case_prod_beta comp_def)

lemma changed_absent: "ip \<notin> fst ` set d \<Longrightarrow> changed ip f d = d"
  by (induction d) auto

lemma map_entry_changed: "distinct (map fst d) \<Longrightarrow> AList.map_entry ip f d = changed ip f d"
proof (induction d)
  case (Cons p d)
  then show ?case by (cases p) (auto simp: changed_absent)
qed simp

lemma map_of_changed: "map_of (changed ip f d) k = map_option (if k = ip then f else (\<lambda>v. v)) (map_of d k)"
  by (induction d) (auto simp: option.map_ident)

lemma delete_changed: "AList.delete k (changed ip f d) = changed ip f (AList.delete k d)"
  by (induction d) auto

lemma update_changed: "AList.update k (if k = ip then f v else v) (changed ip f d) = changed ip f (AList.update k v d)"
  by (induction d) auto

lemma evict_changed: "evict cap (changed ip f d) = changed ip f (evict cap d)"
proof (induction d)
  case (Cons p d)
  then show ?case by (cases p) simp
qed simp

lemma fold_delete_changed: "fold AList.delete ks (changed ip f d) = changed ip f (fold AList.delete ks d)"
  by (induction ks arbitrary: d) (simp_all add: delete_changed)

lemma move_changed: "move_to_end k (changed ip f d) = changed ip f (move_to_end k d)"
  by (simp add: move_to_end_def map_of_changed delete_changed split: option.split)

lemma purge_changed:
  assumes "\<And>v. seen (f v) = seen v"
  shows "purge seen ttl now (changed ip f d) = changed ip f (purge seen ttl now d)"
proof -
  have "map fst (filter (\<lambda>p. now - seen (snd p) > ttl) (changed ip f d)) = map fst (filter (\<lambda>p. now - seen (snd p) > ttl) d)"
    using assms by (induction d) auto
  then show ?thesis by (simp add: purge_def Let_def fold_delete_changed)
qed

lemma refresh_changed:
  assumes "\<And>v. stamp now (f v) = f (stamp now v)"
  shows "refresh stamp now k (changed ip f d) = changed ip f (refresh stamp now k d)"
proof (cases "map_of d k")
  case (Some v)
  have "AList.update k (if k = ip then f (stamp now v) else stamp now v) (changed ip f d) =
      changed ip f (AList.update k (stamp now v) d)"
    by (rule update_changed)
  with Some assms show ?thesis by (auto simp: refresh_def map_of_changed move_changed)
qed (simp add: refresh_def map_of_changed)

lemma update_over_changed:
  "distinct (map fst d) \<Longrightarrow> map_of d ip = Some v \<Longrightarrow> AList.update ip (g v) (changed ip f d) = changed ip g d"
proof (induction d)
  case (Cons p d)
  then show ?case by (cases p) (auto simp: changed_absent)
qed simp

lemma changed_id: "distinct (map fst d) \<Longrightarrow> map_of d ip = Some v \<Longrightarrow> f v = v \<Longrightarrow> changed ip f d = d"
proof (induction d)
  case (Cons p d)
  then show ?case by (cases p) (auto simp: changed_absent split: if_splits)
qed simp

subsection \<open>The manager under a working shell\<close>

text \<open>The value of a session that a shell works on.\<close>

abbreviation worked :: "shell \<Rightarrow> ip_session \<Rightarrow> ip_session" where
  "worked s r \<equiv> r\<lparr>ses_vfs := sh_vfs s, ses_llm_cache := sh_llm_cache s, ses_cwd := sh_cwd s\<rparr>"

lemma sync_changed:
  "ses_inv sm \<Longrightarrow> sync_record ip s sm = sm\<lparr>sessions := changed ip (worked s) (sessions sm)\<rparr>"
  by (simp add: sync_record_def map_entry_changed ses_inv_def cache_ok_def)

lemma sync_absent: "ses_inv sm \<Longrightarrow> \<not> ses_contains sm ip \<Longrightarrow> sync_record ip s sm = sm"
  by (simp add: sync_changed changed_absent ses_contains_def map_of_eq_None_iff)

lemma contains_sync: "ses_inv sm \<Longrightarrow> ses_contains (sync_record ip s sm) j = ses_contains sm j"
  by (simp add: sync_changed ses_contains_def map_of_changed)

lemma purge_sync: "ses_inv sm \<Longrightarrow> ses_purge now (sync_record ip s sm) = sync_record ip s (ses_purge now sm)"
  by (simp add: sync_changed ses_purge_inv) (simp add: ses_purge_def purge_changed)

lemma refresh_sync:
  "refresh ses_stamp now k (changed ip (worked s) d) = changed ip (worked s) (refresh ses_stamp now k d)"
  by (rule refresh_changed) simp

lemma touch_sync:
  assumes "ses_inv sm"
  shows "ses_touch j now (sync_record ip s sm) = sync_record ip s (ses_touch j now sm)"
  using ses_touch_inv [OF assms, of j now] assms
  by (simp add: sync_changed) (simp add: ses_touch_def map_of_changed refresh_sync split: option.split)

lemma create_sync:
  assumes "ses_inv sm" and "j = ip \<Longrightarrow> ses_contains (ses_purge now sm) ip"
  shows "snd (get_or_create j now v (sync_record ip s sm)) = sync_record ip s (snd (get_or_create j now v sm))"
proof -
  let ?d = "sessions (ses_purge now sm)"
  have "insert_new cap j x (changed ip (worked s) ?d) = changed ip (worked s) (insert_new cap j x ?d)"
    if "map_of ?d j = None" for cap x
    using that assms(2) by (auto simp: insert_new_absent map_of_changed evict_changed ses_contains_def)
  moreover have "ses_purge now (sync_record ip s sm) = (ses_purge now sm)\<lparr>sessions := changed ip (worked s) ?d\<rparr>"
    using purge_sync [OF assms(1)] sync_changed [OF ses_purge_inv [OF assms(1)]] by metis
  ultimately have "snd (get_or_create j now v (sync_record ip s sm)) =
      (snd (get_or_create j now v sm))\<lparr>sessions := changed ip (worked s) (sessions (snd (get_or_create j now v sm)))\<rparr>"
    by (cases "map_of ?d j") (simp_all add: get_or_create_def Let_def map_of_changed refresh_sync)
  then show ?thesis using get_or_create_inv [OF assms(1)] by (simp add: sync_changed)
qed

lemma recreate_sync:
  assumes "ses_inv sm" and "\<not> ses_contains (ses_purge now sm) ip"
  shows "snd (get_or_create ip now v (sync_record ip s sm)) = snd (get_or_create ip now v sm)"
  using assms by (simp add: get_or_create_def purge_sync sync_absent ses_purge_inv)

text \<open>What others do to the manager while the shell works on a session that is held.\<close>

lemma other_sync:
  assumes "ses_inv sm"
  shows "ses_step (ses_op_of op) (sync_record ip s sm) =
    (if still_held ip op sm then sync_record ip s (ses_step (ses_op_of op) sm) else ses_step (ses_op_of op) sm)"
proof (cases "\<exists>now. op = OtherConnects ip now")
  case True
  then show ?thesis using assms by (auto simp: still_held_def create_sync recreate_sync)
next
  case False
  have "ses_step (ses_op_of op) (sync_record ip s sm) = sync_record ip s (ses_step (ses_op_of op) sm)"
    using False assms
    by (cases op) (simp_all add: create_sync touch_sync ses_sweep_def Let_def purge_sync)
  moreover have "still_held ip op sm = ses_contains (ses_step (ses_op_of op) sm) ip"
    using False by (cases op) (simp_all add: still_held_def)
  ultimately show ?thesis using sync_absent [OF session_steps.step_inv [OF assms]] by simp
qed

subsection \<open>The simulation\<close>

text \<open>Client \<open>i\<close> of the world is in the state that the handler describes.\<close>

definition sim :: "nat \<Rightarrow> string \<Rightarrow> bool \<Rightarrow> string list \<Rightarrow> shell \<Rightarrow> session_manager \<Rightarrow> world \<Rightarrow> bool" where
  "sim i ip held out s sm w \<longleftrightarrow> world_ok w \<and> ses_inv sm \<and> i < length (w_clients w) \<and> cl_ip (w_clients w ! i) = ip \<and>
     cl_out (w_clients w ! i) = out \<and> load w (w_clients w ! i) = s \<and> sh_client_ip s = ip \<and> dirs_ok s \<and>
     held = (map_of (w_sessions w) ip = Some (cl_ref (w_clients w ! i))) \<and>
     manager_of w = (if held then sync_record ip s sm else sm)"

lemma load_fields:
  "sh_ip_cwd (load w c) = Some (ses_cwd (w_store w ! cl_ref c))" "sh_cwd (load w c) = sh_cwd (cl_shell c)"
  "sh_vfs (load w c) = ses_vfs (w_store w ! cl_ref c)" "sh_llm_cache (load w c) = ses_llm_cache (w_store w ! cl_ref c)"
  by (simp_all add: load_def Let_def)

lemma load_dirs: "dirs_ok (load w c) \<Longrightarrow> ses_cwd (w_store w ! cl_ref c) = sh_cwd (cl_shell c)"
  by (auto simp: dirs_ok_def load_fields)

text \<open>The end of a client: its directory is already that of its object, so only \<^verbatim>\<open>touch\<close> is left to do.\<close>

lemma closed_same:
  assumes "dirs_ok (load w (w_clients w ! i))"
  shows "closed i w = w\<lparr>w_clients := (w_clients w)[i := (w_clients w ! i)\<lparr>cl_live := False\<rparr>]\<rparr>"
proof -
  have "(w_store w ! r)\<lparr>ses_cwd := ses_cwd (w_store w ! r)\<rparr> = w_store w ! r" for r by simp
  then show ?thesis by (simp add: closed_def Let_def load_dirs [OF assms, symmetric])
qed

lemma load_managed:
  assumes "managed w w'" and "cl_ref c < length (w_store w)" and "w_logs w' = w_logs w" and "w_quarantine w' = w_quarantine w"
  shows "load w' c = load w c"
  using managed_store(2) [OF assms(1,2)] assms(3,4) by (simp add: load_def Let_def contents_def)

lemma touch_frame [simp]:
  "w_logs (ref_touch ip now w) = w_logs w" "w_quarantine (ref_touch ip now w) = w_quarantine w"
  "w_clients (ref_touch ip now w) = w_clients w"
  by (simp_all add: ref_touch_def ref_stamp_def split: option.split)

lemma finish_sim:
  assumes "sim i ip held out s sm w"
  shows "manager_of (finish i t1 w) = ses_touch ip t1 (if held then sync_record ip s sm else sm) \<and>
    cl_out (w_clients (finish i t1 w) ! i) = out \<and> load (finish i t1 w) (w_clients (finish i t1 w) ! i) = s"
proof -
  let ?c = "w_clients w ! i" and ?w = "closed i w"
  have ok: "world_ok w" and i: "i < length (w_clients w)" and s: "load w ?c = s" "dirs_ok (load w ?c)" "cl_ip ?c = ip" "cl_out ?c = out"
    "manager_of w = (if held then sync_record ip s sm else sm)"
    using assms by (auto simp: sim_def)
  have w: "?w = w\<lparr>w_clients := (w_clients w)[i := ?c\<lparr>cl_live := False\<rparr>]\<rparr>" by (rule closed_same [OF s(2)])
  have refs: "refs_ok ?w" using acted_ok [OF ok closed_acted [OF ok i] i] by (simp add: world_ok_def)
  have m: "manager_of ?w = manager_of w" by (simp add: w manager_of_def)
  have c: "w_clients ?w ! i = ?c\<lparr>cl_live := False\<rparr>" using i by (simp add: w)
  have "cl_ref ?c < length (w_store ?w)" using client_object(1) [OF ok i] by (simp add: belongs_def w)
  then have "load (ref_touch ip t1 ?w) (?c\<lparr>cl_live := False\<rparr>) = load ?w (?c\<lparr>cl_live := False\<rparr>)"
    by (intro load_managed [OF managed_touch [OF refs]]) simp_all
  also have "\<dots> = load w ?c" by (simp add: load_def w)
  finally show ?thesis using s c manager_touch [OF refs, of ip t1] by (simp add: finish_closed m)
qed

text \<open>A line of the client: the object and the entry of the manager, if it is held, follow the shell.\<close>

lemma not_held_absent:
  assumes "world_ok w" and "i < length (w_clients w)"
    and "map_of (w_sessions w) (cl_ip (w_clients w ! i)) \<noteq> Some (cl_ref (w_clients w ! i))"
  shows "cl_ref (w_clients w ! i) \<notin> snd ` set (w_sessions w)"
proof
  assume "cl_ref (w_clients w ! i) \<in> snd ` set (w_sessions w)"
  then obtain j where j: "(j, cl_ref (w_clients w ! i)) \<in> set (w_sessions w)" by auto
  then have "j = cl_ip (w_clients w ! i)" using client_object(1) [OF assms(1,2)] by (auto simp: belongs_def holders_def)
  with j assms(1,3) refs_okD(1) show False by (auto simp: world_ok_def)
qed

lemma save_manager:
  assumes "sim i ip held out s sm w" and "dirs_ok s'" and "sh_ip_cwd s' \<noteq> None" and "cl_ref c = cl_ref (w_clients w ! i)"
  shows "manager_of (save i c s' w) = (if held then sync_record ip s' sm else sm)"
proof -
  let ?r = "cl_ref (w_clients w ! i)" and ?o = "w_store w ! cl_ref (w_clients w ! i)"
  have ok: "world_ok w" and refs: "refs_ok w" and inv: "ses_inv sm" and i: "i < length (w_clients w)" and ip: "cl_ip (w_clients w ! i) = ip"
    and held: "held = (map_of (w_sessions w) ip = Some ?r)" and m: "manager_of w = (if held then sync_record ip s sm else sm)"
    using assms(1) by (auto simp: sim_def world_ok_def)
  let ?x = "?o\<lparr>ses_vfs := sh_vfs s', ses_llm_cache := sh_llm_cache s', ses_cwd := sh_cwd s'\<rparr>"
  have "the (sh_ip_cwd s') = sh_cwd s'" using assms(2,3) by (auto simp: dirs_ok_def)
  then have sv: "manager_of (save i c s' w) = (manager_of w)\<lparr>sessions := mapv (\<lambda>v. (w_store w)[?r := ?x] ! v) (w_sessions w)\<rparr>"
    using assms(4) by (simp add: save_def manager_of_def)
  show ?thesis
  proof (cases held)
    case True
    have d: "distinct (map fst (sessions sm))" using inv by (simp add: ses_inv_def cache_ok_def)
    have l: "map_of (w_sessions w) ip = Some ?r" "?r < length (w_store w)" using True held refs_okD(3) [OF refs] by auto
    have "map_of (sessions (manager_of w)) ip = Some ?o" using l by (simp add: manager_simps map_of_mapv)
    then obtain u where u: "map_of (sessions sm) ip = Some u" "?o = worked s u"
      using m True inv by (auto simp: sync_changed map_of_changed)
    then have "?x = worked s' u" by simp
    then have "mapv (\<lambda>v. (w_store w)[?r := ?x] ! v) (w_sessions w) = AList.update ip (worked s' u) (sessions (manager_of w))"
      using mapv_write [OF refs_okD(1,2) [OF refs] l(1), of "w_store w" ?x] refs by (simp add: refs_ok_def manager_simps)
    also have "\<dots> = changed ip (worked s') (sessions sm)"
      using m True inv update_over_changed [OF d u(1), of "worked s'" "worked s"] by (simp add: sync_changed)
    finally show ?thesis using sv m True inv by (simp add: sync_changed)
  next
    case False
    then have "?r \<notin> snd ` set (w_sessions w)" using not_held_absent [OF ok i] held ip by simp
    then have "mapv (\<lambda>v. (w_store w)[?r := ?x] ! v) (w_sessions w) = sessions (manager_of w)"
      by (simp add: mapv_write_absent manager_simps)
    with sv m False show ?thesis by simp
  qed
qed

lemma save_sim:
  assumes "sim i ip held out s sm w" and "exec fuel h l s = (r, s')"
  shows "sim i ip held out' s' sm (save i ((w_clients w ! i)\<lparr>cl_out := out'\<rparr>) s' w)"
proof -
  let ?c = "w_clients w ! i" and ?w = "save i ((w_clients w ! i)\<lparr>cl_out := out'\<rparr>) s' w"
  have ok: "world_ok w" and i: "i < length (w_clients w)" and s: "load w ?c = s" "dirs_ok s" "cl_ip ?c = ip" "sh_client_ip s = ip"
    "held = (map_of (w_sessions w) ip = Some (cl_ref ?c))" "ses_inv sm" "sh_ip_cwd s \<noteq> None"
    using assms(1) by (auto simp: sim_def load_fields)
  have x: "exec fuel h l (load w ?c) = (r, s')" using assms(2) s(1) by simp
  have s': "dirs_ok s'" "sh_ip_cwd s' \<noteq> None" "sh_client_ip s' = ip"
    using dirs.exec_result_R [OF assms(2)] frame.exec_result_R [OF assms(2)] s by (simp_all add: dir_step_def frame_step_def)
  have "world_ok ?w" by (rule acted_ok [OF ok save_acted [OF ok i x] i]) simp_all
  moreover have "manager_of ?w = (if held then sync_record ip s' sm else sm)" by (rule save_manager [OF assms(1) s'(1,2)]) simp
  moreover have "load ?w (w_clients ?w ! i) = s'"
    using client_object(1) [OF ok i] i s'(2) by (auto simp: load_def save_def Let_def belongs_def)
  ultimately show ?thesis using i s s' by (simp add: sim_def save_def)
qed

text \<open>What others do, seen from the client: the part of it that concerns the manager.\<close>

fun manager_part :: "other_op \<Rightarrow> world \<Rightarrow> world" where
  "manager_part (OtherConnects ip now) w = snd (ref_get_or_create ip now create_default_vfs w)"
| "manager_part (OtherTouches ip now) w = ref_touch ip now w"
| "manager_part (Sweeps now) w = ref_sweep now w"

lemma manager_part_facts:
  assumes "refs_ok w"
  shows "managed w (manager_part op w)" "refs_ok (manager_part op w)"
    "manager_of (manager_part op w) = ses_step (ses_op_of op) (manager_of w)"
    "w_logs (manager_part op w) = w_logs w" "w_quarantine (manager_part op w) = w_quarantine w"
proof -
  show "w_logs (manager_part op w) = w_logs w" "w_quarantine (manager_part op w) = w_quarantine w"
    by (cases op; simp add: ref_get_or_create_def ref_sweep_def ref_purge_def ref_stamp_def Let_def split: option.split)+
qed (cases op; use assms in \<open>simp add: ref_sweep_def ses_sweep_def Let_def managed_get_or_create managed_touch managed_purge
      refs_get_or_create refs_touch refs_purge manager_get_or_create manager_touch manager_purge\<close>)+

lemma other_step_part:
  "\<exists>cs. w_clients (other_step op w) = w_clients (manager_part op w) @ cs"
  "w_store (other_step op w) = w_store (manager_part op w)" "w_sessions (other_step op w) = w_sessions (manager_part op w)"
  "manager_of (other_step op w) = manager_of (manager_part op w)" "w_logs (other_step op w) = w_logs (manager_part op w)"
  "w_quarantine (other_step op w) = w_quarantine (manager_part op w)"
  by (cases op; simp add: client_connects_def ref_periodic_sweep_def Let_def case_prod_beta manager_of_def)+

lemma other_step_ok: "world_ok w \<Longrightarrow> world_ok (other_step op w)"
proof (cases op)
  case (OtherConnects ip now)
  assume "world_ok w"
  with OtherConnects limit.connects_kept [of "w_max w" "auth_config (w_auth w)" w] show ?thesis by (simp add: limit.kept_def)
next
  case (OtherTouches ip now)
  assume "world_ok w"
  with OtherTouches limit.touch_kept [of "w_max w" "auth_config (w_auth w)" w] show ?thesis by (simp add: limit.kept_def)
next
  case (Sweeps now)
  assume "world_ok w"
  with Sweeps limit.world_step_kept [OF sweeps, of "w_max w" "auth_config (w_auth w)" w now now] show ?thesis by (simp add: limit.kept_def)
qed

text \<open>Whether the entry of the client is still its object.\<close>

lemma part_ref:
  assumes "refs_ok w" and "(ip, r) \<in> set (w_sessions (manager_part op w))" and "\<nexists>now. op = OtherConnects ip now"
  shows "(ip, r) \<in> set (w_sessions w)"
proof (cases op)
  case (OtherConnects j now)
  have p: "set (w_sessions (ref_purge now w)) \<subseteq> set (w_sessions w)" by (simp add: ref_purge_def set_purge)
  have "set (evict (w_max w) (w_sessions (ref_purge now w))) \<subseteq> set (w_sessions (ref_purge now w))"
    by (rule set_mono_suffix [OF evict_suffix])
  with p assms OtherConnects set_move_to_end [OF refs_okD(1) [OF refs_purge [OF assms(1), of now]], of j] show ?thesis
    by (auto simp: ref_get_or_create_def ref_stamp_def ref_purge_def Let_def insert_new_absent split: option.splits)
next
  case (OtherTouches j now)
  with assms refs_okD(1) [OF assms(1)] show ?thesis
    by (auto simp: ref_touch_def ref_stamp_def set_move_to_end split: option.splits)
next
  case (Sweeps now)
  with assms(2) set_purge show ?thesis by (fastforce simp: ref_sweep_def ref_purge_def)
qed

lemma part_held:
  assumes "refs_ok w" and "map_of (w_sessions w) ip = Some r"
  shows "map_of (w_sessions (manager_part op w)) ip = Some r \<longleftrightarrow> still_held ip op (manager_of w)"
proof (cases "\<exists>now. op = OtherConnects ip now")
  case True
  then obtain now where op: "op = OtherConnects ip now" by blast
  have r: "r < length (w_store w)" by (rule refs_okD(3) [OF assms])
  have d: "distinct (map fst (w_sessions w))" by (rule refs_okD(1) [OF assms(1)])
  have p: "map_of (w_sessions (ref_purge now w)) ip \<in> {None, Some r}"
    using map_of_purge [OF d] assms(2) by (auto simp: ref_purge_def split: option.splits)
  have "still_held ip op (manager_of w) \<longleftrightarrow> map_of (w_sessions (ref_purge now w)) ip \<noteq> None"
    by (simp add: op still_held_def ses_contains_def manager_simps map_of_mapv flip: manager_purge)
  moreover have "map_of (w_sessions (manager_part op w)) ip =
      Some (case map_of (w_sessions (ref_purge now w)) ip of None \<Rightarrow> length (w_store w) | Some r \<Rightarrow> r)"
    using refs_okD(1) [OF refs_purge [OF assms(1), of now]]
    by (auto simp: op ref_get_or_create_def Let_def ref_stamp_def map_of_move_to_end map_of_insert_new split: option.split)
      (simp add: ref_purge_def)
  ultimately show ?thesis using p r by auto
next
  case False
  then have c: "still_held ip op (manager_of w) = ses_contains (ses_step (ses_op_of op) (manager_of w)) ip"
    by (cases op) (simp_all add: still_held_def)
  have "map_of (w_sessions (manager_part op w)) ip \<in> {None, Some r}"
  proof (cases "map_of (w_sessions (manager_part op w)) ip")
    case (Some r')
    from part_ref [OF assms(1) map_of_SomeD [OF Some] False] have "map_of (w_sessions w) ip = Some r'"
      using refs_okD(1) [OF assms(1)] by simp
    with assms(2) Some show ?thesis by simp
  qed simp
  with c show ?thesis
    by (auto simp: ses_contains_def manager_simps map_of_mapv simp flip: manager_part_facts(3) [OF assms(1)])
qed

lemma still_held_sync: "ses_inv sm \<Longrightarrow> still_held ip op (sync_record ip s sm) = still_held ip op sm"
proof (cases "\<exists>now. op = OtherConnects ip now")
  case True
  assume "ses_inv sm"
  with True show ?thesis by (auto simp: still_held_def purge_sync contains_sync ses_purge_inv)
next
  case False
  assume inv: "ses_inv sm"
  then have "ses_contains (ses_step (ses_op_of op) (sync_record ip s sm)) ip = ses_contains (ses_step (ses_op_of op) sm) ip"
    by (simp add: other_sync contains_sync session_steps.step_inv)
  with False show ?thesis by (cases op) (simp_all add: still_held_def)
qed

lemma other_sim:
  assumes "sim i ip held out s sm w"
  shows "sim i ip (held \<and> still_held ip op sm) out s (ses_step (ses_op_of op) sm) (other_step op w)"
proof -
  let ?c = "w_clients w ! i" and ?w = "other_step op w" and ?p = "manager_part op w"
  have ok: "world_ok w" and refs: "refs_ok w" and i: "i < length (w_clients w)" and ip: "cl_ip ?c = ip" and inv: "ses_inv sm"
    and s: "load w ?c = s" "dirs_ok s" "sh_client_ip s = ip" "cl_out ?c = out"
    and held: "held = (map_of (w_sessions w) ip = Some (cl_ref ?c))" and m: "manager_of w = (if held then sync_record ip s sm else sm)"
    using assms by (auto simp: sim_def world_ok_def)
  note part = manager_part_facts [OF refs, of op] and other = other_step_part [of op w]
  have r: "cl_ref ?c < length (w_store w)" using client_object(1) [OF ok i] by (simp add: belongs_def)
  obtain cs where cs: "w_clients ?w = w_clients w @ cs" using other(1) part(1) by (auto simp: managed_def)
  then have c: "w_clients ?w ! i = ?c" using i by (simp add: nth_append)
  have "load ?w ?c = load ?p ?c" using other by (simp add: load_def)
  then have l: "load ?w (w_clients ?w ! i) = s" using load_managed [OF part(1) r part(4,5)] s(1) c by simp
  have h: "(held \<and> still_held ip op sm) = (map_of (w_sessions ?w) ip = Some (cl_ref ?c))"
  proof (cases held)
    case True
    then show ?thesis using part_held [OF refs, of ip "cl_ref ?c" op] held m other(3) still_held_sync [OF inv, of ip op s] by simp
  next
    case False
    then have "cl_ref ?c \<notin> snd ` set (w_sessions w)" using not_held_absent [OF ok i] held ip by simp
    then have "(ip, cl_ref ?c) \<notin> set (w_sessions ?p)" using part(1) r unfolding managed_def by force
    then show ?thesis using False other(3) by (auto dest: map_of_SomeD)
  qed
  have "manager_of ?w = ses_step (ses_op_of op) (manager_of w)" using part(3) other(4) by simp
  then have "manager_of ?w = (if held \<and> still_held ip op sm then sync_record ip s (ses_step (ses_op_of op) sm) else ses_step (ses_op_of op) sm)"
    using m other_sync [OF inv] by simp
  moreover have "i < length (w_clients ?w)" using i cs by simp
  ultimately show ?thesis
    unfolding sim_def using other_step_ok [OF ok] session_steps.step_inv [OF inv] l h c ip s by simp
qed

text \<open>The whole loop.\<close>

lemma client_line_unfold:
  assumes "load w (w_clients w ! i) = s" and "exec fuel h (rstrip (\<lambda>c. c \<in> {cr, nl}) l) s = (q, s')"
  shows "client_line fuel h i l t1 w =
    (let c = w_clients w ! i in
     case q of
       Inl e \<Rightarrow> finish i t1 (save i c s' w)
     | Inr result \<Rightarrow>
         (let out = cl_out c @ write_text True (cr_output result) in
          if cr_exit_session result then finish i t1 (save i (c\<lparr>cl_out := out\<rparr>) s' w)
          else save i (c\<lparr>cl_out := out @ write_text False (prompt s')\<rparr>) s' w))"
  using assms by (cases q) (simp_all add: client_line_def Let_def)

lemma live_finish: "i < length (w_clients w) \<Longrightarrow> \<not> cl_live (w_clients (finish i now w) ! i)"
  by (simp add: finish_closed) (simp add: closed_def Let_def)

lemma save_clients [simp]: "w_clients (save i c s w) = (w_clients w)[i := c\<lparr>cl_shell := s\<rparr>]"
  by (simp add: save_def)

lemma client_events_sim:
  assumes "sim i ip held out s sm w" and "cl_live (w_clients w ! i)"
    and "read_loop fuel h events held out s sm = (e, held', out', s', sm')"
  shows "manager_of (client_events fuel h i t1 events w) = ses_touch ip t1 (if held' then sync_record ip s' sm' else sm') \<and>
    cl_out (w_clients (client_events fuel h i t1 events w) ! i) = out' \<and>
    load (client_events fuel h i t1 events w) (w_clients (client_events fuel h i t1 events w) ! i) = s'"
  using assms
proof (induction fuel h events held out s sm arbitrary: w rule: read_loop.induct)
  case (1 fuel h held out s sm)
  then show ?case using finish_sim by simp
next
  case (2 fuel h es held out s sm)
  then show ?case using finish_sim by simp
next
  case (3 fuel h op es held out s sm)
  have "sh_client_ip s = ip" using 3(2) by (simp add: sim_def)
  moreover have "cl_live (w_clients (other_step op w) ! i)"
  proof -
    have "refs_ok w" using 3(2) by (simp add: sim_def world_ok_def)
    then have "w_clients (manager_part op w) = w_clients w" using manager_part_facts(1) unfolding managed_def by blast
    then obtain cs where "w_clients (other_step op w) = w_clients w @ cs" using other_step_part(1) [of op w] by auto
    with 3(2,3) show ?thesis by (simp add: nth_append sim_def)
  qed
  ultimately show ?case using 3 other_sim [OF 3(2), of op] by simp
next
  case (4 fuel h l es held out s sm)
  show ?case
  proof (cases "l = []")
    case True
    with 4 finish_sim show ?thesis by simp
  next
    case False
    obtain q s1 where x: "exec fuel h (rstrip (\<lambda>c. c \<in> {cr, nl}) l) s = (q, s1)" by fastforce
    have w: "load w (w_clients w ! i) = s" "i < length (w_clients w)" "cl_out (w_clients w ! i) = out"
      using 4(2) by (auto simp: sim_def)
    note line = client_line_unfold [OF w(1) x, of t1] and save = save_sim [OF 4(2) x] and live = live_finish [of i]
    show ?thesis
    proof (cases q)
      case (Inl err)
      have "sim i ip held out s1 sm (save i (w_clients w ! i) s1 w)" using save [of out] w(3) [symmetric] by simp
      from finish_sim [OF this, of t1] show ?thesis
        using 4(4) False x line live w Inl by simp
    next
      case (Inr result)
      show ?thesis
      proof (cases "cr_exit_session result")
        case True
        from finish_sim [OF save, of t1 "out @ write_text True (cr_output result)"] show ?thesis
          using 4(4) False x line live w Inr True by simp
      next
        case more: False
        let ?w = "save i ((w_clients w ! i)\<lparr>cl_out := (out @ write_text True (cr_output result)) @ write_text False (prompt s1)\<rparr>) s1 w"
        have "cl_live (w_clients ?w ! i)" using 4(3) w(2) by simp
        from 4(1) [OF False x [symmetric] Inr refl more save this] show ?thesis
          using 4(3,4) False x line w Inr more by simp
      qed
    qed
  qed
qed

text \<open>The start: the new client works on the value that the manager hands out.\<close>

lemma connects_sim:
  assumes "world_ok w" and "get_or_create ip t0 create_default_vfs (manager_of w) = (ses, sm)"
    and s_def: "s = client_shell sid ip (w_logs w) (w_quarantine w) ses"
  shows "sim (length (w_clients w)) ip True (if interactive then write_text True BANNER @ write_text False (prompt s) else [])
    s sm (client_connects sid ip interactive t0 w)"
proof -
  let ?w = "client_connects sid ip interactive t0 w"
  obtain r w1 where g: "ref_get_or_create ip t0 create_default_vfs w = (r, w1)" by fastforce
  have refs: "refs_ok w" using assms(1) by (simp add: world_ok_def)
  have m: "manager_of w1 = sm" "w_store w1 ! r = ses"
    using manager_get_or_create [OF refs, of ip t0 create_default_vfs] handed_value [OF refs, of ip t0 create_default_vfs] g assms(2)
    by simp_all
  have w1: "w_clients w1 = w_clients w" "w_logs w1 = w_logs w" "w_quarantine w1 = w_quarantine w" "refs_ok w1"
    using manager_part_facts [OF refs, of "OtherConnects ip t0"] g by (simp_all add: managed_def)
  have e: "map_of (w_sessions w1) ip = Some r"
    using g refs_okD(1) [OF refs_purge [OF refs, of t0]]
    by (auto simp: ref_get_or_create_def Let_def ref_stamp_def map_of_move_to_end map_of_insert_new split: option.splits)
  have ok: "world_ok ?w" using limit.connects_kept [of "w_max w" "auth_config (w_auth w)" w] assms(1) by (simp add: limit.kept_def)
  let ?sh = "Shell (ses_vfs ses) (ses_llm_cache ses) sid ip (Some (ses_cwd ses)) (Some (ses_cwd ses))"
  have c: "w_clients ?w ! length (w_clients w) = \<lparr>cl_ip = ip, cl_ref = r, cl_interactive = interactive, cl_shell = ?sh,
      cl_out = if interactive then write_text True BANNER @ write_text False (prompt s) else [], cl_live = True\<rparr>"
    "length (w_clients w) < length (w_clients ?w)"
    using g m w1 by (simp_all add: client_connects_def s_def client_shell_def prompt_def Let_def)
  have l: "load ?w (w_clients ?w ! length (w_clients w)) = s"
    unfolding c(1) using g m w1 by (simp add: load_def Let_def s_def client_shell_def client_connects_def Shell_def)
  have same: "w_sessions ?w = w_sessions w1" "manager_of ?w = sm" using g m by (simp_all add: client_connects_def manager_of_def Let_def)
  have inv: "ses_inv sm" using ses_inv_manager [OF w1(4)] m(1) by simp
  have "map_of (sessions sm) ip = Some ses" using e m by (simp add: map_of_mapv manager_simps flip: m(1))
  moreover have "worked s ses = ses" by (simp add: s_def client_shell_def Shell_def Let_def)
  ultimately have "changed ip (worked s) (sessions sm) = sessions sm"
    using inv by (intro changed_id) (simp_all add: ses_inv_def cache_ok_def)
  then have "sync_record ip s sm = sm" using inv by (simp add: sync_changed)
  moreover have "dirs_ok s"
    using get_or_create_ok [of "manager_of w" ip t0 ses sm] assms(2) ok home_default client_object(2) [OF ok c(2)] c(1) m g
    by (auto simp: s_def client_shell_def Shell_def Let_def dirs_ok_def session_ok_def DEFAULT_HOME_def client_connects_def)
  ultimately show ?thesis
    unfolding sim_def using ok c l same e inv by (simp add: s_def)
qed

text \<open>The client alone takes steps of its own, and the others those that are told.\<close>

lemma other_step_run: "\<exists>as. world_run w as (other_step op w) \<and> set as \<subseteq> {None}"
proof (cases op)
  case (OtherConnects ip now)
  then show ?thesis by (auto intro!: exI [of _ "[None]"] steps_single connects)
next
  case (OtherTouches ip now)
  have "ref_connection_lost now (HoneypotServer\<lparr>hs_client_ip := Some ip\<rparr>) w = ref_touch ip now w"
    by (simp add: ref_connection_lost_def HoneypotServer_def)
  with OtherTouches show ?thesis by (auto intro!: exI [of _ "[None]"] steps_single) (metis lost)
next
  case (Sweeps now)
  then show ?thesis by (auto intro!: exI [of _ "[None]"] steps_single sweeps)
qed

lemma run_then: "world_run w as w' \<Longrightarrow> set as \<subseteq> S \<Longrightarrow> \<exists>bs. world_run w' bs w'' \<and> set bs \<subseteq> S \<Longrightarrow> \<exists>cs. world_run w cs w'' \<and> set cs \<subseteq> S"
  by (metis set_append steps_append sup.bounded_iff)

lemma finish_ip: "cl_ip (w_clients w ! i) = ip \<Longrightarrow> i < length (w_clients w) \<Longrightarrow> cl_live (w_clients w ! i) \<Longrightarrow>
    \<exists>as. world_run w as (finish i t1 w) \<and> set as \<subseteq> {None, Some ip}"
  using leaves [of i w t1] by (auto intro!: exI [of _ "[Some ip]"] steps_single)

lemma line_frame:
  "length (w_clients (client_line fuel h i l t1 w)) = length (w_clients w) \<and>
   (i < length (w_clients w) \<longrightarrow> cl_ip (w_clients (client_line fuel h i l t1 w) ! i) = cl_ip (w_clients w ! i) \<and>
     cl_interactive (w_clients (client_line fuel h i l t1 w) ! i) = cl_interactive (w_clients w ! i))"
  by (auto simp: client_line_def finish_closed closed_def Let_def split: prod.split sum.split)

lemma client_events_run:
  assumes "i < length (w_clients w)" and "cl_live (w_clients w ! i)" and "cl_interactive (w_clients w ! i)"
    and "cl_ip (w_clients w ! i) = ip"
  shows "\<exists>as. world_run w as (client_events fuel h i t1 events w) \<and> set as \<subseteq> {None, Some ip}"
  using assms
proof (induction fuel h i t1 events w rule: client_events.induct)
  case (3 fuel h i t1 op es w)
  have "w_clients (manager_part op w) = w_clients w"
    by (cases op) (simp_all add: ref_get_or_create_def ref_sweep_def ref_purge_def ref_stamp_def Let_def split: option.split)
  then obtain cs where cs: "w_clients (other_step op w) = w_clients w @ cs" using other_step_part(1) [of op w] by auto
  obtain as where as: "world_run w as (other_step op w)" "set as \<subseteq> {None, Some ip}" using other_step_run [of w op] by blast
  have "\<exists>bs. world_run (other_step op w) bs (client_events fuel h i t1 es (other_step op w)) \<and> set bs \<subseteq> {None, Some ip}"
    by (rule 3(1)) (use 3(2-5) cs in \<open>simp_all add: nth_append\<close>)
  from run_then [OF as this] show ?case by simp
next
  case (4 fuel h i t1 l es w)
  let ?w = "client_line fuel h i l t1 w"
  show ?case
  proof (cases "l = []")
    case False
    have as: "world_run w [Some ip] ?w" using line [OF 4(2,3,4) False, of fuel h t1] 4(5) by (intro steps_single) simp
    have "\<exists>bs. world_run ?w bs (client_events fuel h i t1 es ?w) \<and> set bs \<subseteq> {None, Some ip}" if "cl_live (w_clients ?w ! i)"
      by (rule 4(1) [OF False refl that]) (use 4(2-5) that line_frame [of fuel h i l t1 w] in simp_all)
    from run_then [OF as _ this] as False show ?thesis
      by (cases "cl_live (w_clients ?w ! i)") (auto simp: Let_def intro!: exI [of _ "[Some ip]"])
  qed (use 4 finish_ip in simp)
qed (use finish_ip in simp_all)

lemma command_sim:
  assumes "sim i ip True [] s sm w" and "exec fuel h cmd s = (q, s')"
  shows "manager_of (client_command fuel h i cmd t1 w) = ses_touch ip t1 (sync_record ip s' sm) \<and>
    cl_out (w_clients (client_command fuel h i cmd t1 w) ! i) = (case q of Inl e \<Rightarrow> [] | Inr r \<Rightarrow> write_text True (cr_output r)) \<and>
    load (client_command fuel h i cmd t1 w) (w_clients (client_command fuel h i cmd t1 w) ! i) = s'"
proof -
  have w: "load w (w_clients w ! i) = s" "cl_out (w_clients w ! i) = []" using assms(1) by (auto simp: sim_def)
  note save = save_sim [OF assms]
  have same: "(w_clients w ! i)\<lparr>cl_out := []\<rparr> = w_clients w ! i" using w(2) [symmetric] by simp
  show ?thesis
    using finish_sim [OF save, of t1] finish_sim [OF save [of "[]", unfolded same], of t1] w assms(2)
    by (cases q) (simp_all add: client_command_def Let_def)
qed

lemma served_run: "\<exists>as. world_run w as (served fuel h sid ip command t0 t1 events w) \<and> set as \<subseteq> {None, Some ip}"
proof -
  let ?i = "length (w_clients w)"
  define b where "b = (\<not> (command \<noteq> None \<and> command \<noteq> Some []))"
  define w1 where "w1 = client_connects sid ip b t0 w"
  have w1: "?i < length (w_clients w1)" "cl_ip (w_clients w1 ! ?i) = ip" "cl_live (w_clients w1 ! ?i)" "cl_interactive (w_clients w1 ! ?i) = b"
    using connects_client [of sid ip b t0 w] by (auto simp: w1_def)
  have run1: "world_run w [None] w1" unfolding w1_def by (rule steps_single) (rule connects)
  have "\<exists>as. world_run w1 as (served fuel h sid ip command t0 t1 events w) \<and> set as \<subseteq> {None, Some ip}"
  proof (cases b)
    case False
    then have "world_run w1 [Some ip] (client_command fuel h ?i (the command) t1 w1)"
      using Server_Concurrent.command [of ?i w1 fuel h "the command" t1] w1 by (intro steps_single) simp
    with False show ?thesis by (auto simp: served_def w1_def b_def Let_def intro!: exI [of _ "[Some ip]"])
  next
    case True
    with client_events_run [OF w1(1,3) _ w1(2)] w1(4) show ?thesis by (auto simp: served_def w1_def b_def Let_def)
  qed
  from run_then [OF run1 _ this] show ?thesis by simp
qed

lemma served_sim:
  assumes "world_ok w" and r_def: "r = handle_client fuel h sid ip command t0 t1 events (w_logs w) (w_quarantine w) (manager_of w)"
    and w'_def: "w' = served fuel h sid ip command t0 t1 events w"
  shows "manager_of w' = run_sessions r \<and> cl_out (w_clients w' ! length (w_clients w)) = run_writes r \<and>
    load w' (w_clients w' ! length (w_clients w)) = run_shell r"
proof -
  obtain ses sm1 where g: "get_or_create ip t0 create_default_vfs (manager_of w) = (ses, sm1)" by fastforce
  define s0 where "s0 = client_shell sid ip (w_logs w) (w_quarantine w) ses"
  note start = connects_sim [OF assms(1) g s0_def]
  show ?thesis
  proof (cases "command \<noteq> None \<and> command \<noteq> Some []")
    case True
    obtain x s' where x: "exec fuel h (the command) s0 = (x, s')" by fastforce
    have "run_shell r = s'" "run_writes r = (case x of Inl e \<Rightarrow> [] | Inr r \<Rightarrow> write_text True (cr_output r))"
      "run_sessions r = ses_touch ip t1 (sync_record ip s' sm1)"
      using True x unfolding r_def handle_client_def g s0_def client_shell_def by (cases x; simp add: Let_def)+
    with command_sim [OF _ x] start [of False] True show ?thesis by (simp add: w'_def served_def Let_def)
  next
    case False
    obtain e held out s' sm' where x: "read_loop fuel h events True (write_text True BANNER @ write_text False (prompt s0)) s0 sm1 =
        (e, held, out, s', sm')"
      by (metis prod_cases5)
    have r: "run_shell r = s'" "run_writes r = out" "run_sessions r = ses_touch ip t1 (if held then sync_record ip s' sm' else sm')"
      using False x unfolding r_def handle_client_def g s0_def client_shell_def by (auto simp: Let_def)
    have "cl_live (w_clients (client_connects sid ip True t0 w) ! length (w_clients w))"
      using connects_client [of sid ip True t0 w] by auto
    from client_events_sim [OF _ this x, of ip t1] start [of True] False r show ?thesis by (auto simp: w'_def served_def Let_def)
  qed
qed

text \<open>
  C8. The handler run to its end describes a client among others.  Take any state that the server reaches, let a client
  connect, send its lines and leave (or run one command) while the manager also serves others.
  What happens to the shared session objects is an interleaving of steps of the server in which only this address acts.
  Reading the objects off at the end gives the manager, the output and the shell that \<^verbatim>\<open>handle_client\<close>
  computes from values alone, its rule for sessions that were dropped or replaced meanwhile included.
\<close>

theorem handler_refined:
  assumes "server_main key connect new_key disk l q = Inr (disk', provider, w0)" and "world_run w0 bs w"
  shows "let r = handle_client fuel h sid ip command t0 t1 events (w_logs w) (w_quarantine w) (manager_of w);
             w' = served fuel h sid ip command t0 t1 events w; c = w_clients w' ! length (w_clients w)
    in (\<exists>as. world_run w as w' \<and> set as \<subseteq> {None, Some ip}) \<and> manager_of w' = run_sessions r \<and>
       cl_out c = run_writes r \<and> load w' c = run_shell r"
  using main_run_ok [OF assms] served_run served_sim [OF _ refl refl] unfolding Let_def by blast

theorem handler_refined_witness:
  "\<exists>disk' provider w. server_main [] (\<lambda>_ _ _. GroqFailed) ''key'' (\<lambda>_. None) [] [] = Inr (disk', provider, w) \<and>
     manager_of (served 5 quiet_host ''s'' ''192.0.2.7'' None 0 9 [Line ''cd /tmp'', Other (Sweeps 5000), Broken] w) =
     run_sessions (handle_client 5 quiet_host ''s'' ''192.0.2.7'' None 0 9 [Line ''cd /tmp'', Other (Sweeps 5000), Broken]
       [] [] (manager_of w))"
proof -
  obtain disk' provider w where m: "server_main [] (\<lambda>_ _ _. GroqFailed) ''key'' (\<lambda>_. None) [] [] = Inr (disk', provider, w)"
    and w: "w_logs w = []" "w_quarantine w = []"
    using main_starts by blast
  have "world_run w [] w" by (rule none)
  from handler_refined [OF m this, where fuel = 5 and h = quiet_host and sid = "''s''" and ip = "''192.0.2.7''" and command = None
      and ?t0.0 = 0 and ?t1.0 = 9 and events = "[Line ''cd /tmp'', Other (Sweeps 5000), Broken]"]
  show ?thesis using m unfolding Let_def w by blast
qed

end
