(* ===== verification/Benchmark.thy ===== *)
theory Benchmark
  imports Complex_Main Shell_Scenarios
begin

text \<open>
  \<^verbatim>\<open>src/benchmark_llm.py\<close>: the latency benchmark of the dispatcher.  It labels commands as static or llm,
  times them on one shell and prints a table and statistics.  Times are exact rationals; the readings of
  \<^verbatim>\<open>time.perf_counter\<close> and the remote model are arguments.  What is printed is a list of lines.
\<close>

subsection \<open>Samples\<close>

definition WARMUP_COMMAND :: string where
  "WARMUP_COMMAND = ''whoami''"

definition DEFAULT_COMMANDS :: "string list" where
  "DEFAULT_COMMANDS =
     [''whoami'', ''uname -a'', ''id'', ''ps aux'', ''ps -ef'', ''df -h'', ''free -m'', ''uptime'']"

definition PREVIEW_CHARS :: nat where
  "PREVIEW_CHARS = 60"

definition GROQ_MODEL :: string where
  "GROQ_MODEL = ''openai/gpt-oss-20b''"

record sample =
  sm_command :: string
  sm_path :: string
  sm_latency_ms :: rat
  sm_output_len :: nat
  sm_preview :: string
  sm_error :: "string option"

definition path_for :: "string \<Rightarrow> string" where
  "path_for command =
     (case shlex_split command of
        Inl _ \<Rightarrow> ''llm''
      | Inr tokens \<Rightarrow> if lookup_static_output tokens \<noteq> None then ''static'' else ''llm'')"

definition preview :: "string \<Rightarrow> nat \<Rightarrow> string" where
  "preview text limit =
     (let compact = join '' '' (split_ws text)
      in if length compact \<le> limit then compact else take (limit - 3) compact @ ''...'')"

text \<open>\<^verbatim>\<open>type(exc).__name__\<close>.\<close>

definition exn_name :: "py_exn \<Rightarrow> string" where
  "exn_name e =
     (case e of
        UncaughtValueError _ \<Rightarrow> ''ValueError''
      | UncaughtOverflowError \<Rightarrow> ''OverflowError''
      | UncaughtVfs v \<Rightarrow>
          (case v of
             FileNotFoundError _ \<Rightarrow> ''FileNotFoundError''
           | NotADirectoryError _ \<Rightarrow> ''NotADirectoryError''
           | IsADirectoryError _ \<Rightarrow> ''IsADirectoryError''
           | FileExistsError _ \<Rightarrow> ''FileExistsError''
           | VFSFileTooLargeError \<Rightarrow> ''VFSFileTooLargeError''
           | VFSNoSpaceError \<Rightarrow> ''VFSNoSpaceError''
           | OSError _ \<Rightarrow> ''OSError''
           | ValueError _ \<Rightarrow> ''ValueError''
           | VFSRecursionError \<Rightarrow> ''RecursionError'')
      | UncaughtLlm v \<Rightarrow>
          (case v of
             LlmValueError \<Rightarrow> ''ValueError''
           | LlmRecursionError \<Rightarrow> ''RecursionError''
           | LlmIndexError \<Rightarrow> ''IndexError'')
      | RecursionError \<Rightarrow> ''RecursionError'')"

definition timed_execute :: "nat \<Rightarrow> host \<Rightarrow> rat \<Rightarrow> rat \<Rightarrow> string \<Rightarrow> shell \<Rightarrow> sample \<times> shell" where
  "timed_execute fuel h started stopped command s =
     (let path = path_for command; elapsed_ms = (stopped - started) * 1000 in
      case exec fuel h command s of
        (Inl e, s') \<Rightarrow>
          (\<lparr>sm_command = command, sm_path = path, sm_latency_ms = elapsed_ms, sm_output_len = 0, sm_preview = [],
            sm_error = Some (exn_name e)\<rparr>, s')
      | (Inr result, s') \<Rightarrow>
          (\<lparr>sm_command = command, sm_path = path, sm_latency_ms = elapsed_ms, sm_output_len = length (cr_output result),
            sm_preview = preview (cr_output result) PREVIEW_CHARS, sm_error = None\<rparr>, s'))"

text \<open>The list of samples, with two readings of the clock per command.\<close>

fun timed_all :: "nat \<Rightarrow> host \<Rightarrow> (nat \<Rightarrow> rat) \<Rightarrow> nat \<Rightarrow> string list \<Rightarrow> shell \<Rightarrow> sample list \<times> shell" where
  "timed_all fuel h clock n [] s = ([], s)"
| "timed_all fuel h clock n (command # commands) s =
     (let (x, s) = timed_execute fuel h (clock n) (clock (n + 1)) command s;
          (xs, s) = timed_all fuel h clock (n + 2) commands s
      in (x # xs, s))"

subsection \<open>Formatting\<close>

definition ljust :: "nat \<Rightarrow> string \<Rightarrow> string" where
  "ljust w t = t @ replicate (w - length t) (CHR '' '')"

definition rjust :: "nat \<Rightarrow> string \<Rightarrow> string" where
  "rjust w t = replicate (w - length t) (CHR '' '') @ t"

text \<open>\<^verbatim>\<open>.1f\<close>: the nearest tenth, ties to even.\<close>

definition tenths :: "rat \<Rightarrow> int" where
  "tenths y =
     (let n = \<lfloor>10 * y\<rfloor>; d = 10 * y - of_int n
      in if d > 1 / 2 \<or> d = 1 / 2 \<and> odd n then n + 1 else n)"

definition fixed1 :: "rat \<Rightarrow> string" where
  "fixed1 x =
     (let n = tenths \<bar>x\<bar>
      in (if x < 0 then ''-'' else []) @ str_int (n div 10) @ ''.'' @ str_int (n mod 10))"

text \<open>\<^verbatim>\<open>max\<close> over the samples; on no samples it raises \<^verbatim>\<open>ValueError\<close>.\<close>

fun max_len :: "nat list \<Rightarrow> nat" where
  "max_len [] = 0"
| "max_len (n # ns) = max n (max_len ns)"

definition or_empty :: "string option \<Rightarrow> string" where
  "or_empty t = (case t of None \<Rightarrow> [] | Some t \<Rightarrow> t)"

definition note_of :: "sample \<Rightarrow> string" where
  "note_of x = (if or_empty (sm_error x) \<noteq> [] then or_empty (sm_error x) else sm_preview x)"

definition table_row :: "nat \<Rightarrow> nat \<Rightarrow> nat \<Rightarrow> string \<Rightarrow> string \<Rightarrow> string \<Rightarrow> string \<Rightarrow> string \<Rightarrow> string" where
  "table_row cmd_w path_w prev_w a b c d e =
     ljust cmd_w a @ ''  '' @ ljust path_w b @ ''  '' @ rjust 9 c @ ''  '' @ rjust 5 d @ ''  '' @ ljust prev_w e"

definition print_table :: "sample list \<Rightarrow> string + string list" where
  "print_table samples =
     (if samples = [] then Inl ''max() arg is an empty sequence''
      else
        (let cmd_w = max (length ''Command'') (max_len (map (\<lambda>x. length (sm_command x)) samples));
             path_w = max (length ''Path'') (max_len (map (\<lambda>x. length (sm_path x)) samples));
             prev_w = max (length ''Preview'')
               (max_len (map (\<lambda>x. length (if sm_preview x \<noteq> [] then sm_preview x else or_empty (sm_error x))) samples));
             header = table_row cmd_w path_w prev_w ''Command'' ''Path'' ''Time (ms)'' ''Len'' ''Preview''
         in Inr (header # replicate (length header) (CHR ''-'') #
              map (\<lambda>x. table_row cmd_w path_w prev_w (sm_command x) (sm_path x) (fixed1 (sm_latency_ms x))
                 (str_int (int (sm_output_len x))) (note_of x)) samples)))"

fun min_rat :: "rat \<Rightarrow> rat list \<Rightarrow> rat" where
  "min_rat m [] = m"
| "min_rat m (x # xs) = min_rat (min m x) xs"

fun max_rat :: "rat \<Rightarrow> rat list \<Rightarrow> rat" where
  "max_rat m [] = m"
| "max_rat m (x # xs) = max_rat (max m x) xs"

definition average :: "rat list \<Rightarrow> rat" where
  "average xs = sum_list xs / of_nat (length xs)"

definition summary :: "string \<Rightarrow> sample list \<Rightarrow> string list" where
  "summary label samples =
     (case map sm_latency_ms samples of
        [] \<Rightarrow> []
      | x # xs \<Rightarrow>
          [''Summary '' @ ljust 6 label @ ''  n='' @ str_int (int (length (x # xs))) @ ''  min='' @ fixed1 (min_rat x xs) @
           '' ms  max='' @ fixed1 (max_rat x xs) @ '' ms  avg='' @ fixed1 (average (x # xs)) @ '' ms''])"

definition in_group :: "string \<Rightarrow> sample list \<Rightarrow> sample list" where
  "in_group label samples = filter (\<lambda>x. sm_path x = label) samples"

definition print_stats :: "sample list \<Rightarrow> string list" where
  "print_stats samples =
     (let failed = filter (\<lambda>x. or_empty (sm_error x) \<noteq> []) samples
      in [[]] @ summary ''static'' (in_group ''static'' samples) @ summary ''llm'' (in_group ''llm'' samples) @
         summary ''all'' samples @
         (if failed \<noteq> [] then
            [''Errors   '' @ str_int (int (length failed)) @ ''/'' @ str_int (int (length samples)) @
             '' calls raised after provider fallback'']
          else []))"

text \<open>
  \<^verbatim>\<open>_run\<close>: the exit status, the lines of the standard output and those of the standard error; \<^verbatim>\<open>Inl\<close> where it
  raises.  \<^verbatim>\<open>connect\<close> is the Groq client for a key.
\<close>

definition run_benchmark ::
  "nat \<Rightarrow> host \<Rightarrow> (string \<Rightarrow> string \<Rightarrow> string \<Rightarrow> groq_reply) \<Rightarrow> (nat \<Rightarrow> rat) \<Rightarrow> string \<Rightarrow> string list \<Rightarrow>
   string + int \<times> string list \<times> string list" where
  "run_benchmark fuel h connect clock environ_key commands =
     (let api_key = strip_ws environ_key in
      if api_key = [] then Inr (1, [], [''GROQ_API_KEY is not set. Add it to .env and retry.''])
      else
        (let h = h\<lparr>h_provider := (\<lambda>n. GroqProvider (connect api_key))\<rparr>;
             s = Shell (VirtualFileSystem build_honeypot_tree DEFAULT_HOME) [] ''local'' ''unknown'' None None;
             (warmup, s) = timed_execute fuel h (clock 0) (clock 1) WARMUP_COMMAND s;
             (samples, s) = timed_all fuel h clock 2 commands s
         in case print_table samples of
              Inl e \<Rightarrow> Inl e
            | Inr table \<Rightarrow>
                Inr (0,
                  [''Model: '' @ GROQ_MODEL, ''Router: Shell.execute (static templates before Groq)'',
                   ''Warm-up: '' @ WARMUP_COMMAND,
                   (case sm_error warmup of
                      Some e \<Rightarrow> ''Warm-up failed ('' @ e @ '') after '' @ fixed1 (sm_latency_ms warmup) @ '' ms''
                    | None \<Rightarrow> ''Warm-up completed in '' @ fixed1 (sm_latency_ms warmup) @ '' ms''),
                   []] @ table @ print_stats samples, [])))"

text \<open>The commands of \<^verbatim>\<open>main\<close>: the positional arguments, or the default when there are none.\<close>

definition chosen_commands :: "string list \<Rightarrow> string list" where
  "chosen_commands args = (if args = [] then DEFAULT_COMMANDS else args)"

subsection \<open>Static commands\<close>

definition static_heads :: "string list" where
  "static_heads = map (\<lambda>p. hd (fst p)) STATIC_OUTPUTS @
     [''ip'', ''ss'', ''netstat'', ''iptables'', ''ufw'', ''dmidecode'', ''ifconfig'', ''route'']"

lemma static_head: "lookup_static_output ts = Some out \<Longrightarrow> hd ts \<in> set static_heads"
  by (auto simp: lookup_static_output_def lookup_static_aliases_def static_heads_def Let_def
      dest!: map_of_SomeD split: if_splits option.splits intro: rev_image_eqI)

lemma static_head_route:
  "t \<in> set static_heads \<Longrightarrow> t \<notin> set SHELL_WRAPPERS \<and> \<not> is_explicit_path t \<and> strip_system_prefix t = t \<and> t \<notin> set HANDLER_NAMES"
proof -
  have "list_all (\<lambda>t. t \<notin> set SHELL_WRAPPERS \<and> \<not> is_explicit_path t \<and> strip_system_prefix t = t \<and> t \<notin> set HANDLER_NAMES) static_heads"
    by code_simp
  then show "t \<in> set static_heads \<Longrightarrow> ?thesis" by (auto simp: list_all_iff)
qed

lemma handler_none: "t \<notin> set HANDLER_NAMES \<Longrightarrow> handler h stdin t = None"
  by (simp add: handler_def HANDLER_NAMES_def)

lemma dispatch_static:
  assumes "lookup_static_output ts = Some out"
  shows "dispatch rec h ts stripped stdin depth s =
    (Inr (CommandResult out (lookup_static_exit_code ts), ''static''), s)"
proof -
  obtain t args where ts: "ts = t # args" using assms by (cases ts) (auto simp: lookup_static_output_def)
  note r = static_head_route [OF static_head [OF assms]]
  show ?thesis using r assms unfolding ts by (simp add: dispatch_def handler_none with_path_def)
qed

text \<open>A line of one command whose dispatch leaves the state alone: what the shell answers and keeps.\<close>

lemma exec_quiet_stage:
  assumes "ws \<noteq> []" and "list_all proper_word ws" and "list_all plain_token (map word_value ws)"
    and "\<And>depth. dispatch (exec fuel h) h (map word_value ws) (write_stage ws) [] depth (stage_start s) = (Inr (r, path), stage_start s)"
    and "\<not> cr_exit_session r"
  shows "\<exists>s'. exec (Suc fuel) h (write_stage ws) s = (Inr (r\<lparr>cr_path := path\<rparr>), s') \<and>
    sh_llm_calls s' = sh_llm_calls s \<and> sh_llm_cache s' = sh_llm_cache s \<and> sh_vfs s' = sh_vfs s \<and> sh_cwd s' = sh_cwd s"
proof -
  note lx = stage_lexed [OF assms(1,2)]
  have p: "proper_pipeline [ws]" using assms(1,2) by (simp add: proper_pipeline_def)
  have "parse_redirection (map word_value ws) = Inr (map word_value ws, None, False)"
    using parse_plain [of "map word_value ws" "[]" None False "[]"] assms(3) by (simp add: parse_redirection_def)
  then have c: "command_body (exec fuel h) h (write_stage ws) [] (stage_start s) = (Inr r, path, stage_start s)"
    using assms(1,4) lx by (cases "map word_value ws") (auto simp: command_body_def)
  then have "execute_single_command (exec fuel h) h (write_stage ws) [] s =
      (Inr (r\<lparr>cr_path := path\<rparr>), (log_command h (write_stage ws) path (stage_start s))\<lparr>sh_last_exit_code := cr_exit_code r\<rparr>)"
    using lx by (simp add: execute_single_command_def)
  moreover have "write_pipeline [ws] = write_stage ws" by (simp add: write_pipeline_def)
  ultimately show ?thesis using exec_pipeline [OF p, of fuel h s] assms(5) by simp
qed

lemma path_for_words:
  assumes "ws \<noteq> []" and "list_all proper_word ws"
  shows "path_for (write_stage ws) = (if lookup_static_output (map word_value ws) \<noteq> None then ''static'' else ''llm'')"
  by (simp add: path_for_def stage_lexed(3) [OF assms])

text \<open>
  The label of the benchmark is right for static commands.  A command line, in any quoting, that the
  benchmark labels static is answered by the shell from its table: the sample carries the length and the
  preview of exactly that text and no error, the language model is not asked, and cache, filesystem
  and directory are as before.
\<close>

theorem benchmark_static:
  assumes "ws \<noteq> []" and "list_all proper_word ws" and "list_all plain_token (map word_value ws)"
    and "path_for (write_stage ws) = ''static''"
    and "timed_execute (Suc fuel) h started stopped (write_stage ws) s = (x, s')"
  shows "\<exists>out. lookup_static_output (map word_value ws) = Some out \<and>
    x = \<lparr>sm_command = write_stage ws, sm_path = ''static'', sm_latency_ms = (stopped - started) * 1000,
         sm_output_len = length out, sm_preview = preview out PREVIEW_CHARS, sm_error = None\<rparr> \<and>
    sh_llm_calls s' = sh_llm_calls s \<and> sh_llm_cache s' = sh_llm_cache s \<and> sh_vfs s' = sh_vfs s \<and> sh_cwd s' = sh_cwd s"
proof -
  obtain out where out: "lookup_static_output (map word_value ws) = Some out"
    using assms(4) path_for_words [OF assms(1,2)] by (auto split: if_splits)
  let ?r = "CommandResult out (lookup_static_exit_code (map word_value ws))"
  have "\<not> cr_exit_session ?r" by (simp add: CommandResult_def)
  from exec_quiet_stage [OF assms(1-3) dispatch_static [OF out] this] obtain s1 where
    s1: "exec (Suc fuel) h (write_stage ws) s = (Inr (?r\<lparr>cr_path := ''static''\<rparr>), s1)"
      "sh_llm_calls s1 = sh_llm_calls s" "sh_llm_cache s1 = sh_llm_cache s" "sh_vfs s1 = sh_vfs s" "sh_cwd s1 = sh_cwd s"
    by blast
  with assms(4,5) out show ?thesis unfolding timed_execute_def s1(1) by (auto simp: CommandResult_def Let_def)
qed

theorem benchmark_static_witness:
  "sm_error (fst (timed_execute 1 quiet_host 0 (1 / 2) (write_stage [Bare ''id'']) tiny_shell)) = None \<and>
   sm_path (fst (timed_execute 1 quiet_host 0 (1 / 2) (write_stage [Bare ''id'']) tiny_shell)) = ''static''"
proof -
  obtain x s' where x: "timed_execute (Suc 0) quiet_host 0 (1 / 2) (write_stage [Bare ''id'']) tiny_shell = (x, s')" by fastforce
  have "list_all proper_word [Bare ''id'']" by (simp add: bare_char_def is_space_def ord_def)
  moreover have "list_all plain_token (map word_value [Bare ''id''])" "path_for (write_stage [Bare ''id'']) = ''static''"
    by code_simp+
  ultimately show ?thesis using benchmark_static [OF _ _ _ _ x] x by auto
qed

subsection \<open>The default run\<close>

definition default_tokens :: "string list list" where
  "default_tokens = [[''whoami''], [''uname'', ''-a''], [''id''], [''ps'', ''aux''], [''ps'', ''-ef''], [''df'', ''-h''],
     [''free'', ''-m''], [''uptime'']]"

lemma default_commands: "DEFAULT_COMMANDS = map (\<lambda>ts. write_stage (map Bare ts)) default_tokens"
  by code_simp

lemma default_routes:
  assumes "ts \<in> set default_tokens"
  shows "ts \<noteq> []" "list_all proper_word (map Bare ts)" "list_all plain_token ts"
    "lookup_static_output ts = None \<longleftrightarrow> ts = [''uname'', ''-a'']"
proof -
  have k: "list_all (\<lambda>ts. ts \<noteq> [] \<and> list_all plain_token ts \<and> (ts \<in> set (map fst STATIC_OUTPUTS)) = (ts \<noteq> [''uname'', ''-a''])) default_tokens"
    by (simp add: default_tokens_def STATIC_OUTPUTS_def plain_token_def STDERR_REDIRECTS_def startswith_def)
  have u: "lookup_static_aliases [''uname'', ''-a''] = None" by (simp add: lookup_static_aliases_def Let_def)
  have b: "list_all (\<lambda>ts. list_all proper_word (map Bare ts)) default_tokens"
    by (simp add: default_tokens_def bare_char_def is_space_def ord_def)
  have t: "ts \<noteq> [] \<and> list_all plain_token ts \<and> (ts \<in> set (map fst STATIC_OUTPUTS)) = (ts \<noteq> [''uname'', ''-a''])"
    by (rule iffD1 [OF list_all_iff k, THEN bspec, OF assms])
  then show "ts \<noteq> []" "list_all plain_token ts" by blast+
  show "lookup_static_output ts = None \<longleftrightarrow> ts = [''uname'', ''-a'']"
  proof (cases "map_of STATIC_OUTPUTS ts")
    case None
    then have "ts \<notin> set (map fst STATIC_OUTPUTS)" by (simp add: map_of_eq_None_iff)
    with t have "ts = [''uname'', ''-a'']" by blast
    with None u show ?thesis by (simp add: lookup_static_output_def)
  next
    case (Some out)
    then have "ts \<in> set (map fst STATIC_OUTPUTS)" by (simp add: weak_map_of_SomeI map_of_eq_Some_iff domI flip: dom_map_of_conv_image_fst)
    with t Some show ?thesis by (simp add: lookup_static_output_def)
  qed
  show "list_all proper_word (map Bare ts)" by (rule iffD1 [OF list_all_iff b, THEN bspec, OF assms])
qed

lemma dispatch_uname:
  "dispatch rec h [''uname'', ''-a''] stripped stdin depth s =
     (Inr (CommandResult (format_uname [''-a'']) 0, handler_path ''uname''), s)"
proof -
  have "strip_system_prefix ''uname'' = ''uname''" "\<not> is_explicit_path ''uname''" "''uname'' \<notin> set SHELL_WRAPPERS"
    by code_simp+
  then show ?thesis by (simp add: dispatch_def handler_def cmd_uname_def with_path_def)
qed

text \<open>A command that runs without error and without the model.\<close>

definition unasked :: "nat \<Rightarrow> host \<Rightarrow> string \<Rightarrow> bool" where
  "unasked fuel h c \<longleftrightarrow> (\<forall>a b s. let (x, s') = timed_execute fuel h a b c s
     in sh_llm_calls s' = sh_llm_calls s \<and> sm_error x = None \<and> sm_command x = c \<and> sm_path x = path_for c)"

lemma default_unasked:
  assumes "ts \<in> set default_tokens"
  shows "unasked (Suc fuel) h (write_stage (map Bare ts))"
proof -
  note d = default_routes [OF assms]
  have v: "map word_value (map Bare ts) = ts" by (induction ts) auto
  have "\<exists>r path. \<not> cr_exit_session r \<and> (\<forall>depth s. dispatch (exec fuel h) h ts (write_stage (map Bare ts)) [] depth s = (Inr (r, path), s))"
  proof (cases "lookup_static_output ts")
    case None
    then show ?thesis using d(4) dispatch_uname by (auto simp: CommandResult_def)
  next
    case (Some out)
    then show ?thesis using dispatch_static [OF Some] by (auto simp: CommandResult_def)
  qed
  then obtain r path where r: "\<not> cr_exit_session r"
    "\<And>depth s. dispatch (exec fuel h) h ts (write_stage (map Bare ts)) [] depth s = (Inr (r, path), s)" by blast
  have "\<exists>s'. exec (Suc fuel) h (write_stage (map Bare ts)) s = (Inr (r\<lparr>cr_path := path\<rparr>), s') \<and> sh_llm_calls s' = sh_llm_calls s" for s
    using exec_quiet_stage [of "map Bare ts" fuel h s r path, unfolded v] d(1-3) r by auto
  then show ?thesis unfolding unasked_def timed_execute_def Let_def by (metis (mono_tags, lifting) case_prod_conv sum.case(2) sample.select_convs(1,2,6))
qed

lemma timed_all_unasked:
  assumes "list_all (unasked fuel h) cs"
  shows "let (xs, s') = timed_all fuel h clock n cs s
    in sh_llm_calls s' = sh_llm_calls s \<and> list_all (\<lambda>x. sm_error x = None) xs \<and> map sm_command xs = cs \<and> map sm_path xs = map path_for cs"
  using assms
proof (induction cs arbitrary: n s)
  case (Cons c cs)
  obtain x s1 where x: "timed_execute fuel h (clock n) (clock (n + 1)) c s = (x, s1)" by fastforce
  have "sh_llm_calls s1 = sh_llm_calls s \<and> sm_error x = None \<and> sm_command x = c \<and> sm_path x = path_for c"
    using Cons.prems x unfolding unasked_def list.pred_inject by (metis (mono_tags, lifting) case_prod_conv)
  with Cons.IH [of "n + 2" s1] Cons.prems x show ?case by (auto simp: Let_def split: prod.splits)
qed simp

text \<open>
  C32. The default benchmark never asks the model.  Whatever the host, the clock and the state, the
  default commands all run without error and without a call of the language model, although they are announced
  as a mix of static and model commands; the one sample in the group of the model is \<^verbatim>\<open>uname -a\<close>, which
  a handler of the shell answers.
\<close>

theorem benchmark_default_unasked:
  "let (samples, s') = timed_all (Suc fuel) h clock n (chosen_commands []) s
   in sh_llm_calls s' = sh_llm_calls s \<and> list_all (\<lambda>x. sm_error x = None) samples \<and>
      map sm_command samples = DEFAULT_COMMANDS \<and> map sm_command (in_group ''llm'' samples) = [''uname -a'']"
proof -
  have "list_all (unasked (Suc fuel) h) DEFAULT_COMMANDS"
    using default_unasked by (auto simp: default_commands list_all_iff)
  from timed_all_unasked [OF this, of clock n s] obtain xs s' where
    xs: "timed_all (Suc fuel) h clock n DEFAULT_COMMANDS s = (xs, s')" "sh_llm_calls s' = sh_llm_calls s"
      "list_all (\<lambda>x. sm_error x = None) xs" "map sm_command xs = DEFAULT_COMMANDS" "map sm_path xs = map path_for DEFAULT_COMMANDS"
    by (cases "timed_all (Suc fuel) h clock n DEFAULT_COMMANDS s") auto
  have "map path_for DEFAULT_COMMANDS = map (\<lambda>ts. if ts = [''uname'', ''-a''] then ''llm'' else ''static'') default_tokens"
  proof -
    have "path_for (write_stage (map Bare ts)) = (if ts = [''uname'', ''-a''] then ''llm'' else ''static'')" if "ts \<in> set default_tokens" for ts
    proof -
      have "map word_value (map Bare ts) = ts" by (induction ts) auto
      with path_for_words [of "map Bare ts"] default_routes [OF that] show ?thesis by auto
    qed
    then show ?thesis by (simp add: default_commands)
  qed
  with xs(4,5) have "map sm_command (in_group ''llm'' xs) = [''uname -a'']"
    by (simp add: in_group_def DEFAULT_COMMANDS_def default_tokens_def Cons_eq_map_conv) auto
  with xs show ?thesis by (simp add: chosen_commands_def)
qed

subsection \<open>The report\<close>

lemma max_len_upper: "n \<in> set ns \<Longrightarrow> n \<le> max_len ns"
  by (induction ns) auto

lemma table_row_length:
  assumes "length a \<le> cmd_w" and "length b \<le> path_w" and "length c \<le> 9" and "length d \<le> 5" and "length e \<le> prev_w"
  shows "length (table_row cmd_w path_w prev_w a b c d e) = cmd_w + path_w + prev_w + 22"
  using assms by (simp add: table_row_def ljust_def rjust_def)

text \<open>
  The table is aligned: all its lines have the same length as soon as the times fit nine and the
  lengths five characters, however long the commands, the labels, the previews and the errors are.
\<close>

theorem table_aligned:
  assumes "print_table samples = Inr rows"
    and "\<forall>x \<in> set samples. length (fixed1 (sm_latency_ms x)) \<le> 9 \<and> length (str_int (int (sm_output_len x))) \<le> 5 \<and>
      (sm_error x = None \<or> sm_preview x = [])"
  shows "\<forall>row \<in> set rows. length row = length (hd rows)"
proof -
  define cmd_w path_w prev_w where w:
    "cmd_w = max (length ''Command'') (max_len (map (\<lambda>x. length (sm_command x)) samples))"
    "path_w = max (length ''Path'') (max_len (map (\<lambda>x. length (sm_path x)) samples))"
    "prev_w = max (length ''Preview'') (max_len (map (\<lambda>x. length (if sm_preview x \<noteq> [] then sm_preview x else or_empty (sm_error x))) samples))"
  have "length (table_row cmd_w path_w prev_w (sm_command x) (sm_path x) (fixed1 (sm_latency_ms x))
      (str_int (int (sm_output_len x))) (note_of x)) = cmd_w + path_w + prev_w + 22" if "x \<in> set samples" for x
  proof (rule table_row_length)
    show "length (sm_command x) \<le> cmd_w" "length (sm_path x) \<le> path_w"
      unfolding w using that by (auto intro!: max.coboundedI2 max_len_upper)
    have "length (note_of x) \<le> max_len (map (\<lambda>x. length (if sm_preview x \<noteq> [] then sm_preview x else or_empty (sm_error x))) samples)"
      by (rule max_len_upper) (use assms(2) that in \<open>auto simp: note_of_def or_empty_def intro!: rev_image_eqI [OF that]\<close>)
    then show "length (note_of x) \<le> prev_w" unfolding w by simp
  qed (use assms(2) that in auto)
  moreover have "length (table_row cmd_w path_w prev_w ''Command'' ''Path'' ''Time (ms)'' ''Len'' ''Preview'') = cmd_w + path_w + prev_w + 22"
    by (rule table_row_length) (simp_all add: w)
  ultimately show ?thesis
    using assms(1) unfolding print_table_def Let_def w [symmetric] by (auto split: if_splits)
qed

text \<open>In every summary the average lies between the minimum and the maximum, which are attained.\<close>

lemma min_rat_Min: "min_rat m xs = Min (set (m # xs))"
proof (induction xs arbitrary: m)
  case (Cons a xs)
  then show ?case by (cases "xs = []") (simp_all add: ac_simps)
qed simp

lemma max_rat_Max: "max_rat m xs = Max (set (m # xs))"
proof (induction xs arbitrary: m)
  case (Cons a xs)
  then show ?case by (cases "xs = []") (simp_all add: ac_simps)
qed simp

lemma sum_list_bounds:
  fixes xs :: "rat list"
  shows "(\<forall>x \<in> set xs. a \<le> x) \<Longrightarrow> of_nat (length xs) * a \<le> sum_list xs"
    "(\<forall>x \<in> set xs. x \<le> b) \<Longrightarrow> sum_list xs \<le> of_nat (length xs) * b"
  by (induction xs) (auto simp: algebra_simps intro: add_mono)

theorem summary_ordered:
  "min_rat x xs \<le> average (x # xs) \<and> average (x # xs) \<le> max_rat x xs \<and>
   min_rat x xs \<in> set (x # xs) \<and> max_rat x xs \<in> set (x # xs)"
proof -
  have "of_nat (length (x # xs)) * min_rat x xs \<le> sum_list (x # xs)" "sum_list (x # xs) \<le> of_nat (length (x # xs)) * max_rat x xs"
    by (intro sum_list_bounds; simp add: min_rat_Min max_rat_Max)+
  then have "min_rat x xs \<le> average (x # xs)" "average (x # xs) \<le> max_rat x xs"
    unfolding average_def by (simp_all add: field_simps)
  moreover have "Min (set (x # xs)) \<in> set (x # xs)" "Max (set (x # xs)) \<in> set (x # xs)" by (rule Min_in Max_in; simp)+
  ultimately show ?thesis by (simp add: min_rat_Min max_rat_Max)
qed

end
