(* ===== verification/Spec2Isabelle.thy ===== *)
theory Spec2Isabelle
  imports Vfs_Properties Server_Proxy Llm_Properties Json_Fuel Shell_Scenarios Server_Properties
    Concurrent_Refinement Benchmark
begin

text \<open>
  A verification of the dynamic honeypot, an SSH server that shows an attacker a simulated Ubuntu host:
  the Python program under \<^verbatim>\<open>src/\<close>.

  \<^bold>\<open>The program.\<close>  A TCP connection reaches \<^verbatim>\<open>server.py\<close>, whose preamble protocol reads an optional PROXY
  header and hands the stream over to AsyncSSH with the address of the client.  The callbacks of
  \<^verbatim>\<open>HoneypotServer\<close> pin a weak password per address and count failures (\<^verbatim>\<open>auth.py\<close>).  A client that
  logs in gets the session of its address (\<^verbatim>\<open>session_manager.py\<close>): a virtual filesystem (\<^verbatim>\<open>vfs.py\<close>), a
  cache of generated answers and a working directory.  \<^verbatim>\<open>shell.py\<close> runs its command lines over them: the
  lines are split, lexed, dispatched to a static table, to a handler, to the execution trap, to a
  script or, behind a filter, to a language model (\<^verbatim>\<open>llm.py\<close>); downloads are faked and quarantined
  (\<^verbatim>\<open>sinkhole.py\<close>); each command and each login is logged (\<^verbatim>\<open>telemetry.py\<close>).  \<^verbatim>\<open>benchmark_llm.py\<close> times
  commands on a shell of its own.

  \<^bold>\<open>The theories.\<close>
  \<^item> \<open>Prelude\<close>, \<open>Interfaces\<close>, \<open>Ordered_Dict\<close>: strings, lists and association lists; the locales
    \<open>invariant_steps\<close>, \<open>invariant_relation\<close> and \<open>atomic_store\<close>; the \<^verbatim>\<open>OrderedDict\<close> of the two managers with its eviction, purge
    and recency lemmas.
  \<^item> \<open>Vfs_Paths\<close>, \<open>Vfs_Chmod\<close>, \<open>Vfs_Node\<close>, \<open>Vfs\<close>, \<open>Vfs_Tree\<close>: the definitions of \<^verbatim>\<open>vfs.py\<close> in its order (paths, the
    language of \<^verbatim>\<open>chmod\<close>, inodes, the operations of \<^verbatim>\<open>VirtualFileSystem\<close>, the default tree);
    \<open>Vfs_Correct\<close> proves the invariant \<open>vfs_inv\<close> and describes each operation by its effect on the map
    \<open>view\<close> from paths to entries, an abstract filesystem; \<open>Vfs_Properties\<close> has the properties.  An
    operation returns an error or a value, with the filesystem afterwards.  A removal gets the number of
    stack frames left to it; when it exceeds them it raises with a lowered byte counter and the tree
    kept, and the history field \<open>removal_overflowed\<close>, which no operation reads, records it.
  \<^item> \<open>Session_Manager\<close>; \<open>Auth\<close> and \<open>Auth_Properties\<close>; \<open>Telemetry\<close> (the disk of the host is a map from
    paths to contents, a log file is a JSON document per line); \<open>Sinkhole\<close>.
  \<^item> \<open>Json\<close>, \<open>Llm\<close>, \<open>Llm_Properties\<close>: the printer and parser of JSON that \<^verbatim>\<open>llm.py\<close> uses, the argument
    filter, the prompt, the reading and sanitizing of simulations, both providers; \<open>Json_Fuel\<close>: the fuel of
    the parser is enough for every text.
  \<^item> \<open>Shell_Static\<close> (the tables), \<open>Shell_Parse\<close> (the splitters, \<^verbatim>\<open>shlex\<close> and the argument parsers),
    \<open>Shell_State\<close> (the record \<open>shell\<close>: everything a command can change, and the record \<open>host\<close>: what
    it reads from outside), \<open>Shell_Commands\<close> (a handler is a function of the host, its arguments and the
    state), \<open>Shell_Exec\<close> (scripts, dispatch, logging, pipelines, conditionals, \<open>exec\<close>).
  \<^item> \<open>Shell_Parse_Properties\<close>; \<open>Shell_Laws\<close>: the locale \<open>shell_relation\<close>, whose laws are that a relation of
    states is a preorder that every change the shell makes respects, and whose lemma is that every
    command line respects it; \<open>Shell_Invariants\<close> interprets it six times (quotas and frame, logs,
    language model, quarantine, the records of the log, directories); \<open>Shell_Termination\<close>; \<open>Shell_Properties\<close>; \<open>Shell_Scenarios\<close>: a
    reference interpreter on the syntax tree of a line, and whole lines from text to filesystem.
  \<^item> \<open>Server_Proxy\<close> (the preamble), \<open>Server_Channel\<close> (line endings), \<open>Server_Session\<close> (callbacks, client
    handler, sweep; a password is two steps, the login and the check of the limit after the tarpit, with
    any activity of the server in between), \<open>Server_Properties\<close> (the composition of all parts): a client runs to its end on values.
  \<^item> \<open>Server_Concurrent\<close>: the server with any number of clients.  Sessions are objects in a store, held by
    reference by the manager and by the clients; \<open>world_step\<close> is one connection, one line or the end of one client, one login or
    one sweep, labelled with the address that acts, and \<open>server_main\<close> is the start.  \<open>Concurrent_Invariants\<close>: the manager on
    references implements the one on values; a seventh interpretation of \<open>shell_relation\<close> (rooted directories of
    shells that share a session); the invariant \<open>world_ok\<close>; the locale \<open>world_property\<close>,
    interpreted for the limits of the managers and for the objects of an address that does not act.
    \<open>Concurrent_Properties\<close>: what every interleaving keeps.  \<open>Concurrent_Refinement\<close>: a simulation showing
    that \<open>handle_client\<close> of \<open>Server_Session\<close> describes a client among others.
  \<^item> \<open>Benchmark\<close>: labels, samples, the table and the statistics of the benchmark.

  \<^bold>\<open>What is shown.\<close>  Memory is bounded: every run of the server keeps the limits of sessions, pins and
  records, the file quota and the byte counter of every stored filesystem; the counter is exact, and so
  the total quota kept, in every filesystem in which no removal has exceeded the recursion limit.
  A client finds its session again however its last connection ended, if the time and the number of
  other addresses allow it.  Lockout, login decisions and the disconnect are exact.  A failing filesystem
  operation leaves no trace, except such a removal; writes read back; \<^verbatim>\<open>rm\<close>, \<^verbatim>\<open>mkdir\<close>, \<^verbatim>\<open>chmod\<close> change exactly what they should.
  Every command line keeps the audit trail, with a record of each command and only stored artifacts
  named in it, the quarantine and the gate in front of the language model.  A line runs as the program it writes, conditionals as in bash; redirections capture the output.
  Serving a client does not touch the session of another address, and drops it only by expiry or eviction.  Under every interleaving the session objects in use are bounded and
  within their quotas, clients of other addresses change nothing for a client, clients of one address
  share one filesystem, and serving a client to its end on values gives what the interleaved objects hold.  The logs and the cache are read back as written.  The preamble does not depend
  on the chunking of a stream whose header ends within 107 bytes.  Some properties record where the code falls short: a removal that
  exceeds the recursion limit lets a session hold more than its quota (\<open>quota_bypass\<close>), scripts on the
  standard input escape the depth guard, a port out of range escapes from \<^verbatim>\<open>wget\<close>, a removed device
  escapes from the copy loop, delimiters and long headers escape their filters, the default benchmark never reaches the model it measures.

  \<^bold>\<open>Bounds and fuel.\<close>  The executor of the shell calls itself through scripts; \<open>exec fuel\<close> is the executor with
  \<open>fuel\<close> nested calls before \<^verbatim>\<open>RecursionError\<close>, as in Python.  The result does not depend on the fuel once
  a run ends within it, a line that starts no shell needs one unit, and a line that recurses without
  end shows that no bound covers all lines; the properties of states hold for every fuel.  The two recursions on data
  have budgets of their own: \<open>release_dynamic_bytes\<close> the frames left below its call (\<open>frames_needed\<close> is what a
  tree needs) and \<open>json_loads\<close> the depth of nesting it may read, next to the 4300 digits of an integer.  All loops of
  the code are structural recursions of the model, except the JSON parser, whose fuel is twice the length of
  the text; \<open>json_loads_decides\<close> shows that more fuel never changes its answer.  The loop that copies an endless device is the code's own \<^verbatim>\<open>range\<close>.  Integers of Python are
  \<open>int\<close>; permission bits and addresses use bit operations on \<open>int\<close> and \<open>nat\<close>; the hash of the stub
  sizes is 32 bits wide and proved equal to the one on words.

  \<^bold>\<open>Parameters.\<close>  Clocks, random choices, durations, digests, the frames left on the stack, the disk's willingness to write, the reply of
  the remote model, the matching of regular expressions in \<^verbatim>\<open>grep\<close> and the classes of wide characters are fields of
  \<open>host\<close> and \<open>login_env\<close> or arguments.  No property assumes anything about them beyond what it says.

  \<^bold>\<open>Not modelled.\<close>  AsyncSSH and the Groq client beyond the values read from them; the listener
  (\<^verbatim>\<open>start_ssh_backend\<close> wires the modelled callbacks up); the argument parser of the benchmark; the C++ proxy and
  the tests.  Times are integers, those of the benchmark rationals.  Strings hold the characters up to U+00FF; byte sizes are those of
  UTF-8.  A command line is one step: clients interleave between their lines, not inside the awaits of one line.
  A channel that breaks is noticed at the next read (\<open>Broken\<close>, \<open>leaves\<close>).
\<close>

end
